theory Spec2Isabelle
  imports Main
begin

section \<open>Python values and built-in operations\<close>

text \<open>
  The generator of \<^verbatim>\<open>tornado_swagger/_builders.py\<close> manipulates Python strings,
  lists and dictionaries.  A Python \<^verbatim>\<open>str\<close> is modelled as a \<^typ>\<open>string\<close> whose
  characters stand for the code points 0 to 255; a dictionary is an association list in
  insertion order with at most one binding for each key; the objects inside documents
  are the values of \<open>pyval\<close>.  An exception is a value of \<open>py_error\<close> and a function
  that may raise returns \<open>py_error + 'a\<close>.
\<close>

datatype key = KStr string | KInt int

datatype pyval =
    PNone
  | PBool bool
  | PInt int
  | PStr string
  | PList "pyval list"
  | PDict "(key \<times> pyval) list"

datatype py_error =
    ValueError string
  | KeyError string
  | AttributeError string
  | TypeError string
  | AssertionError string
  | ReError string

text \<open>Truth value of an object, as tested by \<^verbatim>\<open>if x:\<close>.\<close>

fun py_truthy :: "pyval \<Rightarrow> bool" where
  "py_truthy PNone = False"
| "py_truthy (PBool b) = b"
| "py_truthy (PInt i) = (i \<noteq> 0)"
| "py_truthy (PStr s) = (s \<noteq> [])"
| "py_truthy (PList xs) = (xs \<noteq> [])"
| "py_truthy (PDict d) = (d \<noteq> [])"

subsection \<open>Dictionaries\<close>

definition dict_get :: "('k \<times> 'v) list \<Rightarrow> 'k \<Rightarrow> 'v option" where
  "dict_get d k = map_of d k"

definition dict_contains :: "('k \<times> 'v) list \<Rightarrow> 'k \<Rightarrow> bool" where
  "dict_contains d k = (map_of d k \<noteq> None)"

text \<open>\<^verbatim>\<open>d[k] = v\<close>: an existing key keeps its position, a new key goes last.\<close>

fun dict_set :: "('k \<times> 'v) list \<Rightarrow> 'k \<Rightarrow> 'v \<Rightarrow> ('k \<times> 'v) list" where
  "dict_set [] k v = [(k, v)]"
| "dict_set ((k', v') # d) k v =
     (if k' = k then (k', v) # d else (k', v') # dict_set d k v)"

text \<open>\<^verbatim>\<open>d.pop(k)\<close> on a dictionary that has the key: what is left of \<open>d\<close>.\<close>

definition dict_remove :: "('k \<times> 'v) list \<Rightarrow> 'k \<Rightarrow> ('k \<times> 'v) list" where
  "dict_remove d k = filter (\<lambda>kv. fst kv \<noteq> k) d"

subsection \<open>Strings\<close>

definition NL :: char where
  "NL = CHR 0x0A"

definition CR :: char where
  "CR = CHR 0x0D"

definition TAB :: char where
  "TAB = CHR 0x09"

text \<open>
  The line boundaries of \<^verbatim>\<open>str.splitlines\<close> among the code points below 256:
  line feed, vertical tab, form feed, carriage return, the file, group and record
  separators and next line.
\<close>

definition is_linebreak :: "char \<Rightarrow> bool" where
  "is_linebreak c =
     (c \<in> {CHR 0x0A, CHR 0x0B, CHR 0x0C, CHR 0x0D, CHR 0x1C, CHR 0x1D, CHR 0x1E, CHR 0x85})"

text \<open>
  \<^verbatim>\<open>s.splitlines()\<close>: the lines of \<open>s\<close> without their terminators; a carriage return
  followed by a line feed is one terminator, and a terminator at the very end opens no
  further line.
\<close>

fun splitlines :: "string \<Rightarrow> string list" where
  "splitlines [] = []"
| "splitlines [c] = (if is_linebreak c then [''''] else [c # []])"
| "splitlines (c # d # cs) =
     (if c = CR \<and> d = NL then [] # splitlines cs
      else if is_linebreak c then [] # splitlines (d # cs)
      else (case splitlines (d # cs) of
              [] \<Rightarrow> [c # []]
            | l # ls \<Rightarrow> (c # l) # ls))"

text \<open>\<^verbatim>\<open>sep.join(xs)\<close>.\<close>

fun join :: "string \<Rightarrow> string list \<Rightarrow> string" where
  "join sep [] = []"
| "join sep [x] = x"
| "join sep (x # y # ys) = x @ sep @ join sep (y # ys)"

fun startswith :: "string \<Rightarrow> string \<Rightarrow> bool" where
  "startswith s [] = True"
| "startswith [] (p # ps) = False"
| "startswith (c # cs) (p # ps) = (c = p \<and> startswith cs ps)"

text \<open>\<^verbatim>\<open>sub in s\<close> for strings.\<close>

fun str_contains :: "string \<Rightarrow> string \<Rightarrow> bool" where
  "str_contains [] sub = (sub = [])"
| "str_contains (c # cs) sub = (startswith (c # cs) sub \<or> str_contains cs sub)"

text \<open>\<^verbatim>\<open>s.replace(old, new)\<close> for a non-empty \<open>old\<close> of one character.\<close>

definition replace_char :: "char \<Rightarrow> string \<Rightarrow> string \<Rightarrow> string" where
  "replace_char old new s = concat (map (\<lambda>c. if c = old then new else [c]) s)"

text \<open>\<^verbatim>\<open>s.replace(old, new, 1)\<close>: the leftmost occurrence only.\<close>

fun replace_first :: "string \<Rightarrow> string \<Rightarrow> string \<Rightarrow> string" where
  "replace_first old new [] = (if old = [] then new else [])"
| "replace_first old new (c # cs) =
     (if startswith (c # cs) old then new @ drop (length old) (c # cs)
      else c # replace_first old new cs)"

text \<open>\<^verbatim>\<open>s.lower()\<close> on the code points below 256.\<close>

definition lower_char :: "char \<Rightarrow> char" where
  "lower_char c =
     (let n = (of_char c :: nat)
      in if (65 \<le> n \<and> n \<le> 90) \<or> (192 \<le> n \<and> n \<le> 222 \<and> n \<noteq> 215)
         then char_of (n + 32) else c)"

definition lower :: "string \<Rightarrow> string" where
  "lower s = map lower_char s"

text \<open>
  \<^verbatim>\<open>re.compile(r"\(.*?\)").findall(s)\<close>: scanning from the left, every opening
  parenthesis that is followed on the same line by a closing one starts a match, which
  ends at the first closing parenthesis; the search goes on after the match.
  \<open>scan_close\<close> reads the text after an opening parenthesis and returns the characters
  before the first closing parenthesis and the text behind it.
\<close>

fun scan_close :: "string \<Rightarrow> (string \<times> string) option" where
  "scan_close [] = None"
| "scan_close (c # cs) =
     (if c = CHR '')'' then Some ([], cs)
      else if c = NL then None
      else (case scan_close cs of
              None \<Rightarrow> None
            | Some (inner, rest) \<Rightarrow> Some (c # inner, rest)))"

function findall_brackets :: "string \<Rightarrow> string list" where
  "findall_brackets [] = []"
| "findall_brackets (c # cs) =
     (if c = CHR ''(''
      then (case scan_close cs of
              None \<Rightarrow> findall_brackets cs
            | Some (inner, rest) \<Rightarrow> (c # inner @ '')'') # findall_brackets rest)
      else findall_brackets cs)"
  by pat_completeness auto
termination
proof -
  have shorter: "length rest < length s" if "scan_close s = Some (inner, rest)"
    for s inner rest
    using that by (induction s arbitrary: inner rest) (auto split: if_splits option.splits)
  show ?thesis
    by (relation "measure length") (auto dest: shorter)
qed

section \<open>Handlers, routes and the libraries the generator calls\<close>

text \<open>
  The annotation of a handler argument as \<^verbatim>\<open>inspect.signature\<close> reports it: one of
  the nine keys of \<^verbatim>\<open>PYTHON_TO_OPENAPI_MAPPER\<close>, \<^verbatim>\<open>inspect.Parameter.empty\<close> for an
  argument without annotation, or any other object.
\<close>

datatype annotation =
    TInt | TFloat | TStr | TBool | TList | TDict | TNone | TBytes | TComplex
  | TEmpty
  | TOther string

datatype param_kind =
    POSITIONAL_ONLY | POSITIONAL_OR_KEYWORD | VAR_POSITIONAL | KEYWORD_ONLY | VAR_KEYWORD

record parameter =
  param_name :: string
  param_kind :: param_kind
  param_annotation :: annotation

text \<open>
  A pydantic model class: its \<^verbatim>\<open>__name__\<close> and the dictionary that
  \<^verbatim>\<open>schema(by_alias=False, ref_template="#/components/schemas/{model}")\<close> returns.
\<close>

record pydantic_model =
  model_name :: string
  model_schema :: "(key \<times> pyval) list"

text \<open>
  One value of the \<^verbatim>\<open>responses\<close> dictionary of \<^verbatim>\<open>SwaggerMethodInfo\<close>: a dictionary
  with the keys \<^verbatim>\<open>"model"\<close> and \<^verbatim>\<open>"description"\<close>, each of which may be missing.
\<close>

record response_entry =
  entry_model :: "pydantic_model option"
  entry_description :: "pyval option"

record swagger_method_info =
  responses :: "(int \<times> response_entry) list"
  request :: "pydantic_model option"
  query :: "pydantic_model option"
  tags :: "string list option"

text \<open>
  A method of a handler class, as seen through \<^verbatim>\<open>inspect.unwrap\<close>: its docstring,
  its declared parameters (the first one is \<^verbatim>\<open>self\<close>) and the \<^verbatim>\<open>_swagger_info\<close>
  attribute that \<^verbatim>\<open>swagger_decorator\<close> attaches.
\<close>

record handler_method =
  method_doc :: "string option"
  method_parameters :: "parameter list"
  method_swagger_info :: "swagger_method_info option"

record handler =
  SUPPORTED_METHODS :: "string list"
  handler_attrs :: "(string \<times> handler_method) list"

definition getattr :: "handler \<Rightarrow> string \<Rightarrow> py_error + handler_method" where
  "getattr h name =
     (case dict_get (handler_attrs h) name of
        None \<Rightarrow> Inl (AttributeError name)
      | Some m \<Rightarrow> Inr m)"

text \<open>
  \<^verbatim>\<open>tornado.web.URLSpec\<close>: the compiled pattern (\<^verbatim>\<open>route.regex.pattern\<close>), its number
  of capturing groups (\<^verbatim>\<open>route.regex.groups\<close>) and the handler class
  (\<^verbatim>\<open>route.target\<close>).
\<close>

record urlspec =
  regex_pattern :: string
  regex_groups :: nat
  target :: handler

text \<open>
  A route of the list handed to the generator is, by the annotations of
  \<^verbatim>\<open>generate_doc_from_endpoints\<close>, either an \<^verbatim>\<open>URLSpec\<close> object or a tuple of a
  pattern and a handler.
\<close>

datatype route = URLSpec urlspec | RouteTuple string handler

text \<open>
  What a call of \<^verbatim>\<open>yaml.safe_load\<close> does: it returns the loaded object, raises
  \<^verbatim>\<open>yaml.YAMLError\<close> (the only exception that \<^verbatim>\<open>build_swagger_docs\<close> catches), or
  raises an exception of another class, as the constructor of a date that is out of
  range does.
\<close>

datatype yaml_result = YAMLValue pyval | YAMLError | YAMLRaises py_error

text \<open>
  What the module takes from outside: the three dialect identifiers of
  \<^verbatim>\<open>tornado_swagger.const\<close>, \<^verbatim>\<open>yaml.safe_load\<close>, \<^verbatim>\<open>re.compile\<close> (it raises
  \<^verbatim>\<open>re.error\<close>, or returns a pattern object, of which the model keeps \<^verbatim>\<open>groups\<close> and
  the length of \<^verbatim>\<open>groupindex\<close>, the number of named groups), and the exports of
  \<^verbatim>\<open>tornado_swagger.model\<close> and \<^verbatim>\<open>tornado_swagger.parameter\<close>.
\<close>

record environment =
  API_SWAGGER_2 :: string
  API_OPENAPI_3 :: string
  API_OPENAPI_3_PYDANTIC :: string
  yaml_safe_load :: "string \<Rightarrow> yaml_result"
  re_compile :: "string \<Rightarrow> py_error + (nat \<times> nat)"
  export_swagger_models :: pyval
  export_swagger_parameters :: pyval

text \<open>
  \<^verbatim>\<open>tornado.web.url(pattern, handler)\<close>: the constructor appends the end anchor to a
  pattern that does not end with it, compiles the result, and asserts that the groups
  of the pattern are all named or all positional; the message of the
  \<^verbatim>\<open>AssertionError\<close> quotes the pattern, which is what the model keeps of it.
\<close>

definition anchored :: "string \<Rightarrow> string" where
  "anchored pattern = (if startswith (rev pattern) ''$'' then pattern else pattern @ ''$'')"

definition tornado_web_url :: "environment \<Rightarrow> string \<Rightarrow> handler \<Rightarrow> py_error + urlspec" where
  "tornado_web_url env pattern h =
     (case re_compile env (anchored pattern) of
        Inl e \<Rightarrow> Inl e
      | Inr (groups, named) \<Rightarrow>
          if named = 0 \<or> named = groups
          then Inr \<lparr>regex_pattern = anchored pattern, regex_groups = groups, target = h\<rparr>
          else Inl (AssertionError (anchored pattern)))"

text \<open>
  A call of \<^verbatim>\<open>warnings.warn\<close>: the text of the message and the route whose
  \<^verbatim>\<open>str\<close> is appended to it.
\<close>

datatype diagnostic = UserWarning string urlspec

section \<open>Reflection Extractor and Path Formatter\<close>

text \<open>\<^verbatim>\<open>inspect.getfullargspec(inspect.unwrap(method_handler)).args[1:]\<close>\<close>

definition try_extract_args :: "handler_method \<Rightarrow> string list" where
  "try_extract_args method_handler =
     tl (map param_name
           (filter (\<lambda>p. param_kind p = POSITIONAL_ONLY \<or> param_kind p = POSITIONAL_OR_KEYWORD)
              (method_parameters method_handler)))"

text \<open>
  The loop \<^verbatim>\<open>for i, arg in enumerate(args)\<close> of \<^verbatim>\<open>_extract_parameters_names\<close>,
  started at index \<open>i\<close>.
\<close>

fun fill_parameters :: "string list \<Rightarrow> nat \<Rightarrow> string list \<Rightarrow> string list" where
  "fill_parameters parameters i [] = parameters"
| "fill_parameters parameters i (arg # args) =
     fill_parameters
       (if set arg \<noteq> {CHR ''_''} \<and> i < length parameters then parameters[i := arg]
        else parameters)
       (Suc i) args"

definition extract_parameters_names :: "handler \<Rightarrow> nat \<Rightarrow> string \<Rightarrow> py_error + string list" where
  "extract_parameters_names h parameters_count meth =
     (if parameters_count = 0 then Inr []
      else (case getattr h (lower meth) of
              Inl e \<Rightarrow> Inl e
            | Inr method_handler \<Rightarrow>
                Inr (fill_parameters (replicate parameters_count ''{?}'') 0
                       (try_extract_args method_handler))))"

text \<open>
  The loop \<^verbatim>\<open>for i, entity in enumerate(brackets)\<close> of \<^verbatim>\<open>_format_handler_path\<close>,
  started at index \<open>i\<close>; it runs only when there are as many parameters as brackets.
\<close>

fun replace_brackets :: "string \<Rightarrow> string list \<Rightarrow> nat \<Rightarrow> string list \<Rightarrow> string" where
  "replace_brackets route_pattern parameters i [] = route_pattern"
| "replace_brackets route_pattern parameters i (entity # brackets) =
     replace_brackets
       (replace_first entity (''{'' @ parameters ! i @ ''}'') route_pattern)
       parameters (Suc i) brackets"

definition illegal_route :: "urlspec \<Rightarrow> diagnostic" where
  "illegal_route r =
     UserWarning ''Illegal route. route.regex.groups does not match all parameters. Route = '' r"

text \<open>
  \<^verbatim>\<open>_format_handler_path\<close> returns the path, or \<^verbatim>\<open>None\<close> after a warning; the second
  component lists the warnings of the call.
\<close>

definition format_handler_path ::
  "urlspec \<Rightarrow> string \<Rightarrow> py_error + (string option \<times> diagnostic list)" where
  "format_handler_path r meth =
     (case extract_parameters_names (target r) (regex_groups r) meth of
        Inl e \<Rightarrow> Inl e
      | Inr parameters \<Rightarrow>
          (let route_pattern = regex_pattern r;
               brackets = findall_brackets route_pattern
           in if length brackets \<noteq> length parameters
              then Inr (None, [illegal_route r])
              else Inr (Some (butlast (replace_brackets route_pattern parameters 0 brackets)),
                        [])))"

section \<open>Docstring Schema Extractor and the docstring Route Processor\<close>

definition SWAGGER_DOC_SEPARATOR :: string where
  "SWAGGER_DOC_SEPARATOR = ''---''"

text \<open>
  The loop of \<^verbatim>\<open>_extract_swagger_definition\<close>: the lines behind the first line that
  contains the separator, if there is one.
\<close>

fun after_separator :: "string list \<Rightarrow> string list option" where
  "after_separator [] = None"
| "after_separator (doc_line # ls) =
     (if str_contains doc_line SWAGGER_DOC_SEPARATOR then Some ls else after_separator ls)"

definition extract_swagger_definition :: "string \<Rightarrow> string" where
  "extract_swagger_definition endpoint_doc =
     (let ls = splitlines endpoint_doc
      in join [NL] (case after_separator ls of None \<Rightarrow> ls | Some rest \<Rightarrow> rest))"

definition invalid_swagger :: pyval where
  "invalid_swagger =
     PDict [(KStr ''description'', PStr ''Swagger document could not be loaded from docstring''),
            (KStr ''tags'', PList [PStr ''Invalid Swagger''])]"

definition build_swagger_docs :: "environment \<Rightarrow> string \<Rightarrow> py_error + pyval" where
  "build_swagger_docs env endpoint_doc =
     (case yaml_safe_load env
             (replace_char TAB ''    '' (extract_swagger_definition endpoint_doc)) of
        YAMLRaises e \<Rightarrow> Inl e
      | YAMLError \<Rightarrow> Inr invalid_swagger
      | YAMLValue end_point_swagger_doc \<Rightarrow>
          (case end_point_swagger_doc of
             PDict d \<Rightarrow> Inr (PDict d)
           | _ \<Rightarrow> Inr invalid_swagger))"

text \<open>The loop of \<^verbatim>\<open>_build_doc_from_func_doc\<close> over \<^verbatim>\<open>handler.SUPPORTED_METHODS\<close>.\<close>

fun func_doc_loop ::
  "environment \<Rightarrow> handler \<Rightarrow> string list \<Rightarrow> (string \<times> pyval) list
     \<Rightarrow> py_error + (string \<times> pyval) list" where
  "func_doc_loop env h [] out = Inr out"
| "func_doc_loop env h (meth # ms) out =
     (case getattr h (lower meth) of
        Inl e \<Rightarrow> Inl e
      | Inr f \<Rightarrow>
          (case method_doc f of
             None \<Rightarrow> func_doc_loop env h ms out
           | Some doc \<Rightarrow>
               if str_contains doc ''---''
               then (case build_swagger_docs env doc of
                       Inl e \<Rightarrow> Inl e
                     | Inr d \<Rightarrow> func_doc_loop env h ms (dict_set out (lower meth) d))
               else func_doc_loop env h ms out))"

definition build_doc_from_func_doc ::
  "environment \<Rightarrow> handler \<Rightarrow> py_error + (string \<times> pyval) list" where
  "build_doc_from_func_doc env h = func_doc_loop env h (SUPPORTED_METHODS h) []"

text \<open>
  The paths mapping, \<^verbatim>\<open>collections.defaultdict(dict)\<close>, and
  \<^verbatim>\<open>paths[path_handler].update({method_name: method_description})\<close>.
\<close>

type_synonym paths = "(string \<times> (string \<times> pyval) list) list"

definition paths_update :: "paths \<Rightarrow> string \<Rightarrow> string \<Rightarrow> pyval \<Rightarrow> paths" where
  "paths_update ps path_handler method_name method_description =
     dict_set ps path_handler
       (dict_set (case dict_get ps path_handler of None \<Rightarrow> [] | Some ops \<Rightarrow> ops)
          method_name method_description)"

text \<open>
  The inner loop of \<^verbatim>\<open>_extract_paths\<close> and of \<^verbatim>\<open>extract_paths_pydantic\<close> over the
  operations of one route; the state is the paths mapping and the warnings so far.
\<close>

fun add_operations ::
  "urlspec \<Rightarrow> (string \<times> pyval) list \<Rightarrow> paths \<times> diagnostic list
     \<Rightarrow> py_error + (paths \<times> diagnostic list)" where
  "add_operations r [] st = Inr st"
| "add_operations r ((method_name, method_description) # items) st =
     (case format_handler_path r method_name of
        Inl e \<Rightarrow> Inl e
      | Inr (path_handler, ws) \<Rightarrow>
          add_operations r items
            (case path_handler of
               None \<Rightarrow> (fst st, snd st @ ws)
             | Some p \<Rightarrow>
                 (paths_update (fst st) p method_name method_description, snd st @ ws)))"

text \<open>
  The loop of \<^verbatim>\<open>_extract_paths\<close> over the routes; \<^verbatim>\<open>route.target\<close> exists on an
  \<^verbatim>\<open>URLSpec\<close> and not on a tuple.
\<close>

fun extract_paths_loop ::
  "environment \<Rightarrow> route list \<Rightarrow> paths \<times> diagnostic list
     \<Rightarrow> py_error + (paths \<times> diagnostic list)" where
  "extract_paths_loop env [] st = Inr st"
| "extract_paths_loop env (rt # routes) st =
     (case rt of
        RouteTuple pattern h \<Rightarrow> Inl (AttributeError ''target'')
      | URLSpec r \<Rightarrow>
          (case build_doc_from_func_doc env (target r) of
             Inl e \<Rightarrow> Inl e
           | Inr docs \<Rightarrow>
               (case add_operations r docs st of
                  Inl e \<Rightarrow> Inl e
                | Inr st' \<Rightarrow> extract_paths_loop env routes st')))"

definition extract_paths ::
  "environment \<Rightarrow> route list \<Rightarrow> py_error + (paths \<times> diagnostic list)" where
  "extract_paths env routes = extract_paths_loop env routes ([], [])"

section \<open>Model-declaration Route Processor\<close>

definition PYTHON_TO_OPENAPI_MAPPER :: "(annotation \<times> pyval) list" where
  "PYTHON_TO_OPENAPI_MAPPER =
     [(TInt, PDict [(KStr ''type'', PStr ''integer''), (KStr ''format'', PStr ''int32'')]),
      (TFloat, PDict [(KStr ''type'', PStr ''number''), (KStr ''format'', PStr ''float'')]),
      (TStr, PDict [(KStr ''type'', PStr ''string'')]),
      (TBool, PDict [(KStr ''type'', PStr ''boolean'')]),
      (TList, PDict [(KStr ''type'', PStr ''array''), (KStr ''items'', PDict [])]),
      (TDict, PDict [(KStr ''type'', PStr ''object'')]),
      (TNone, PDict [(KStr ''nullable'', PBool True)]),
      (TBytes, PDict [(KStr ''type'', PStr ''string''), (KStr ''format'', PStr ''byte'')]),
      (TComplex, PDict [(KStr ''type'', PStr ''number''), (KStr ''format'', PStr ''double'')])]"

text \<open>
  \<^verbatim>\<open>input_parameters_getter\<close>: the name and the annotation of every parameter of the
  signature that is not called \<^verbatim>\<open>self\<close> or \<^verbatim>\<open>cls\<close>.
\<close>

definition input_parameters_getter :: "handler_method \<Rightarrow> (string \<times> annotation) list" where
  "input_parameters_getter some_callable =
     map (\<lambda>p. (param_name p, param_annotation p))
       (filter (\<lambda>p. param_name p \<noteq> ''self'' \<and> param_name p \<noteq> ''cls'')
          (method_parameters some_callable))"

fun key_value :: "key \<Rightarrow> pyval" where
  "key_value (KStr s) = PStr s"
| "key_value (KInt i) = PInt i"

text \<open>\<^verbatim>\<open>d.items()\<close>, which only a dictionary has.\<close>

definition py_items :: "pyval \<Rightarrow> py_error + (key \<times> pyval) list" where
  "py_items v = (case v of PDict d \<Rightarrow> Inr d | _ \<Rightarrow> Inl (AttributeError ''items''))"

text \<open>
  \<^verbatim>\<open>x in container\<close> for a string or an integer \<open>x\<close>: Python compares with \<^verbatim>\<open>==\<close>,
  for which \<^verbatim>\<open>True\<close> is 1 and \<^verbatim>\<open>False\<close> is 0.
\<close>

fun as_number :: "pyval \<Rightarrow> pyval" where
  "as_number (PBool b) = PInt (if b then 1 else 0)"
| "as_number v = v"

definition py_in :: "pyval \<Rightarrow> pyval \<Rightarrow> py_error + bool" where
  "py_in x container =
     (case container of
        PList xs \<Rightarrow> Inr (x \<in> set (map as_number xs))
      | PDict d \<Rightarrow> Inr (x \<in> set (map (\<lambda>kv. key_value (fst kv)) d))
      | PStr s \<Rightarrow>
          (case x of
             PStr t \<Rightarrow> Inr (str_contains s t)
           | _ \<Rightarrow> Inl (TypeError ''in''))
      | _ \<Rightarrow> Inl (TypeError ''in''))"

text \<open>The text of an annotation, for the message of a \<^verbatim>\<open>KeyError\<close>.\<close>

fun annotation_repr :: "annotation \<Rightarrow> string" where
  "annotation_repr TInt = ''int''"
| "annotation_repr TFloat = ''float''"
| "annotation_repr TStr = ''str''"
| "annotation_repr TBool = ''bool''"
| "annotation_repr TList = ''list''"
| "annotation_repr TDict = ''dict''"
| "annotation_repr TNone = ''None''"
| "annotation_repr TBytes = ''bytes''"
| "annotation_repr TComplex = ''complex''"
| "annotation_repr TEmpty = ''inspect._empty''"
| "annotation_repr (TOther s) = s"

text \<open>The first loop of \<^verbatim>\<open>_build_input_and_query_doc\<close>.\<close>

fun path_parameters :: "(string \<times> annotation) list \<Rightarrow> py_error + pyval list" where
  "path_parameters [] = Inr []"
| "path_parameters ((name, ty) # input_parameters) =
     (case dict_get PYTHON_TO_OPENAPI_MAPPER ty of
        None \<Rightarrow> Inl (KeyError (annotation_repr ty))
      | Some schema \<Rightarrow>
          (case path_parameters input_parameters of
             Inl e \<Rightarrow> Inl e
           | Inr parameters \<Rightarrow>
               Inr (PDict [(KStr ''in'', PStr ''path''),
                           (KStr ''required'', PBool True),
                           (KStr ''name'', PStr name),
                           (KStr ''schema'', schema)] # parameters)))"

text \<open>
  The second loop, over the items of \<^verbatim>\<open>query_schema["properties"]\<close>; \<open>required\<close> is
  \<^verbatim>\<open>query_schema.get("required", [])\<close>.
\<close>

fun query_parameters :: "(key \<times> pyval) list \<Rightarrow> pyval \<Rightarrow> py_error + pyval list" where
  "query_parameters [] required = Inr []"
| "query_parameters ((parameter_name, schema) # props) required =
     (case py_in (key_value parameter_name) required of
        Inl e \<Rightarrow> Inl e
      | Inr b \<Rightarrow>
          (case query_parameters props required of
             Inl e \<Rightarrow> Inl e
           | Inr parameters \<Rightarrow>
               Inr (PDict [(KStr ''in'', PStr ''query''),
                           (KStr ''required'', PBool b),
                           (KStr ''name'', key_value parameter_name),
                           (KStr ''schema'', schema)] # parameters)))"

definition build_input_and_query_doc ::
  "(string \<times> annotation) list \<Rightarrow> pydantic_model option \<Rightarrow> py_error + pyval list" where
  "build_input_and_query_doc input_parameters qry =
     (case path_parameters input_parameters of
        Inl e \<Rightarrow> Inl e
      | Inr parameters \<Rightarrow>
          (case qry of
             None \<Rightarrow> Inr parameters
           | Some q \<Rightarrow>
               (let query_schema = model_schema q
                in case dict_get query_schema (KStr ''properties'') of
                     None \<Rightarrow> Inl (KeyError ''properties'')
                   | Some props \<Rightarrow>
                       (case py_items props of
                          Inl e \<Rightarrow> Inl e
                        | Inr items \<Rightarrow>
                            (case query_parameters items
                                    (case dict_get query_schema (KStr ''required'') of
                                       None \<Rightarrow> PList []
                                     | Some r \<Rightarrow> r) of
                               Inl e \<Rightarrow> Inl e
                             | Inr query_params \<Rightarrow> Inr (parameters @ query_params))))))"

text \<open>
  The components of one generation pass: \<^verbatim>\<open>self.components["schemas"]\<close>, keyed by
  schema name (\<^verbatim>\<open>self.components["parameters"]\<close> stays empty).
\<close>

type_synonym schemas = "(key \<times> pyval) list"

text \<open>The loop of \<^verbatim>\<open>_add_components_from_definitions\<close> over \<^verbatim>\<open>definitions.items()\<close>.\<close>

fun add_components_from_definitions :: "schemas \<Rightarrow> (key \<times> pyval) list \<Rightarrow> schemas" where
  "add_components_from_definitions comps [] = comps"
| "add_components_from_definitions comps ((definition_name, definition_spec) # definitions) =
     add_components_from_definitions
       (if \<not> dict_contains comps definition_name
        then dict_set comps definition_name definition_spec
        else comps)
       definitions"

text \<open>
  The two lines
  \<^verbatim>\<open>if "definitions" in model_spec: self._add_components_from_definitions(model_spec.pop("definitions"))\<close>
  as far as the components go; \<open>pop_definitions\<close> is what they leave of \<^verbatim>\<open>model_spec\<close>.
\<close>

definition register_definitions :: "schemas \<Rightarrow> (key \<times> pyval) list \<Rightarrow> py_error + schemas" where
  "register_definitions comps model_spec =
     (case dict_get model_spec (KStr ''definitions'') of
        None \<Rightarrow> Inr comps
      | Some definitions \<Rightarrow>
          (case py_items definitions of
             Inl e \<Rightarrow> Inl e
           | Inr items \<Rightarrow> Inr (add_components_from_definitions comps items)))"

definition pop_definitions :: "(key \<times> pyval) list \<Rightarrow> (key \<times> pyval) list" where
  "pop_definitions model_spec = dict_remove model_spec (KStr ''definitions'')"

definition generate_default_description :: "int \<Rightarrow> string" where
  "generate_default_description status_code =
     (if status_code < 400 then ''Successful Response''
      else if status_code < 500 then ''Bad request''
      else ''Internal Server Error'')"

text \<open>
  The description of a response: \<^verbatim>\<open>response_model.get("description", None)\<close>, replaced
  by the default when it is not true.
\<close>

definition response_description :: "int \<Rightarrow> response_entry \<Rightarrow> pyval" where
  "response_description status_code response_model =
     (let description = (case entry_description response_model of None \<Rightarrow> PNone | Some d \<Rightarrow> d)
      in if \<not> py_truthy description
         then PStr (generate_default_description status_code)
         else description)"

text \<open>The dictionary stored as \<^verbatim>\<open>responses[status_code]\<close>.\<close>

definition response_object :: "pyval \<Rightarrow> string \<Rightarrow> pyval" where
  "response_object description name =
     PDict [(KStr ''description'', description),
            (KStr ''content'',
             PDict [(KStr ''application/json'',
                     PDict [(KStr ''schema'',
                             PDict [(KStr ''$ref'',
                                     PStr (''#/components/schemas/'' @ name))])])])]"

text \<open>
  The loop of \<^verbatim>\<open>build_pydantic_docs\<close> over \<^verbatim>\<open>response_models.items()\<close>.  The
  dictionary stored under the model's name is \<^verbatim>\<open>model_spec\<close> itself, so the
  \<^verbatim>\<open>pop\<close> two lines further down takes the nested definitions out of the stored entry
  as well: the entry is \<open>pop_definitions model_spec\<close>.
\<close>

fun responses_loop ::
  "(int \<times> response_entry) list \<Rightarrow> schemas \<Rightarrow> (key \<times> pyval) list
     \<Rightarrow> py_error + ((key \<times> pyval) list \<times> schemas)" where
  "responses_loop [] comps resps = Inr (resps, comps)"
| "responses_loop ((status_code, response_model) # response_models) comps resps =
     (case entry_model response_model of
        None \<Rightarrow> Inl (KeyError ''model'')
      | Some model \<Rightarrow>
          (let description = response_description status_code response_model;
               model_spec = model_schema model;
               name = model_name model;
               comps1 = (if \<not> dict_contains comps (KStr name)
                         then dict_set comps (KStr name) (PDict (pop_definitions model_spec))
                         else comps)
           in case register_definitions comps1 model_spec of
                Inl e \<Rightarrow> Inl e
              | Inr comps2 \<Rightarrow>
                  responses_loop response_models comps2
                    (dict_set resps (KInt status_code) (response_object description name))))"

definition request_body :: "(key \<times> pyval) list \<Rightarrow> pyval" where
  "request_body model_spec =
     PDict [(KStr ''content'',
             PDict [(KStr ''application/json'', PDict [(KStr ''schema'', PDict model_spec)])]),
            (KStr ''required'', PBool True)]"

definition build_pydantic_docs ::
  "schemas \<Rightarrow> (string \<times> annotation) list \<Rightarrow> (int \<times> response_entry) list
     \<Rightarrow> pydantic_model option \<Rightarrow> pydantic_model option \<Rightarrow> string list option
     \<Rightarrow> py_error + (pyval \<times> schemas)" where
  "build_pydantic_docs comps input_parameters response_models req qry tgs =
     (case build_input_and_query_doc input_parameters qry of
        Inl e \<Rightarrow> Inl e
      | Inr parameters \<Rightarrow>
          (let result0 = (if parameters \<noteq> [] then [(KStr ''parameters'', PList parameters)]
                          else [])
           in case (case req of
                      None \<Rightarrow> Inr (result0, comps)
                    | Some r \<Rightarrow>
                        (case register_definitions comps (model_schema r) of
                           Inl e \<Rightarrow> Inl e
                         | Inr comps1 \<Rightarrow>
                             Inr (dict_set result0 (KStr ''requestBody'')
                                    (request_body (pop_definitions (model_schema r))),
                                  comps1))) of
                Inl e \<Rightarrow> Inl e
              | Inr (result1, comps1) \<Rightarrow>
                  (case responses_loop response_models comps1 [] of
                     Inl e \<Rightarrow> Inl e
                   | Inr (resps, comps2) \<Rightarrow>
                       (let result2 = dict_set result1 (KStr ''responses'') (PDict resps);
                            result3 = (case tgs of
                                         None \<Rightarrow> result2
                                       | Some ts \<Rightarrow>
                                           if ts \<noteq> []
                                           then dict_set result2 (KStr ''tags'')
                                                  (PList (map PStr ts))
                                           else result2)
                        in Inr (PDict result3, comps2)))))"

text \<open>The loop of \<^verbatim>\<open>_build_doc_from_pydantic_handler\<close>.\<close>

fun pydantic_handler_loop ::
  "handler \<Rightarrow> string list \<Rightarrow> (string \<times> pyval) list \<Rightarrow> schemas
     \<Rightarrow> py_error + ((string \<times> pyval) list \<times> schemas)" where
  "pydantic_handler_loop h [] out comps = Inr (out, comps)"
| "pydantic_handler_loop h (method_name # ms) out comps =
     (case getattr h (lower method_name) of
        Inl e \<Rightarrow> Inl e
      | Inr method_callable \<Rightarrow>
          (case method_swagger_info method_callable of
             None \<Rightarrow> pydantic_handler_loop h ms out comps
           | Some swagger_info \<Rightarrow>
               (case build_pydantic_docs comps (input_parameters_getter method_callable)
                       (responses swagger_info) (request swagger_info) (query swagger_info)
                       (tags swagger_info) of
                  Inl e \<Rightarrow> Inl e
                | Inr (d, comps1) \<Rightarrow>
                    pydantic_handler_loop h ms (dict_set out (lower method_name) d) comps1)))"

definition build_doc_from_pydantic_handler ::
  "schemas \<Rightarrow> handler \<Rightarrow> py_error + ((string \<times> pyval) list \<times> schemas)" where
  "build_doc_from_pydantic_handler comps h =
     pydantic_handler_loop h (SUPPORTED_METHODS h) [] comps"

text \<open>
  The state of a \<^verbatim>\<open>PydanticRoutesProcessor\<close>, with the warnings issued so far.
\<close>

record processor =
  proc_paths :: paths
  proc_schemas :: schemas
  proc_warnings :: "diagnostic list"

text \<open>
  The loop of \<^verbatim>\<open>extract_paths_pydantic\<close>; \<^verbatim>\<open>tornado.web.url(*route)\<close> unpacks a tuple
  and fails on an \<^verbatim>\<open>URLSpec\<close>, which is not iterable.
\<close>

fun extract_paths_pydantic_loop ::
  "environment \<Rightarrow> route list \<Rightarrow> processor \<Rightarrow> py_error + processor" where
  "extract_paths_pydantic_loop env [] st = Inr st"
| "extract_paths_pydantic_loop env (rt # routes) st =
     (case rt of
        URLSpec r \<Rightarrow> Inl (TypeError ''argument after * must be an iterable'')
      | RouteTuple pattern h \<Rightarrow>
          (case tornado_web_url env pattern h of
             Inl e \<Rightarrow> Inl e
           | Inr tornado_route \<Rightarrow>
               (case build_doc_from_pydantic_handler (proc_schemas st) (target tornado_route) of
                  Inl e \<Rightarrow> Inl e
                | Inr (docs, comps) \<Rightarrow>
                    (case add_operations tornado_route docs
                            (proc_paths st, proc_warnings st) of
                       Inl e \<Rightarrow> Inl e
                     | Inr (ps, ws) \<Rightarrow>
                         extract_paths_pydantic_loop env routes
                           \<lparr>proc_paths = ps, proc_schemas = comps, proc_warnings = ws\<rparr>))))"

definition extract_paths_pydantic :: "environment \<Rightarrow> route list \<Rightarrow> py_error + processor" where
  "extract_paths_pydantic env routes =
     extract_paths_pydantic_loop env routes
       \<lparr>proc_paths = [], proc_schemas = [], proc_warnings = []\<rparr>"

section \<open>Dialect Builders\<close>

text \<open>The loop of \<^verbatim>\<open>_clean_description\<close>: the index of the first character that is
  not a line feed.\<close>

fun first_non_newline :: "string \<Rightarrow> nat \<Rightarrow> nat option" where
  "first_non_newline [] i = None"
| "first_non_newline (word # rest) i =
     (if word \<noteq> NL then Some i else first_non_newline rest (Suc i))"

definition clean_description :: "string \<Rightarrow> string" where
  "clean_description description =
     (let start_desc = (case first_non_newline description 0 of None \<Rightarrow> 0 | Some i \<Rightarrow> i)
      in join ''    '' (splitlines (drop start_desc description)))"

text \<open>The keyword arguments of \<^verbatim>\<open>generate_doc_from_endpoints\<close>.\<close>

record doc_options =
  api_base_url :: string
  description :: string
  api_version :: string
  title :: string
  contact :: string
  schemes :: pyval
  security_definitions :: pyval
  security :: pyval

definition paths_value :: "paths \<Rightarrow> pyval" where
  "paths_value ps =
     PDict (map (\<lambda>(p, ops). (KStr p, PDict (map (\<lambda>(m, d). (KStr m, d)) ops))) ps)"

definition info_block :: "doc_options \<Rightarrow> pyval" where
  "info_block opts =
     PDict [(KStr ''title'', PStr (title opts)),
            (KStr ''description'', PStr (clean_description (description opts))),
            (KStr ''version'', PStr (api_version opts))]"

text \<open>
  The three conditional assignments that end every \<^verbatim>\<open>generate_doc\<close>:
  \<^verbatim>\<open>swagger_spec["info"]["contact"]\<close>, \<^verbatim>\<open>swagger_spec["securityDefinitions"]\<close> and
  \<^verbatim>\<open>swagger_spec["security"]\<close>.
\<close>

definition set_contact :: "(key \<times> pyval) list \<Rightarrow> string \<Rightarrow> (key \<times> pyval) list" where
  "set_contact swagger_spec c =
     (case dict_get swagger_spec (KStr ''info'') of
        Some (PDict info) \<Rightarrow>
          dict_set swagger_spec (KStr ''info'')
            (PDict (dict_set info (KStr ''contact'') (PDict [(KStr ''name'', PStr c)])))
      | _ \<Rightarrow> swagger_spec)"

definition optional_blocks :: "doc_options \<Rightarrow> (key \<times> pyval) list \<Rightarrow> (key \<times> pyval) list" where
  "optional_blocks opts swagger_spec =
     (let spec1 = (if contact opts \<noteq> [] then set_contact swagger_spec (contact opts)
                   else swagger_spec);
          spec2 = (if py_truthy (security_definitions opts)
                   then dict_set spec1 (KStr ''securityDefinitions'') (security_definitions opts)
                   else spec1)
      in if py_truthy (security opts) then dict_set spec2 (KStr ''security'') (security opts)
         else spec2)"

datatype builder = Swagger2DocBuilder | OpenApiDocBuilder | PydanticBuilder

text \<open>\<^verbatim>\<open>b.schema\<close>\<close>

fun builder_schema :: "environment \<Rightarrow> builder \<Rightarrow> string" where
  "builder_schema env Swagger2DocBuilder = API_SWAGGER_2 env"
| "builder_schema env OpenApiDocBuilder = API_OPENAPI_3 env"
| "builder_schema env PydanticBuilder = API_OPENAPI_3_PYDANTIC env"

text \<open>
  \<^verbatim>\<open>b.generate_doc(routes, ...)\<close>: the document and the warnings of the call, or the
  exception it raises.
\<close>

fun generate_doc ::
  "builder \<Rightarrow> environment \<Rightarrow> route list \<Rightarrow> doc_options \<Rightarrow> pyval \<Rightarrow> pyval
     \<Rightarrow> py_error + (pyval \<times> diagnostic list)" where
  "generate_doc Swagger2DocBuilder env routes opts models parameters =
     (case extract_paths env routes of
        Inl e \<Rightarrow> Inl e
      | Inr (ps, ws) \<Rightarrow>
          Inr (PDict (optional_blocks opts
                        [(KStr ''swagger'', PStr ''2.0''),
                         (KStr ''info'', info_block opts),
                         (KStr ''basePath'', PStr (api_base_url opts)),
                         (KStr ''schemes'', schemes opts),
                         (KStr ''definitions'', models),
                         (KStr ''parameters'', parameters),
                         (KStr ''paths'', paths_value ps)]),
               ws))"
| "generate_doc OpenApiDocBuilder env routes opts models parameters =
     (case extract_paths env routes of
        Inl e \<Rightarrow> Inl e
      | Inr (ps, ws) \<Rightarrow>
          Inr (PDict (optional_blocks opts
                        [(KStr ''openapi'', PStr ''3.0.3''),
                         (KStr ''info'', info_block opts),
                         (KStr ''servers'', PList [PDict [(KStr ''url'', PStr (api_base_url opts))]]),
                         (KStr ''components'',
                          PDict [(KStr ''schemas'', models), (KStr ''parameters'', parameters)]),
                         (KStr ''paths'', paths_value ps)]),
               ws))"
| "generate_doc PydanticBuilder env routes opts models parameters =
     (case extract_paths_pydantic env routes of
        Inl e \<Rightarrow> Inl e
      | Inr st \<Rightarrow>
          Inr (PDict (optional_blocks opts
                        [(KStr ''openapi'', PStr ''3.0.3''),
                         (KStr ''info'', info_block opts),
                         (KStr ''servers'', PList [PDict [(KStr ''url'', PStr (api_base_url opts))]]),
                         (KStr ''components'',
                          PDict [(KStr ''schemas'', PDict (proc_schemas st)),
                                 (KStr ''parameters'', PDict [])]),
                         (KStr ''paths'', paths_value (proc_paths st))]),
               proc_warnings st))"

text \<open>
  \<^verbatim>\<open>doc_builders = {b.schema: b for b in [Swagger2DocBuilder(), OpenApiDocBuilder(), PydanticBuilder()]}\<close>
\<close>

definition doc_builders :: "environment \<Rightarrow> (string \<times> builder) list" where
  "doc_builders env =
     foldl (\<lambda>d b. dict_set d (builder_schema env b) b) []
       [Swagger2DocBuilder, OpenApiDocBuilder, PydanticBuilder]"

definition generate_doc_from_endpoints ::
  "environment \<Rightarrow> route list \<Rightarrow> doc_options \<Rightarrow> string
     \<Rightarrow> py_error + (pyval \<times> diagnostic list)" where
  "generate_doc_from_endpoints env routes opts api_definition_version =
     (if \<not> dict_contains (doc_builders env) api_definition_version
      then Inl (ValueError (''Unknown api_definition_version = '' @ api_definition_version))
      else (case dict_get (doc_builders env) api_definition_version of
              None \<Rightarrow> Inl (KeyError api_definition_version)
            | Some b \<Rightarrow>
                generate_doc b env routes opts (export_swagger_models env)
                  (export_swagger_parameters env)))"

section \<open>Notions used in the statements\<close>

text \<open>A name that consists entirely of underscore characters.\<close>

definition only_underscores :: "string \<Rightarrow> bool" where
  "only_underscores arg = (arg \<noteq> [] \<and> list_all (\<lambda>c. c = CHR ''_'') arg)"

text \<open>
  What the docstring of a method contributes to the operations of its handler, when the
  loader raises nothing that \<^verbatim>\<open>build_swagger_docs\<close> does not catch.
\<close>

definition emitted_from_doc :: "environment \<Rightarrow> handler_method \<Rightarrow> pyval option" where
  "emitted_from_doc env f =
     (case method_doc f of
        None \<Rightarrow> None
      | Some doc \<Rightarrow>
          if str_contains doc ''---''
          then (case build_swagger_docs env doc of Inl e \<Rightarrow> None | Inr d \<Rightarrow> Some d)
          else None)"

text \<open>A value that is a dictionary, as \<^verbatim>\<open>isinstance(v, dict)\<close> tests it.\<close>

fun is_mapping :: "pyval \<Rightarrow> bool" where
  "is_mapping (PDict d) = True"
| "is_mapping v = False"

text \<open>
  The description as claim C10 words it: the leading line feeds dropped, every line
  feed that is left replaced by four spaces.
\<close>

definition flatten_as_claimed :: "string \<Rightarrow> string" where
  "flatten_as_claimed d =
     concat (map (\<lambda>c. if c = NL then ''    '' else [c]) (dropWhile (\<lambda>c. c = NL) d))"

text \<open>
  A text with every line terminator that is followed by more text replaced by four
  spaces, and a terminator at the very end left out.
\<close>

fun flatten_lines :: "string \<Rightarrow> string" where
  "flatten_lines [] = []"
| "flatten_lines [c] = (if is_linebreak c then [] else [c])"
| "flatten_lines (c # d # cs) =
     (if c = CR \<and> d = NL then (if cs = [] then [] else ''    '' @ flatten_lines cs)
      else if is_linebreak c then ''    '' @ flatten_lines (d # cs)
      else c # flatten_lines (d # cs))"

text \<open>\<^verbatim>\<open>doc["info"]["description"]\<close>\<close>

definition info_description :: "pyval \<Rightarrow> pyval option" where
  "info_description doc =
     (case doc of
        PDict d \<Rightarrow>
          (case dict_get d (KStr ''info'') of
             Some (PDict info) \<Rightarrow> dict_get info (KStr ''description'')
           | _ \<Rightarrow> None)
      | _ \<Rightarrow> None)"

text \<open>\<^verbatim>\<open>doc["components"]["schemas"]\<close>\<close>

definition document_schemas :: "pyval \<Rightarrow> (key \<times> pyval) list option" where
  "document_schemas doc =
     (case doc of
        PDict d \<Rightarrow>
          (case dict_get d (KStr ''components'') of
             Some (PDict comps) \<Rightarrow>
               (case dict_get comps (KStr ''schemas'') of
                  Some (PDict sch) \<Rightarrow> Some sch
                | _ \<Rightarrow> None)
           | _ \<Rightarrow> None)
      | _ \<Rightarrow> None)"

text \<open>A handler with the docstring of every method replaced.\<close>

definition with_docs :: "(string \<Rightarrow> string option) \<Rightarrow> handler \<Rightarrow> handler" where
  "with_docs g h =
     h\<lparr>handler_attrs := map (\<lambda>(n, f). (n, f\<lparr>method_doc := g n\<rparr>)) (handler_attrs h)\<rparr>"

text \<open>
  Inputs on which route processing raises nothing.  For the docstring builders: every
  name of \<^verbatim>\<open>SUPPORTED_METHODS\<close> is an attribute of the handler, as it is for every
  subclass of \<^verbatim>\<open>tornado.web.RequestHandler\<close>, and on the schema block of a docstring
  the loader returns an object or raises \<^verbatim>\<open>yaml.YAMLError\<close>.
\<close>

definition docstring_loads :: "environment \<Rightarrow> handler_method \<Rightarrow> bool" where
  "docstring_loads env f =
     (case method_doc f of
        None \<Rightarrow> True
      | Some doc \<Rightarrow>
          if str_contains doc ''---''
          then (case yaml_safe_load env
                       (replace_char TAB ''    '' (extract_swagger_definition doc)) of
                  YAMLRaises e \<Rightarrow> False
                | YAMLError \<Rightarrow> True
                | YAMLValue v \<Rightarrow> True)
          else True)"

definition handler_docs_ok :: "environment \<Rightarrow> handler \<Rightarrow> bool" where
  "handler_docs_ok env h =
     list_all (\<lambda>meth. case getattr h (lower meth) of
                        Inl e \<Rightarrow> False
                      | Inr f \<Rightarrow> docstring_loads env f)
       (SUPPORTED_METHODS h)"

text \<open>A pattern that \<^verbatim>\<open>tornado.web.url\<close> accepts.\<close>

definition pattern_ok :: "environment \<Rightarrow> string \<Rightarrow> bool" where
  "pattern_ok env pattern =
     (case re_compile env (anchored pattern) of
        Inl e \<Rightarrow> False
      | Inr (groups, named) \<Rightarrow> named = 0 \<or> named = groups)"

text \<open>A schema whose nested definitions, if it has any, are a dictionary.\<close>

definition definitions_ok :: "(key \<times> pyval) list \<Rightarrow> bool" where
  "definitions_ok model_spec =
     (case dict_get model_spec (KStr ''definitions'') of
        None \<Rightarrow> True
      | Some (PDict d) \<Rightarrow> True
      | Some v \<Rightarrow> False)"

text \<open>
  The schema of a query model: its properties are a dictionary, and membership in its
  list of required names can be tested for every property name.
\<close>

definition required_ok :: "pyval \<Rightarrow> (key \<times> pyval) list \<Rightarrow> bool" where
  "required_ok required props =
     (case required of
        PList xs \<Rightarrow> True
      | PDict d \<Rightarrow> True
      | PStr s \<Rightarrow> list_all (\<lambda>kv. case fst kv of KStr n \<Rightarrow> True | KInt i \<Rightarrow> False) props
      | v \<Rightarrow> props = [])"

definition query_ok :: "pydantic_model \<Rightarrow> bool" where
  "query_ok q =
     (case dict_get (model_schema q) (KStr ''properties'') of
        Some (PDict props) \<Rightarrow>
          required_ok (case dict_get (model_schema q) (KStr ''required'') of
                         None \<Rightarrow> PList []
                       | Some r \<Rightarrow> r) props
      | _ \<Rightarrow> False)"

text \<open>
  A decorated method: every argument but \<^verbatim>\<open>self\<close> and \<^verbatim>\<open>cls\<close> has an annotation
  that is a key of the type table, every response entry has a model, and the schemas
  have the shape above.
\<close>

definition swagger_info_ok :: "handler_method \<Rightarrow> swagger_method_info \<Rightarrow> bool" where
  "swagger_info_ok f si =
     (list_all (\<lambda>p. dict_contains PYTHON_TO_OPENAPI_MAPPER (snd p)) (input_parameters_getter f) \<and>
      (case query si of None \<Rightarrow> True | Some q \<Rightarrow> query_ok q) \<and>
      (case request si of None \<Rightarrow> True | Some r \<Rightarrow> definitions_ok (model_schema r)) \<and>
      list_all (\<lambda>ce. case entry_model (snd ce) of
                       None \<Rightarrow> False
                     | Some m \<Rightarrow> definitions_ok (model_schema m))
        (responses si))"

definition handler_models_ok :: "handler \<Rightarrow> bool" where
  "handler_models_ok h =
     list_all (\<lambda>meth. case getattr h (lower meth) of
                        Inl e \<Rightarrow> False
                      | Inr f \<Rightarrow> (case method_swagger_info f of
                                   None \<Rightarrow> True
                                 | Some si \<Rightarrow> swagger_info_ok f si))
       (SUPPORTED_METHODS h)"

text \<open>The route lists that a builder can take.\<close>

fun route_ok :: "environment \<Rightarrow> builder \<Rightarrow> route \<Rightarrow> bool" where
  "route_ok env PydanticBuilder (RouteTuple pattern h) =
     (pattern_ok env pattern \<and> handler_models_ok h)"
| "route_ok env PydanticBuilder (URLSpec r) = False"
| "route_ok env b (URLSpec r) = handler_docs_ok env (target r)"
| "route_ok env b (RouteTuple pattern h) = False"

section \<open>Sample inputs\<close>

definition sample_self :: parameter where
  "sample_self = \<lparr>param_name = ''self'', param_kind = POSITIONAL_OR_KEYWORD, param_annotation = TEmpty\<rparr>"

definition sample_method :: handler_method where
  "sample_method =
     \<lparr>method_doc = None,
      method_parameters =
        [sample_self,
         \<lparr>param_name = ''a'', param_kind = POSITIONAL_OR_KEYWORD, param_annotation = TEmpty\<rparr>,
         \<lparr>param_name = ''__'', param_kind = POSITIONAL_OR_KEYWORD, param_annotation = TEmpty\<rparr>,
         \<lparr>param_name = ''b'', param_kind = POSITIONAL_OR_KEYWORD, param_annotation = TEmpty\<rparr>],
      method_swagger_info = None\<rparr>"

definition sample_handler :: handler where
  "sample_handler = \<lparr>SUPPORTED_METHODS = [''GET''], handler_attrs = [(''get'', sample_method)]\<rparr>"

definition sample_env :: environment where
  "sample_env =
     \<lparr>API_SWAGGER_2 = ''v2'', API_OPENAPI_3 = ''v3'', API_OPENAPI_3_PYDANTIC = ''v3_pydantic'',
      yaml_safe_load =
        (\<lambda>s. if s = ''summary: hello'' then YAMLValue (PDict [(KStr ''summary'', PStr ''hello'')])
             else if s = ''- a'' then YAMLValue (PList [PStr ''a''])
             else if s = ''tags:\<newline>    - items''
               then YAMLValue (PDict [(KStr ''tags'', PList [PStr ''items''])])
             else if s = ''when: 2001-02-30''
               then YAMLRaises (ValueError ''day is out of range for month'')
             else YAMLError),
      re_compile =
        (\<lambda>p. if p = ''/items$'' \<or> p = ''/others$'' \<or> p = ''/docs$'' then Inr (0, 0)
             else if p = ''/items/(?P<item_id>[0-9]+)$'' then Inr (1, 1)
             else if p = ''/items/(?P<item_id>[0-9a-f-]+)$'' then Inr (1, 1)
             else if p = ''/u/(?P<item_id>[0-9a-f-]+)$'' then Inr (1, 1)
             else if p = ''/x/((a)|b)$'' then Inr (2, 0)
             else if p = ''/pairs/(?P<left>[0-9]+)/([0-9]+)$'' then Inr (2, 1)
             else if p = ''/items/($''
               then Inl (ReError ''missing ), unterminated subpattern at position 7'')
             else Inl (ReError [])),
      export_swagger_models = PDict [],
      export_swagger_parameters = PDict []\<rparr>"

definition item_method :: handler_method where
  "item_method =
     \<lparr>method_doc = Some ''Get an item\<newline>---\<newline>summary: hello'',
      method_parameters =
        [sample_self,
         \<lparr>param_name = ''item_id'', param_kind = POSITIONAL_OR_KEYWORD, param_annotation = TEmpty\<rparr>],
      method_swagger_info = None\<rparr>"

definition item_handler :: handler where
  "item_handler = \<lparr>SUPPORTED_METHODS = [''GET''], handler_attrs = [(''get'', item_method)]\<rparr>"

definition tab_method :: handler_method where
  "tab_method =
     \<lparr>method_doc = Some (''Tagged\<newline>---\<newline>tags:\<newline>'' @ [TAB] @ ''- items''),
      method_parameters = [sample_self], method_swagger_info = None\<rparr>"

definition date_method :: handler_method where
  "date_method =
     \<lparr>method_doc = Some ''Dated\<newline>---\<newline>when: 2001-02-30'',
      method_parameters = [sample_self], method_swagger_info = None\<rparr>"

definition date_handler :: handler where
  "date_handler = \<lparr>SUPPORTED_METHODS = [''GET''], handler_attrs = [(''get'', date_method)]\<rparr>"

definition tab_handler :: handler where
  "tab_handler = \<lparr>SUPPORTED_METHODS = [''GET''], handler_attrs = [(''get'', tab_method)]\<rparr>"

definition nested_route :: urlspec where
  "nested_route = \<lparr>regex_pattern = ''/x/((a)|b)$'', regex_groups = 2, target = item_handler\<rparr>"

definition docs_handler :: handler where
  "docs_handler =
     \<lparr>SUPPORTED_METHODS = [''GET'', ''POST'', ''PUT''],
      handler_attrs =
        [(''get'', \<lparr>method_doc = Some ''List items\<newline>---\<newline>- a'',
                    method_parameters = [sample_self], method_swagger_info = None\<rparr>),
         (''post'', \<lparr>method_doc = None,
                     method_parameters = [sample_self], method_swagger_info = None\<rparr>),
         (''put'', \<lparr>method_doc = Some ''Replace an item'',
                    method_parameters = [sample_self], method_swagger_info = None\<rparr>)]\<rparr>"

definition sample_options :: doc_options where
  "sample_options =
     \<lparr>api_base_url = ''/'', description = ''\<newline>\<newline>An API\<newline>for items\<newline>'',
      api_version = ''1.0.0'', title = ''Items'', contact = ''dev@example.org'',
      schemes = PList [PStr ''https''], security_definitions = PNone, security = PNone\<rparr>"

definition one_line_options :: doc_options where
  "one_line_options = sample_options\<lparr>description := ''a\<newline>''\<rparr>"

definition item_model :: pydantic_model where
  "item_model =
     \<lparr>model_name = ''Item'',
      model_schema = [(KStr ''title'', PStr ''Item''), (KStr ''type'', PStr ''object'')]\<rparr>"

definition other_item_model :: pydantic_model where
  "other_item_model =
     \<lparr>model_name = ''Item'',
      model_schema =
        [(KStr ''title'', PStr ''Another item''),
         (KStr ''definitions'',
          PDict [(KStr ''Item'', PDict [(KStr ''title'', PStr ''Nested item'')]),
                 (KStr ''Part'', PDict [(KStr ''title'', PStr ''Part'')])])]\<rparr>"

definition model_method :: "pydantic_model \<Rightarrow> handler_method" where
  "model_method m =
     \<lparr>method_doc = None,
      method_parameters = [sample_self],
      method_swagger_info =
        Some \<lparr>responses = [(200, \<lparr>entry_model = Some m, entry_description = None\<rparr>)],
              request = None, query = None, tags = None\<rparr>\<rparr>"

definition model_handler :: "pydantic_model \<Rightarrow> handler" where
  "model_handler m = \<lparr>SUPPORTED_METHODS = [''GET''], handler_attrs = [(''get'', model_method m)]\<rparr>"

definition collision_routes_first :: "route list" where
  "collision_routes_first = [RouteTuple ''/items'' (model_handler item_model)]"

definition collision_routes_rest :: "route list" where
  "collision_routes_rest = [RouteTuple ''/others'' (model_handler other_item_model)]"

definition collision_document :: pyval where
  "collision_document =
     fst (projr (generate_doc PydanticBuilder sample_env
                   (collision_routes_first @ collision_routes_rest) sample_options
                   (PDict []) (PDict [])))"

definition described_responses :: "(int \<times> response_entry) list" where
  "described_responses =
     [(200, \<lparr>entry_model = Some item_model, entry_description = None\<rparr>),
      (404, \<lparr>entry_model = Some item_model, entry_description = Some (PStr [])\<rparr>),
      (500, \<lparr>entry_model = Some item_model, entry_description = Some PNone\<rparr>),
      (201, \<lparr>entry_model = Some item_model, entry_description = Some (PStr ''Created'')\<rparr>)]"

definition documented_handler :: handler where
  "documented_handler =
     \<lparr>SUPPORTED_METHODS = [''GET'', ''POST''],
      handler_attrs = [(''get'', item_method), (''post'', model_method item_model)]\<rparr>"

definition uuid_handler :: handler where
  "uuid_handler =
     \<lparr>SUPPORTED_METHODS = [''GET''],
      handler_attrs =
        [(''get'',
          \<lparr>method_doc = None,
           method_parameters =
             [sample_self,
              \<lparr>param_name = ''item_id'', param_kind = POSITIONAL_OR_KEYWORD,
               param_annotation = TOther ''uuid.UUID''\<rparr>],
           method_swagger_info =
             Some \<lparr>responses = [(200, \<lparr>entry_model = Some item_model, entry_description = None\<rparr>)],
                   request = None, query = None, tags = None\<rparr>\<rparr>)]\<rparr>"

definition unannotated_handler :: handler where
  "unannotated_handler =
     \<lparr>SUPPORTED_METHODS = [''GET''],
      handler_attrs =
        [(''get'',
          \<lparr>method_doc = None,
           method_parameters =
             [sample_self,
              \<lparr>param_name = ''item_id'', param_kind = POSITIONAL_OR_KEYWORD,
               param_annotation = TEmpty\<rparr>],
           method_swagger_info =
             Some \<lparr>responses = [(200, \<lparr>entry_model = Some item_model, entry_description = None\<rparr>)],
                   request = None, query = None, tags = None\<rparr>\<rparr>)]\<rparr>"

definition docstring_routes :: "route list" where
  "docstring_routes =
     [URLSpec nested_route,
      URLSpec \<lparr>regex_pattern = ''/docs$'', regex_groups = 0, target = docs_handler\<rparr>,
      URLSpec \<lparr>regex_pattern = ''/items/(?P<item_id>[0-9]+)$'', regex_groups = 1,
               target = item_handler\<rparr>]"

definition model_routes :: "route list" where
  "model_routes =
     [RouteTuple ''/x/((a)|b)'' (model_handler item_model),
      RouteTuple ''/items'' documented_handler]"

section \<open>Verification\<close>

subsection \<open>Reflection Extractor\<close>

lemma lower_char_idem: "lower_char (lower_char c) = lower_char c"
proof -
  have lt: "(of_char c :: nat) < 256" by simp
  show ?thesis
    using lt unfolding lower_char_def Let_def
    by (auto simp: of_char_of [where ?'a = nat])
qed

lemma lower_idem: "lower (lower s) = lower s"
  by (simp add: lower_def lower_char_idem)

lemma length_fill_parameters: "length (fill_parameters ps i args) = length ps"
  by (induction args arbitrary: ps i) auto

lemma nth_fill_parameters:
  "j < length ps \<Longrightarrow>
   fill_parameters ps i args ! j =
     (if i \<le> j \<and> j - i < length args \<and> set (args ! (j - i)) \<noteq> {CHR ''_''}
      then args ! (j - i) else ps ! j)"
proof (induction args arbitrary: ps i)
  case Nil
  then show ?case by simp
next
  case (Cons arg args)
  let ?ps' = "if set arg \<noteq> {CHR ''_''} \<and> i < length ps then ps[i := arg] else ps"
  have len: "j < length ?ps'" using Cons.prems by simp
  show ?case
  proof (cases "j = i")
    case True
    then show ?thesis using Cons.IH [OF len, of "Suc i"] Cons.prems by simp
  next
    case False
    show ?thesis
    proof (cases "i < j")
      case True
      then have "j - i = Suc (j - Suc i)" by simp
      then show ?thesis using Cons.IH [OF len, of "Suc i"] Cons.prems True by auto
    next
      case False
      with \<open>j \<noteq> i\<close> have "j < i" by simp
      then show ?thesis using Cons.IH [OF len, of "Suc i"] Cons.prems by auto
    qed
  qed
qed


lemma only_underscores_iff: "only_underscores arg \<longleftrightarrow> set arg = {CHR ''_''}"
  unfolding only_underscores_def list_all_iff by (cases arg) auto

lemma extract_parameters_names_zero: "extract_parameters_names h 0 meth = Inr []"
  by (simp add: extract_parameters_names_def)

lemma fill_parameters_Nil: "fill_parameters [] i args = []"
  using length_fill_parameters [of "[]" i args] by simp

lemma extract_parameters_names_eq:
  assumes "getattr h (lower meth) = Inr f"
  shows "extract_parameters_names h n meth =
           Inr (fill_parameters (replicate n ''{?}'') 0 (try_extract_args f))"
  using assms by (cases n) (simp_all add: extract_parameters_names_def fill_parameters_Nil)

lemma extract_parameters_names_length:
  "extract_parameters_names h n meth = Inr ps \<Longrightarrow> length ps = n"
  by (auto simp: extract_parameters_names_def length_fill_parameters
           split: if_splits sum.splits)

text \<open>
  Claim C7.  For a handler that has the method, the Reflection Extractor returns a list
  of exactly \<open>n\<close> names.  Position \<open>i\<close> holds entry \<open>i\<close> of the declared arguments
  after the first one is dropped, that is the argument number \<open>i + 1\<close>; where that name
  consists of underscores only, or where the method declares no such argument, the
  position holds the placeholder \<^verbatim>\<open>{?}\<close>.  For \<open>n = 0\<close> the list is empty, and two
  methods that declare the same arguments give the same list.
\<close>

theorem extract_parameters_names_positions:
  assumes "getattr h (lower meth) = Inr f"
  shows "extract_parameters_names h 0 meth = Inr [] \<and>
         (\<exists>ps. extract_parameters_names h n meth = Inr ps \<and> length ps = n \<and>
            (\<forall>i<n. ps ! i =
               (if i < length (try_extract_args f) \<and> \<not> only_underscores (try_extract_args f ! i)
                then try_extract_args f ! i else ''{?}''))) \<and>
         (\<forall>h' meth' f'.
            getattr h' (lower meth') = Inr f' \<and> try_extract_args f' = try_extract_args f \<longrightarrow>
            extract_parameters_names h' n meth' = extract_parameters_names h n meth)"
proof (intro conjI)
  show "extract_parameters_names h 0 meth = Inr []"
    by (rule extract_parameters_names_zero)
next
  let ?ps = "fill_parameters (replicate n ''{?}'') 0 (try_extract_args f)"
  have eq: "extract_parameters_names h n meth = Inr ?ps"
    by (rule extract_parameters_names_eq [OF assms])
  have len: "length ?ps = n"
    by (simp add: length_fill_parameters)
  have nth: "?ps ! i =
      (if i < length (try_extract_args f) \<and> \<not> only_underscores (try_extract_args f ! i)
       then try_extract_args f ! i else ''{?}'')" if "i < n" for i
    using that by (simp add: nth_fill_parameters only_underscores_iff)
  show "\<exists>ps. extract_parameters_names h n meth = Inr ps \<and> length ps = n \<and>
            (\<forall>i<n. ps ! i =
               (if i < length (try_extract_args f) \<and> \<not> only_underscores (try_extract_args f ! i)
                then try_extract_args f ! i else ''{?}''))"
    using eq len nth by blast
next
  show "\<forall>h' meth' f'.
            getattr h' (lower meth') = Inr f' \<and> try_extract_args f' = try_extract_args f \<longrightarrow>
            extract_parameters_names h' n meth' = extract_parameters_names h n meth"
    by (simp add: extract_parameters_names_eq [OF assms] extract_parameters_names_eq)
qed

theorem extract_parameters_names_positions_witness:
  "getattr sample_handler (lower ''GET'') = Inr sample_method \<and>
   extract_parameters_names sample_handler 4 ''GET'' = Inr [''a'', ''{?}'', ''b'', ''{?}''] \<and>
   (\<exists>ps. extract_parameters_names sample_handler 4 ''GET'' = Inr ps \<and> length ps = 4 \<and>
      (\<forall>i<4. ps ! i =
         (if i < length (try_extract_args sample_method)
             \<and> \<not> only_underscores (try_extract_args sample_method ! i)
          then try_extract_args sample_method ! i else ''{?}'')))"
proof -
  have h: "getattr sample_handler (lower ''GET'') = Inr sample_method"
    by code_simp
  have v: "extract_parameters_names sample_handler 4 ''GET'' = Inr [''a'', ''{?}'', ''b'', ''{?}'']"
    by code_simp
  show ?thesis
    using h v extract_parameters_names_positions [OF h, of 4] by blast
qed


subsection \<open>Path Formatter and routes that do not fit\<close>

lemma map_of_dict_set: "map_of (dict_set d k v) = (map_of d)(k \<mapsto> v)"
  by (induction d) auto

lemma dict_set_keys: "fst ` set (dict_set d k v) = insert k (fst ` set d)"
proof -
  have "dom (map_of (dict_set d k v)) = insert k (dom (map_of d))"
    by (simp add: map_of_dict_set)
  then show ?thesis by (simp only: dom_map_of_conv_image_fst)
qed

lemma format_handler_path_mismatch:
  assumes "extract_parameters_names (target r) (regex_groups r) meth = Inr ps"
      and "length (findall_brackets (regex_pattern r)) \<noteq> length ps"
  shows "format_handler_path r meth = Inr (None, [illegal_route r])"
  using assms by (simp add: format_handler_path_def Let_def)

lemma func_doc_loop_step:
  assumes "func_doc_loop env h (meth # ms) out = Inr docs"
  shows "\<exists>f out'. getattr h (lower meth) = Inr f \<and> func_doc_loop env h ms out' = Inr docs \<and>
           (out' = out \<or> (\<exists>d. out' = dict_set out (lower meth) d))"
  using assms by (auto split: sum.splits option.splits if_splits)

lemma func_doc_loop_keys:
  assumes "func_doc_loop env h ms out = Inr docs"
      and "\<forall>k\<in>fst ` set out. \<exists>f. getattr h (lower k) = Inr f"
  shows "\<forall>k\<in>fst ` set docs. \<exists>f. getattr h (lower k) = Inr f"
  using assms
proof (induction ms arbitrary: out)
  case Nil
  then show ?case by simp
next
  case (Cons meth ms)
  from func_doc_loop_step [OF Cons.prems(1)]
  obtain f out' where f: "getattr h (lower meth) = Inr f"
    and step: "func_doc_loop env h ms out' = Inr docs"
    and out': "out' = out \<or> (\<exists>d. out' = dict_set out (lower meth) d)"
    by blast
  have keys: "fst ` set out' \<subseteq> insert (lower meth) (fst ` set out)"
  proof (cases "out' = out")
    case True
    then show ?thesis by blast
  next
    case False
    with out' obtain d where "out' = dict_set out (lower meth) d" by blast
    then show ?thesis by (simp only: dict_set_keys subset_refl)
  qed
  have "\<forall>k\<in>fst ` set out'. \<exists>f. getattr h (lower k) = Inr f"
  proof
    fix k assume "k \<in> fst ` set out'"
    with keys have "k = lower meth \<or> k \<in> fst ` set out" by blast
    then show "\<exists>f. getattr h (lower k) = Inr f"
      using Cons.prems(2) f by (auto simp only: lower_idem)
  qed
  with Cons.IH [OF step] show ?case by blast
qed

lemma build_doc_from_func_doc_keys:
  assumes "build_doc_from_func_doc env h = Inr docs" and "k \<in> fst ` set docs"
  shows "\<exists>f. getattr h (lower k) = Inr f"
proof -
  have "func_doc_loop env h (SUPPORTED_METHODS h) [] = Inr docs"
    using assms(1) by (simp add: build_doc_from_func_doc_def)
  moreover have "\<forall>k\<in>fst ` set ([] :: (string \<times> pyval) list). \<exists>f. getattr h (lower k) = Inr f"
    by simp
  ultimately have "\<forall>k\<in>fst ` set docs. \<exists>f. getattr h (lower k) = Inr f"
    by (rule func_doc_loop_keys)
  with assms(2) show ?thesis by blast
qed

lemma extract_parameters_names_total:
  assumes "getattr h (lower meth) = Inr f"
  shows "\<exists>ps. extract_parameters_names h n meth = Inr ps"
  by (simp add: extract_parameters_names_eq [OF assms])

lemma add_operations_mismatch:
  assumes "length (findall_brackets (regex_pattern r)) \<noteq> regex_groups r"
      and "\<forall>k\<in>fst ` set docs. \<exists>ps. extract_parameters_names (target r) (regex_groups r) k = Inr ps"
  shows "add_operations r docs (paths, ws) =
           Inr (paths, ws @ replicate (length docs) (illegal_route r))"
  using assms(2)
proof (induction docs arbitrary: ws)
  case Nil
  then show ?case by simp
next
  case (Cons kd docs)
  obtain k d where kd: "kd = (k, d)" by (cases kd)
  from Cons.prems kd
  obtain ps where ps: "extract_parameters_names (target r) (regex_groups r) k = Inr ps"
    by auto
  have "length ps = regex_groups r"
    by (rule extract_parameters_names_length [OF ps])
  with assms(1) have "length (findall_brackets (regex_pattern r)) \<noteq> length ps"
    by simp
  then have fmt: "format_handler_path r k = Inr (None, [illegal_route r])"
    by (rule format_handler_path_mismatch [OF ps])
  have "add_operations r docs (paths, ws @ [illegal_route r]) =
          Inr (paths, (ws @ [illegal_route r]) @ replicate (length docs) (illegal_route r))"
    using Cons.prems by (intro Cons.IH) simp
  then show ?case
    using fmt kd by (simp add: replicate_app_Cons_same)
qed

lemma add_operations_warnings:
  "add_operations r items (paths, ws) =
     map_sum id (\<lambda>st. (fst st, ws @ snd st)) (add_operations r items (paths, []))"
proof (induction items arbitrary: paths ws)
  case Nil
  then show ?case by simp
next
  case (Cons kd items)
  obtain k d where kd: "kd = (k, d)" by (cases kd)
  show ?case
  proof (cases "format_handler_path r k")
    case (Inl e)
    then show ?thesis using kd by simp
  next
    case (Inr res)
    obtain p w where res: "res = (p, w)" by (cases res)
    let ?paths = "case p of None \<Rightarrow> paths | Some q \<Rightarrow> paths_update paths q k d"
    have l: "add_operations r (kd # items) (paths, ws) = add_operations r items (?paths, ws @ w)"
      using Inr res kd by (simp split: option.splits)
    have r: "add_operations r (kd # items) (paths, []) = add_operations r items (?paths, w)"
      using Inr res kd by (simp split: option.splits)
    show ?thesis
      unfolding l r
      by (subst Cons.IH [of ?paths "ws @ w"], subst Cons.IH [of ?paths w])
         (cases "add_operations r items (?paths, [])", simp_all)
  qed
qed

lemma extract_paths_loop_warnings:
  "extract_paths_loop env routes (paths, ws) =
     map_sum id (\<lambda>st. (fst st, ws @ snd st)) (extract_paths_loop env routes (paths, []))"
proof (induction routes arbitrary: paths ws)
  case Nil
  then show ?case by simp
next
  case (Cons rt routes)
  show ?case
  proof (cases rt)
    case (RouteTuple pattern h)
    then show ?thesis by simp
  next
    case (URLSpec r)
    show ?thesis
    proof (cases "build_doc_from_func_doc env (target r)")
      case (Inl e)
      then show ?thesis using URLSpec by simp
    next
      case (Inr docs)
      show ?thesis
      proof (cases "add_operations r docs (paths, [])")
        case (Inl e)
        then show ?thesis
          using URLSpec Inr add_operations_warnings [of r docs paths ws] by simp
      next
        case st: (Inr st)
        obtain p w where pw: "st = (p, w)" by (cases st)
        have a: "add_operations r docs (paths, ws) = Inr (p, ws @ w)"
          using add_operations_warnings [of r docs paths ws] st pw by simp
        show ?thesis
          using URLSpec Inr st pw a
          by (simp, subst Cons.IH [of p "ws @ w"], subst Cons.IH [of p w])
             (cases "extract_paths_loop env routes (p, [])", simp_all)
      qed
    qed
  qed
qed

lemma extract_paths_loop_append:
  "extract_paths_loop env (rs1 @ rs2) st =
     (case extract_paths_loop env rs1 st of
        Inl e \<Rightarrow> Inl e
      | Inr st' \<Rightarrow> extract_paths_loop env rs2 st')"
  by (induction rs1 arbitrary: st) (auto split: route.splits sum.splits)

lemma extract_paths_loop_mismatch:
  assumes "length (findall_brackets (regex_pattern r)) \<noteq> regex_groups r"
      and "build_doc_from_func_doc env (target r) = Inr docs"
  shows "extract_paths_loop env (URLSpec r # routes) (paths, ws) =
           extract_paths_loop env routes (paths, ws @ replicate (length docs) (illegal_route r))"
proof -
  have "\<forall>k\<in>fst ` set docs. \<exists>ps. extract_parameters_names (target r) (regex_groups r) k = Inr ps"
    using build_doc_from_func_doc_keys [OF assms(2)] extract_parameters_names_total by blast
  then show ?thesis
    using add_operations_mismatch [OF assms(1), of docs paths ws] assms(2) by simp
qed

lemma extract_paths_mismatch:
  assumes "length (findall_brackets (regex_pattern r)) \<noteq> regex_groups r"
      and "build_doc_from_func_doc env (target r) = Inr docs"
  shows "map_sum id fst (extract_paths env (rs1 @ URLSpec r # rs2)) =
           map_sum id fst (extract_paths env (rs1 @ rs2))"
proof (cases "extract_paths_loop env rs1 ([], [])")
  case (Inl e)
  then show ?thesis by (simp add: extract_paths_def extract_paths_loop_append)
next
  case (Inr st)
  obtain p w where pw: "st = (p, w)" by (cases st)
  let ?w = "w @ replicate (length docs) (illegal_route r)"
  have l: "extract_paths env (rs1 @ URLSpec r # rs2) = extract_paths_loop env rs2 (p, ?w)"
    using Inr pw extract_paths_loop_mismatch [OF assms, of rs2 p w]
    by (simp add: extract_paths_def extract_paths_loop_append)
  have r: "extract_paths env (rs1 @ rs2) = extract_paths_loop env rs2 (p, w)"
    using Inr pw by (simp add: extract_paths_def extract_paths_loop_append)
  show ?thesis
    unfolding l r
    by (subst extract_paths_loop_warnings [of env rs2 p ?w],
        subst extract_paths_loop_warnings [of env rs2 p w])
       (cases "extract_paths_loop env rs2 (p, [])", simp_all)
qed

text \<open>
  Claim C1.  Let the number of bracket segments found in the pattern of a route differ
  from the number of parameter names recovered for a method.  The recovered list is as
  long as the pattern has capturing groups; the Path Formatter warns once and returns no
  path; the loop over the operations of the route adds nothing to the paths for this
  method and goes on with the next one; and \<^verbatim>\<open>_extract_paths\<close> goes on with the
  remaining routes with the paths it had, so that the paths of a route list are those of
  the list without this route.
\<close>

theorem illegal_route_is_skipped:
  assumes "extract_parameters_names (target r) (regex_groups r) meth = Inr ps"
      and "length (findall_brackets (regex_pattern r)) \<noteq> length ps"
  shows "length ps = regex_groups r \<and>
         format_handler_path r meth = Inr (None, [illegal_route r]) \<and>
         (\<forall>d items paths ws.
            add_operations r ((meth, d) # items) (paths, ws) =
              add_operations r items (paths, ws @ [illegal_route r])) \<and>
         (\<forall>env docs routes paths ws.
            build_doc_from_func_doc env (target r) = Inr docs \<longrightarrow>
            extract_paths_loop env (URLSpec r # routes) (paths, ws) =
              extract_paths_loop env routes
                (paths, ws @ replicate (length docs) (illegal_route r))) \<and>
         (\<forall>env docs rs1 rs2.
            build_doc_from_func_doc env (target r) = Inr docs \<longrightarrow>
            map_sum id fst (extract_paths env (rs1 @ URLSpec r # rs2)) =
              map_sum id fst (extract_paths env (rs1 @ rs2)))"
proof -
  have len: "length ps = regex_groups r"
    by (rule extract_parameters_names_length [OF assms(1)])
  have mis: "length (findall_brackets (regex_pattern r)) \<noteq> regex_groups r"
    using assms(2) len by simp
  have fmt: "format_handler_path r meth = Inr (None, [illegal_route r])"
    by (rule format_handler_path_mismatch [OF assms])
  show ?thesis
    using len fmt extract_paths_loop_mismatch [OF mis] extract_paths_mismatch [OF mis]
    by simp
qed


theorem illegal_route_is_skipped_witness:
  "extract_parameters_names (target nested_route) (regex_groups nested_route) ''get''
     = Inr [''item_id'', ''{?}''] \<and>
   length (findall_brackets (regex_pattern nested_route)) \<noteq> length [''item_id'', ''{?}''] \<and>
   build_doc_from_func_doc sample_env (target nested_route)
     = Inr [(''get'', PDict [(KStr ''summary'', PStr ''hello'')])] \<and>
   format_handler_path nested_route ''get'' = Inr (None, [illegal_route nested_route]) \<and>
   extract_paths_loop sample_env (URLSpec nested_route # []) ([], []) =
     extract_paths_loop sample_env [] ([], [] @ replicate (length [(''get'', PDict [(KStr ''summary'', PStr ''hello'')])]) (illegal_route nested_route)) \<and>
   map_sum id fst (extract_paths sample_env ([] @ URLSpec nested_route # [])) =
     map_sum id fst (extract_paths sample_env ([] @ []))"
proof -
  have h1: "extract_parameters_names (target nested_route) (regex_groups nested_route) ''get''
              = Inr [''item_id'', ''{?}'']"
    by code_simp
  have h2: "length (findall_brackets (regex_pattern nested_route)) \<noteq> length [''item_id'', ''{?}'']"
    by code_simp
  have h3: "build_doc_from_func_doc sample_env (target nested_route)
              = Inr [(''get'', PDict [(KStr ''summary'', PStr ''hello'')])]"
    by code_simp
  show ?thesis
    using h1 h2 h3 illegal_route_is_skipped [OF h1 h2] by blast
qed

subsection \<open>The path of the items route\<close>

text \<open>
  Claim C8.  The route \<^verbatim>\<open>/items/(?P<item_id>[0-9]+)\<close>, whose compiled pattern has one
  group, a named one, bound to a handler that declares \<^verbatim>\<open>get(self, item_id)\<close>:
  \<^verbatim>\<open>tornado.web.url\<close> returns the route whose pattern ends with the anchor, the
  recovered name is \<^verbatim>\<open>item_id\<close>, the bracket segment is replaced by the braced name, and
  the path of that route is the result without its last character, \<^verbatim>\<open>/items/{item_id}\<close>.
\<close>

theorem items_route_path:
  assumes "re_compile env ''/items/(?P<item_id>[0-9]+)$'' = Inr (1, 1)"
      and "getattr h ''get'' = Inr f"
      and "map (\<lambda>p. (param_name p, param_kind p)) (method_parameters f) =
             [(''self'', POSITIONAL_OR_KEYWORD), (''item_id'', POSITIONAL_OR_KEYWORD)]"
  shows "tornado_web_url env ''/items/(?P<item_id>[0-9]+)'' h
           = Inr \<lparr>regex_pattern = ''/items/(?P<item_id>[0-9]+)$'', regex_groups = 1,
                  target = h\<rparr> \<and>
         extract_parameters_names h 1 ''get'' = Inr [''item_id''] \<and>
         replace_brackets ''/items/(?P<item_id>[0-9]+)$'' [''item_id''] 0
             (findall_brackets ''/items/(?P<item_id>[0-9]+)$'')
           = ''/items/{item_id}$'' \<and>
         format_handler_path
             \<lparr>regex_pattern = ''/items/(?P<item_id>[0-9]+)$'', regex_groups = 1, target = h\<rparr>
             ''get''
           = Inr (Some ''/items/{item_id}'', [])"
proof -
  let ?p = "''/items/(?P<item_id>[0-9]+)$''"
  have anc: "anchored ''/items/(?P<item_id>[0-9]+)'' = ?p"
    by code_simp
  have url: "tornado_web_url env ''/items/(?P<item_id>[0-9]+)'' h =
               Inr \<lparr>regex_pattern = ?p, regex_groups = 1, target = h\<rparr>"
    unfolding tornado_web_url_def anc using assms(1) by simp
  obtain p1 p2 where ps: "method_parameters f = [p1, p2]"
    using assms(3) by (cases "method_parameters f") auto
  have args: "try_extract_args f = [''item_id'']"
    using assms(3) ps by (simp add: try_extract_args_def)
  have low: "lower ''get'' = ''get''"
    by code_simp
  have fill: "fill_parameters (replicate 1 ''{?}'') 0 [''item_id''] = [''item_id'']"
    by code_simp
  have "getattr h (lower ''get'') = Inr f"
    using assms(2) low by simp
  from extract_parameters_names_eq [OF this, of 1]
  have names: "extract_parameters_names h 1 ''get'' = Inr [''item_id'']"
    by (simp only: args fill)
  have brackets: "findall_brackets ?p = [''(?P<item_id>[0-9]+)'']"
    by code_simp
  have repl: "replace_brackets ?p [''item_id''] 0 [''(?P<item_id>[0-9]+)''] = ''/items/{item_id}$''"
    by code_simp
  have fmt: "format_handler_path \<lparr>regex_pattern = ?p, regex_groups = 1, target = h\<rparr> ''get''
               = Inr (Some ''/items/{item_id}'', [])"
  proof -
    have names': "extract_parameters_names h (Suc 0) ''get'' = Inr [''item_id'']"
      using names by simp
    show ?thesis
      unfolding format_handler_path_def
      by (simp add: names' brackets repl Let_def
               del: findall_brackets.simps replace_brackets.simps)
  qed
  show ?thesis
    using url names brackets repl fmt by simp
qed

theorem items_route_path_witness:
  "re_compile sample_env ''/items/(?P<item_id>[0-9]+)$'' = Inr (1, 1) \<and>
   getattr item_handler ''get'' = Inr item_method \<and>
   map (\<lambda>p. (param_name p, param_kind p)) (method_parameters item_method) =
     [(''self'', POSITIONAL_OR_KEYWORD), (''item_id'', POSITIONAL_OR_KEYWORD)] \<and>
   tornado_web_url sample_env ''/items/(?P<item_id>[0-9]+)'' item_handler
     = Inr \<lparr>regex_pattern = ''/items/(?P<item_id>[0-9]+)$'', regex_groups = 1,
            target = item_handler\<rparr> \<and>
   format_handler_path
       \<lparr>regex_pattern = ''/items/(?P<item_id>[0-9]+)$'', regex_groups = 1,
        target = item_handler\<rparr> ''get''
     = Inr (Some ''/items/{item_id}'', [])"
proof -
  have h1: "re_compile sample_env ''/items/(?P<item_id>[0-9]+)$'' = Inr (1, 1)"
    by code_simp
  have h2: "getattr item_handler ''get'' = Inr item_method"
    by code_simp
  have h3: "map (\<lambda>p. (param_name p, param_kind p)) (method_parameters item_method) =
              [(''self'', POSITIONAL_OR_KEYWORD), (''item_id'', POSITIONAL_OR_KEYWORD)]"
    by code_simp
  show ?thesis
    using h1 h2 h3 items_route_path [OF h1 h2 h3] by blast
qed

subsection \<open>Docstring Schema Extractor\<close>

lemma func_doc_loop_map_of:
  assumes "func_doc_loop env h ms out = Inr docs"
  shows "map_of docs k =
           (if k \<in> lower ` set ms
            then (case getattr h k of
                    Inl e \<Rightarrow> None
                  | Inr f \<Rightarrow> (case emitted_from_doc env f of
                               None \<Rightarrow> map_of out k
                             | Some d \<Rightarrow> Some d))
            else map_of out k)"
  using assms
proof (induction ms arbitrary: out)
  case Nil
  then show ?case by simp
next
  case (Cons meth ms)
  from Cons.prems obtain f where f: "getattr h (lower meth) = Inr f"
    by (auto split: sum.splits)
  obtain out' where step: "func_doc_loop env h ms out' = Inr docs"
    and out: "map_of out' k =
                (if k = lower meth
                 then (case emitted_from_doc env f of None \<Rightarrow> map_of out k | Some d \<Rightarrow> Some d)
                 else map_of out k)"
  proof (cases "emitted_from_doc env f")
    case None
    then have "func_doc_loop env h ms out = Inr docs"
      using Cons.prems f
      by (auto simp: emitted_from_doc_def split: option.splits if_splits sum.splits)
    with None that [of out] show ?thesis by simp
  next
    case (Some d)
    then have "func_doc_loop env h ms (dict_set out (lower meth) d) = Inr docs"
      using Cons.prems f
      by (auto simp: emitted_from_doc_def split: option.splits if_splits sum.splits)
    with Some that [of "dict_set out (lower meth) d"] show ?thesis
      by (simp add: map_of_dict_set)
  qed
  show ?case
    unfolding Cons.IH [OF step] out
    using f by (auto split: sum.splits option.splits)
qed

lemma build_doc_from_func_doc_map_of:
  assumes "build_doc_from_func_doc env h = Inr docs"
      and "meth \<in> set (SUPPORTED_METHODS h)"
      and "getattr h (lower meth) = Inr f"
  shows "dict_get docs (lower meth) = emitted_from_doc env f"
proof -
  have "func_doc_loop env h (SUPPORTED_METHODS h) [] = Inr docs"
    using assms(1) by (simp add: build_doc_from_func_doc_def)
  from func_doc_loop_map_of [OF this, of "lower meth"] assms(2,3)
  show ?thesis by (simp add: dict_get_def split: option.splits)
qed

lemma build_swagger_docs_cases:
  "build_swagger_docs env doc =
     (case yaml_safe_load env (replace_char TAB ''    '' (extract_swagger_definition doc)) of
        YAMLValue v \<Rightarrow> Inr (if is_mapping v then v else invalid_swagger)
      | YAMLError \<Rightarrow> Inr invalid_swagger
      | YAMLRaises e \<Rightarrow> Inl e)"
  by (auto simp: build_swagger_docs_def split: yaml_result.splits pyval.splits)

lemma func_doc_loop_raises:
  assumes "meth \<in> set ms"
      and "getattr h (lower meth) = Inr f"
      and "method_doc f = Some doc"
      and "str_contains doc ''---''"
      and "build_swagger_docs env doc = Inl e"
  shows "\<exists>e'. func_doc_loop env h ms out = Inl e'"
  using assms(1)
proof (induction ms arbitrary: out)
  case Nil
  then show ?case by simp
next
  case (Cons m ms)
  show ?case
  proof (cases "m = meth")
    case True
    then show ?thesis
      using assms(2-5) by simp
  next
    case False
    with Cons.prems have "meth \<in> set ms" by simp
    from Cons.IH [OF this] show ?thesis
      by (auto split: sum.splits option.splits)
  qed
qed

lemma startswith_contains: "startswith s sub \<Longrightarrow> str_contains s sub"
  by (cases s) (auto elim: startswith.elims)

lemma str_contains_Cons: "str_contains s sub \<Longrightarrow> str_contains (c # s) sub"
  by simp

lemma splitlines_first_line:
  assumes "startswith s sub" and "sub \<noteq> []" and "\<forall>c\<in>set sub. \<not> is_linebreak c"
  shows "\<exists>l ls. splitlines s = l # ls \<and> startswith l sub"
  using assms
proof (induction s arbitrary: sub rule: splitlines.induct)
  case 1
  then show ?case by (cases sub) auto
next
  case (2 c)
  then show ?case by (cases sub) (auto elim: startswith.elims)
next
  case (3 c d cs)
  from "3.prems" obtain ps where sub: "sub = c # ps" and ps: "startswith (d # cs) ps"
    by (cases sub) auto
  have nb: "\<not> is_linebreak c" using "3.prems"(3) sub by simp
  then have ncr: "c \<noteq> CR" by (auto simp: is_linebreak_def CR_def)
  show ?case
  proof (cases ps)
    case Nil
    then show ?thesis using sub nb ncr by (auto split: list.splits)
  next
    case (Cons p ps')
    have "\<exists>l ls. splitlines (d # cs) = l # ls \<and> startswith l ps"
      using "3.IH"(3) [of ps] ncr nb ps "3.prems"(3) sub Cons by auto
    then show ?thesis using sub nb ncr by (auto split: list.splits)
  qed
qed

lemma splitlines_contains:
  assumes "str_contains s sub" and "sub \<noteq> []" and "\<forall>c\<in>set sub. \<not> is_linebreak c"
  shows "\<exists>l\<in>set (splitlines s). str_contains l sub"
  using assms
proof (induction s rule: splitlines.induct)
  case 1
  then show ?case by simp
next
  case (2 c)
  then show ?case
    using splitlines_first_line [of "[c]" sub] by (auto dest: startswith_contains)
next
  case (3 c d cs)
  show ?case
  proof (cases "startswith (c # d # cs) sub")
    case True
    from splitlines_first_line [OF True "3.prems"(2,3)]
    show ?thesis by (auto dest: startswith_contains simp del: splitlines.simps)
  next
    case False
    with "3.prems"(1) have tail: "str_contains (d # cs) sub" by simp
    show ?thesis
    proof (cases "c = CR \<and> d = NL")
      case True
      have "\<not> startswith (d # cs) sub"
        using True "3.prems"(2,3) by (cases sub) (auto simp: is_linebreak_def NL_def)
      with tail have "str_contains cs sub" by simp
      with "3.IH"(1) True "3.prems"(2,3) show ?thesis by auto
    next
      case nocrlf: False
      show ?thesis
      proof (cases "is_linebreak c")
        case True
        with "3.IH"(2) nocrlf tail "3.prems"(2,3) show ?thesis by auto
      next
        case False
        with "3.IH"(3) nocrlf tail "3.prems"(2,3)
        obtain l where l: "l \<in> set (splitlines (d # cs))" "str_contains l sub" by auto
        then show ?thesis
          using nocrlf False by (cases "splitlines (d # cs)") auto
      qed
    qed
  qed
qed

lemma after_separator_Some:
  assumes "\<exists>l\<in>set ls. str_contains l SWAGGER_DOC_SEPARATOR"
  shows "\<exists>pre l post. ls = pre @ l # post \<and> (\<forall>x\<in>set pre. \<not> str_contains x SWAGGER_DOC_SEPARATOR)
           \<and> str_contains l SWAGGER_DOC_SEPARATOR \<and> after_separator ls = Some post"
  using assms
proof (induction ls)
  case Nil
  then show ?case by simp
next
  case (Cons a ls)
  show ?case
  proof (cases "str_contains a SWAGGER_DOC_SEPARATOR")
    case True
    then have "a # ls = [] @ a # ls \<and> (\<forall>x\<in>set []. \<not> str_contains x SWAGGER_DOC_SEPARATOR)
        \<and> str_contains a SWAGGER_DOC_SEPARATOR \<and> after_separator (a # ls) = Some ls"
      by simp
    then show ?thesis by blast
  next
    case False
    with Cons obtain pre l post where
      "ls = pre @ l # post" "\<forall>x\<in>set pre. \<not> str_contains x SWAGGER_DOC_SEPARATOR"
      "str_contains l SWAGGER_DOC_SEPARATOR" "after_separator ls = Some post"
      by auto
    with False have "a # ls = (a # pre) @ l # post
        \<and> (\<forall>x\<in>set (a # pre). \<not> str_contains x SWAGGER_DOC_SEPARATOR)
        \<and> str_contains l SWAGGER_DOC_SEPARATOR \<and> after_separator (a # ls) = Some post"
      by simp
    then show ?thesis by blast
  qed
qed

lemma extract_swagger_definition_after:
  assumes "str_contains doc ''---''"
  shows "\<exists>pre l post. splitlines doc = pre @ l # post
           \<and> (\<forall>x\<in>set pre. \<not> str_contains x ''---'') \<and> str_contains l ''---''
           \<and> extract_swagger_definition doc = join [NL] post"
proof -
  have "\<forall>c\<in>set ''---''. \<not> is_linebreak c"
    by (simp add: is_linebreak_def)
  with splitlines_contains [OF assms]
  have "\<exists>l\<in>set (splitlines doc). str_contains l SWAGGER_DOC_SEPARATOR"
    by (simp add: SWAGGER_DOC_SEPARATOR_def)
  from after_separator_Some [OF this]
  obtain pre l post where
    "splitlines doc = pre @ l # post" "\<forall>x\<in>set pre. \<not> str_contains x ''---''"
    "str_contains l ''---''" "after_separator (splitlines doc) = Some post"
    by (auto simp: SWAGGER_DOC_SEPARATOR_def)
  moreover from this have "extract_swagger_definition doc = join [NL] post"
    by (simp add: extract_swagger_definition_def Let_def)
  ultimately show ?thesis by blast
qed

text \<open>
  Claim C2.  Let \<^verbatim>\<open>_build_doc_from_func_doc\<close> process a method of a handler.  Without
  a docstring, or with a docstring that has no \<^verbatim>\<open>---\<close>, a result has no operation for
  the method.  With a separator, the lines of the docstring split into the lines before
  the first one that contains the separator, that line, and the lines after it.  These
  last lines, joined by line feeds and with every tab character replaced by four spaces,
  are given to the loader.  When the loader returns a mapping, the operation of the
  method is that mapping; when it returns another object or raises
  \<^verbatim>\<open>yaml.YAMLError\<close>, the operation is the fixed fallback fragment; when it raises
  another exception, the handler has no result: the call ends in an exception.
\<close>

theorem docstring_operation:
  assumes "meth \<in> set (SUPPORTED_METHODS h)"
      and "getattr h (lower meth) = Inr f"
  shows "(method_doc f = None \<longrightarrow>
            (\<forall>docs. build_doc_from_func_doc env h = Inr docs \<longrightarrow>
               dict_get docs (lower meth) = None)) \<and>
         (\<forall>doc. method_doc f = Some doc \<and> \<not> str_contains doc ''---'' \<longrightarrow>
            (\<forall>docs. build_doc_from_func_doc env h = Inr docs \<longrightarrow>
               dict_get docs (lower meth) = None)) \<and>
         (\<forall>doc. method_doc f = Some doc \<and> str_contains doc ''---'' \<longrightarrow>
            (\<exists>pre l post.
               splitlines doc = pre @ l # post \<and>
               (\<forall>x\<in>set pre. \<not> str_contains x ''---'') \<and> str_contains l ''---'' \<and>
               (case yaml_safe_load env
                       (concat (map (\<lambda>c. if c = CHR 0x09 then ''    '' else [c])
                                  (join [CHR 0x0A] post))) of
                  YAMLValue v \<Rightarrow>
                    (\<forall>docs. build_doc_from_func_doc env h = Inr docs \<longrightarrow>
                       dict_get docs (lower meth) =
                         Some (if is_mapping v then v
                               else PDict [(KStr ''description'',
                                            PStr ''Swagger document could not be loaded from docstring''),
                                           (KStr ''tags'', PList [PStr ''Invalid Swagger''])]))
                | YAMLError \<Rightarrow>
                    (\<forall>docs. build_doc_from_func_doc env h = Inr docs \<longrightarrow>
                       dict_get docs (lower meth) =
                         Some (PDict [(KStr ''description'',
                                       PStr ''Swagger document could not be loaded from docstring''),
                                      (KStr ''tags'', PList [PStr ''Invalid Swagger''])]))
                | YAMLRaises e \<Rightarrow>
                    (\<exists>e'. build_doc_from_func_doc env h = Inl e'))))"
proof -
  have docs: "dict_get docs (lower meth) = emitted_from_doc env f"
    if "build_doc_from_func_doc env h = Inr docs" for docs
    by (rule build_doc_from_func_doc_map_of [OF that assms])
  have none: "method_doc f = None \<longrightarrow>
                (\<forall>docs. build_doc_from_func_doc env h = Inr docs \<longrightarrow>
                   dict_get docs (lower meth) = None)"
    by (simp add: docs emitted_from_doc_def)
  have nosep: "\<forall>doc. method_doc f = Some doc \<and> \<not> str_contains doc ''---'' \<longrightarrow>
                 (\<forall>docs. build_doc_from_func_doc env h = Inr docs \<longrightarrow>
                    dict_get docs (lower meth) = None)"
    by (simp add: docs emitted_from_doc_def)
  have sep: "\<exists>pre l post.
               splitlines doc = pre @ l # post \<and>
               (\<forall>x\<in>set pre. \<not> str_contains x ''---'') \<and> str_contains l ''---'' \<and>
               (case yaml_safe_load env
                       (concat (map (\<lambda>c. if c = CHR 0x09 then ''    '' else [c])
                                  (join [CHR 0x0A] post))) of
                  YAMLValue v \<Rightarrow>
                    (\<forall>docs. build_doc_from_func_doc env h = Inr docs \<longrightarrow>
                       dict_get docs (lower meth) =
                         Some (if is_mapping v then v
                               else PDict [(KStr ''description'',
                                            PStr ''Swagger document could not be loaded from docstring''),
                                           (KStr ''tags'', PList [PStr ''Invalid Swagger''])]))
                | YAMLError \<Rightarrow>
                    (\<forall>docs. build_doc_from_func_doc env h = Inr docs \<longrightarrow>
                       dict_get docs (lower meth) =
                         Some (PDict [(KStr ''description'',
                                       PStr ''Swagger document could not be loaded from docstring''),
                                      (KStr ''tags'', PList [PStr ''Invalid Swagger''])]))
                | YAMLRaises e \<Rightarrow>
                    (\<exists>e'. build_doc_from_func_doc env h = Inl e'))"
    if doc: "method_doc f = Some doc" and con: "str_contains doc ''---''" for doc
  proof -
    from extract_swagger_definition_after [OF con]
    obtain pre l post where split: "splitlines doc = pre @ l # post"
      "\<forall>x\<in>set pre. \<not> str_contains x ''---''" "str_contains l ''---''"
      and ext: "extract_swagger_definition doc = join [NL] post"
      by blast
    let ?text = "concat (map (\<lambda>c. if c = CHR 0x09 then ''    '' else [c])
                           (join [CHR 0x0A] post))"
    have given: "replace_char TAB ''    '' (extract_swagger_definition doc) = ?text"
      by (simp add: ext replace_char_def TAB_def NL_def)
    have build: "build_swagger_docs env doc =
                   (case yaml_safe_load env ?text of
                      YAMLValue v \<Rightarrow> Inr (if is_mapping v then v else invalid_swagger)
                    | YAMLError \<Rightarrow> Inr invalid_swagger
                    | YAMLRaises e \<Rightarrow> Inl e)"
      unfolding build_swagger_docs_cases given ..
    have emitted: "emitted_from_doc env f =
                     (case build_swagger_docs env doc of Inl e \<Rightarrow> None | Inr d \<Rightarrow> Some d)"
      using doc con by (simp add: emitted_from_doc_def)
    have "case yaml_safe_load env ?text of
            YAMLValue v \<Rightarrow>
              (\<forall>docs. build_doc_from_func_doc env h = Inr docs \<longrightarrow>
                 dict_get docs (lower meth) = Some (if is_mapping v then v else invalid_swagger))
          | YAMLError \<Rightarrow>
              (\<forall>docs. build_doc_from_func_doc env h = Inr docs \<longrightarrow>
                 dict_get docs (lower meth) = Some invalid_swagger)
          | YAMLRaises e \<Rightarrow> (\<exists>e'. build_doc_from_func_doc env h = Inl e')"
    proof (cases "yaml_safe_load env ?text")
      case (YAMLValue v)
      then show ?thesis
        by (simp add: docs emitted build)
    next
      case YAMLError
      then show ?thesis
        by (simp add: docs emitted build)
    next
      case (YAMLRaises e)
      then have "build_swagger_docs env doc = Inl e"
        by (simp add: build)
      from func_doc_loop_raises [OF assms doc con this]
      show ?thesis
        by (simp add: YAMLRaises build_doc_from_func_doc_def)
    qed
    then show ?thesis
      using split unfolding invalid_swagger_def by blast
  qed
  show ?thesis
    using none nosep sep by blast
qed

theorem docstring_operation_witness:
  "''GET'' \<in> set (SUPPORTED_METHODS docs_handler) \<and>
   build_doc_from_func_doc sample_env docs_handler
     = Inr [(''get'', PDict [(KStr ''description'',
                              PStr ''Swagger document could not be loaded from docstring''),
                             (KStr ''tags'', PList [PStr ''Invalid Swagger''])])] \<and>
   dict_get [(''get'', invalid_swagger)] (lower ''POST'') = None \<and>
   dict_get [(''get'', invalid_swagger)] (lower ''PUT'') = None \<and>
   (\<exists>pre l post.
      splitlines ''List items\<newline>---\<newline>- a'' = pre @ l # post \<and>
      (\<forall>x\<in>set pre. \<not> str_contains x ''---'') \<and> str_contains l ''---'' \<and>
      yaml_safe_load sample_env
          (concat (map (\<lambda>c. if c = CHR 0x09 then ''    '' else [c]) (join [CHR 0x0A] post)))
        = YAMLValue (PList [PStr ''a'']) \<and>
      dict_get [(''get'', invalid_swagger)] (lower ''GET'') =
        Some (PDict [(KStr ''description'',
                      PStr ''Swagger document could not be loaded from docstring''),
                     (KStr ''tags'', PList [PStr ''Invalid Swagger''])])) \<and>
   method_doc tab_method = Some (''Tagged\<newline>---\<newline>tags:\<newline>'' @ [CHR 0x09] @ ''- items'') \<and>
   yaml_safe_load sample_env (''tags:\<newline>'' @ [CHR 0x09] @ ''- items'') = YAMLError \<and>
   (\<exists>pre l post.
      splitlines (''Tagged\<newline>---\<newline>tags:\<newline>'' @ [CHR 0x09] @ ''- items'') = pre @ l # post \<and>
      (\<forall>x\<in>set pre. \<not> str_contains x ''---'') \<and> str_contains l ''---'' \<and>
      concat (map (\<lambda>c. if c = CHR 0x09 then ''    '' else [c]) (join [CHR 0x0A] post))
        = ''tags:\<newline>    - items'' \<and>
      dict_get [(''get'', PDict [(KStr ''tags'', PList [PStr ''items''])])] (lower ''GET'') =
        Some (PDict [(KStr ''tags'', PList [PStr ''items''])])) \<and>
   build_doc_from_func_doc sample_env tab_handler
     = Inr [(''get'', PDict [(KStr ''tags'', PList [PStr ''items''])])]"
proof -
  let ?list = "''List items\<newline>---\<newline>- a''"
  let ?tab = "''Tagged\<newline>---\<newline>tags:\<newline>'' @ [CHR 0x09] @ ''- items''"
  have b: "build_doc_from_func_doc sample_env docs_handler = Inr [(''get'', invalid_swagger)]"
    by code_simp
  have t: "build_doc_from_func_doc sample_env tab_handler
             = Inr [(''get'', PDict [(KStr ''tags'', PList [PStr ''items''])])]"
    by code_simp
  have g: "getattr docs_handler (lower ''GET'') =
             Inr \<lparr>method_doc = Some ?list,
                  method_parameters = [sample_self], method_swagger_info = None\<rparr>"
    by code_simp
  have p: "getattr docs_handler (lower ''POST'') =
             Inr \<lparr>method_doc = None,
                  method_parameters = [sample_self], method_swagger_info = None\<rparr>"
    by code_simp
  have u: "getattr docs_handler (lower ''PUT'') =
             Inr \<lparr>method_doc = Some ''Replace an item'',
                  method_parameters = [sample_self], method_swagger_info = None\<rparr>"
    by code_simp
  have tg: "getattr tab_handler (lower ''GET'') = Inr tab_method"
    by code_simp
  have tdoc: "method_doc tab_method = Some ?tab"
    by (simp add: tab_method_def TAB_def)
  have nosep: "\<not> str_contains ''Replace an item'' ''---''"
    by code_simp
  have sep: "str_contains ?list ''---''"
    by code_simp
  have tsep: "str_contains ?tab ''---''"
    by code_simp
  have raw: "yaml_safe_load sample_env (''tags:\<newline>'' @ [CHR 0x09] @ ''- items'') = YAMLError"
    by code_simp
  have mg: "''GET'' \<in> set (SUPPORTED_METHODS docs_handler)"
    and mp: "''POST'' \<in> set (SUPPORTED_METHODS docs_handler)"
    and mu: "''PUT'' \<in> set (SUPPORTED_METHODS docs_handler)"
    and mt: "''GET'' \<in> set (SUPPORTED_METHODS tab_handler)"
    by (simp_all add: docs_handler_def tab_handler_def)
  have pdoc: "method_doc \<lparr>method_doc = None, method_parameters = [sample_self],
                          method_swagger_info = None\<rparr> = None"
    by simp
  have udoc: "method_doc \<lparr>method_doc = Some ''Replace an item'',
                          method_parameters = [sample_self],
                          method_swagger_info = None\<rparr> = Some ''Replace an item''"
    by simp
  have post: "dict_get [(''get'', invalid_swagger)] (lower ''POST'') = None"
    by (rule docstring_operation [OF mp p, of sample_env, THEN conjunct1, rule_format,
               OF pdoc b])
  have put: "dict_get [(''get'', invalid_swagger)] (lower ''PUT'') = None"
    by (rule docstring_operation [OF mu u, of sample_env, THEN conjunct2, THEN conjunct1,
               rule_format, OF conjI [OF udoc nosep] b])
  have gdoc: "method_doc \<lparr>method_doc = Some ?list, method_parameters = [sample_self],
                          method_swagger_info = None\<rparr> = Some ?list"
    by simp
  from docstring_operation [OF mg g, of sample_env, THEN conjunct2, THEN conjunct2,
         rule_format, OF conjI [OF gdoc sep]]
  obtain pre l post where get: "splitlines ?list = pre @ l # post"
    "\<forall>x\<in>set pre. \<not> str_contains x ''---''" "str_contains l ''---''"
    and load: "case yaml_safe_load sample_env
                      (concat (map (\<lambda>c. if c = CHR 0x09 then ''    '' else [c])
                                 (join [CHR 0x0A] post))) of
                 YAMLValue v \<Rightarrow>
                   (\<forall>docs. build_doc_from_func_doc sample_env docs_handler = Inr docs \<longrightarrow>
                      dict_get docs (lower ''GET'') =
                        Some (if is_mapping v then v
                              else PDict [(KStr ''description'',
                                           PStr ''Swagger document could not be loaded from docstring''),
                                          (KStr ''tags'', PList [PStr ''Invalid Swagger''])]))
               | YAMLError \<Rightarrow>
                   (\<forall>docs. build_doc_from_func_doc sample_env docs_handler = Inr docs \<longrightarrow>
                      dict_get docs (lower ''GET'') =
                        Some (PDict [(KStr ''description'',
                                      PStr ''Swagger document could not be loaded from docstring''),
                                     (KStr ''tags'', PList [PStr ''Invalid Swagger''])]))
               | YAMLRaises e \<Rightarrow>
                   (\<exists>e'. build_doc_from_func_doc sample_env docs_handler = Inl e')"
    by (elim exE conjE) (rule that, assumption+)
  have lines: "splitlines ?list = [''List items'', ''---'', ''- a'']"
    by code_simp
  have first: "\<not> str_contains ''List items'' ''---''" "str_contains ''---'' ''---''"
    by code_simp+
  have parts: "pre = [''List items''] \<and> l = ''---'' \<and> post = [''- a'']"
  proof (cases pre)
    case Nil
    with get lines first show ?thesis by simp
  next
    case (Cons a pre')
    with get lines have a: "a = ''List items''" and rest: "pre' @ l # post = [''---'', ''- a'']"
      by simp_all
    show ?thesis
    proof (cases pre')
      case Nil
      with rest a Cons show ?thesis by simp
    next
      case (Cons a' pre'')
      with rest have "a' = ''---''" by simp
      with get(2) \<open>pre = a # pre'\<close> Cons first show ?thesis by simp
    qed
  qed
  have given: "concat (map (\<lambda>c. if c = CHR 0x09 then ''    '' else [c]) (join [CHR 0x0A] [''- a'']))
                = ''- a''"
    by code_simp
  have loaded: "yaml_safe_load sample_env ''- a'' = YAMLValue (PList [PStr ''a''])"
    by code_simp
  have got: "dict_get [(''get'', invalid_swagger)] (lower ''GET'') =
               Some (PDict [(KStr ''description'',
                             PStr ''Swagger document could not be loaded from docstring''),
                            (KStr ''tags'', PList [PStr ''Invalid Swagger''])])"
    using load b unfolding parts [THEN conjunct2, THEN conjunct2] given loaded by simp
  have "splitlines ?list = [''List items''] @ ''---'' # [''- a''] \<and>
        (\<forall>x\<in>set [''List items'']. \<not> str_contains x ''---'') \<and> str_contains ''---'' ''---'' \<and>
        yaml_safe_load sample_env
            (concat (map (\<lambda>c. if c = CHR 0x09 then ''    '' else [c])
                       (join [CHR 0x0A] [''- a''])))
          = YAMLValue (PList [PStr ''a'']) \<and>
        dict_get [(''get'', invalid_swagger)] (lower ''GET'') =
          Some (PDict [(KStr ''description'',
                        PStr ''Swagger document could not be loaded from docstring''),
                       (KStr ''tags'', PList [PStr ''Invalid Swagger''])])"
    using lines first got loaded unfolding given by simp
  then have list_case: "\<exists>pre l post.
      splitlines ?list = pre @ l # post \<and>
      (\<forall>x\<in>set pre. \<not> str_contains x ''---'') \<and> str_contains l ''---'' \<and>
      yaml_safe_load sample_env
          (concat (map (\<lambda>c. if c = CHR 0x09 then ''    '' else [c]) (join [CHR 0x0A] post)))
        = YAMLValue (PList [PStr ''a'']) \<and>
      dict_get [(''get'', invalid_swagger)] (lower ''GET'') =
        Some (PDict [(KStr ''description'',
                      PStr ''Swagger document could not be loaded from docstring''),
                     (KStr ''tags'', PList [PStr ''Invalid Swagger''])])"
    by blast
  have tlines: "splitlines ?tab = [''Tagged'', ''---'', ''tags:'', [CHR 0x09] @ ''- items'']"
    by code_simp
  have tfirst: "\<not> str_contains ''Tagged'' ''---''"
    by code_simp
  have ttext: "concat (map (\<lambda>c. if c = CHR 0x09 then ''    '' else [c])
                         (join [CHR 0x0A] [''tags:'', [CHR 0x09] @ ''- items'']))
                 = ''tags:\<newline>    - items''"
    by code_simp
  have tgot: "dict_get [(''get'', PDict [(KStr ''tags'', PList [PStr ''items''])])] (lower ''GET'') =
                Some (PDict [(KStr ''tags'', PList [PStr ''items''])])"
    by code_simp
  have "splitlines ?tab = [''Tagged''] @ ''---'' # [''tags:'', [CHR 0x09] @ ''- items''] \<and>
        (\<forall>x\<in>set [''Tagged'']. \<not> str_contains x ''---'') \<and> str_contains ''---'' ''---'' \<and>
        concat (map (\<lambda>c. if c = CHR 0x09 then ''    '' else [c])
                  (join [CHR 0x0A] [''tags:'', [CHR 0x09] @ ''- items'']))
          = ''tags:\<newline>    - items'' \<and>
        dict_get [(''get'', PDict [(KStr ''tags'', PList [PStr ''items''])])] (lower ''GET'') =
          Some (PDict [(KStr ''tags'', PList [PStr ''items''])])"
    using tlines tfirst first(2) ttext tgot by simp
  then have tab_case: "\<exists>pre l post.
      splitlines ?tab = pre @ l # post \<and>
      (\<forall>x\<in>set pre. \<not> str_contains x ''---'') \<and> str_contains l ''---'' \<and>
      concat (map (\<lambda>c. if c = CHR 0x09 then ''    '' else [c]) (join [CHR 0x0A] post))
        = ''tags:\<newline>    - items'' \<and>
      dict_get [(''get'', PDict [(KStr ''tags'', PList [PStr ''items''])])] (lower ''GET'') =
        Some (PDict [(KStr ''tags'', PList [PStr ''items''])])"
    by blast
  show ?thesis
    using mg b post put list_case tdoc raw tab_case t
    unfolding invalid_swagger_def by (intro conjI) assumption+
qed


text \<open>
  The claim as it is worded fails for a schema block on which the loader raises an
  exception other than \<^verbatim>\<open>yaml.YAMLError\<close>: the block \<^verbatim>\<open>when: 2001-02-30\<close> is resolved as a
  date, whose construction raises \<^verbatim>\<open>ValueError\<close>.  The block does not load as a mapping,
  and the handler gets no operation at all, neither the fallback fragment nor another.
\<close>

theorem docstring_loader_exception_counterexample:
  "''GET'' \<in> set (SUPPORTED_METHODS date_handler) \<and>
   getattr date_handler (lower ''GET'') = Inr date_method \<and>
   method_doc date_method = Some ''Dated\<newline>---\<newline>when: 2001-02-30'' \<and>
   str_contains ''Dated\<newline>---\<newline>when: 2001-02-30'' ''---'' \<and>
   replace_char TAB ''    '' (extract_swagger_definition ''Dated\<newline>---\<newline>when: 2001-02-30'')
     = ''when: 2001-02-30'' \<and>
   yaml_safe_load sample_env ''when: 2001-02-30''
     = YAMLRaises (ValueError ''day is out of range for month'') \<and>
   build_doc_from_func_doc sample_env date_handler
     = Inl (ValueError ''day is out of range for month'')"
proof -
  have "''GET'' \<in> set (SUPPORTED_METHODS date_handler)"
    by (simp add: date_handler_def)
  moreover have "getattr date_handler (lower ''GET'') = Inr date_method"
    by code_simp
  moreover have "method_doc date_method = Some ''Dated\<newline>---\<newline>when: 2001-02-30''"
    by (simp add: date_method_def)
  moreover have "str_contains ''Dated\<newline>---\<newline>when: 2001-02-30'' ''---''"
    by code_simp
  moreover have "replace_char TAB ''    ''
                   (extract_swagger_definition ''Dated\<newline>---\<newline>when: 2001-02-30'')
                 = ''when: 2001-02-30''"
    by code_simp
  moreover have "yaml_safe_load sample_env ''when: 2001-02-30''
                   = YAMLRaises (ValueError ''day is out of range for month'')"
    by code_simp
  moreover have "build_doc_from_func_doc sample_env date_handler
                   = Inl (ValueError ''day is out of range for month'')"
    by code_simp
  ultimately show ?thesis
    by (intro conjI)
qed

subsection \<open>The description of the document\<close>

lemma splitlines_Nil_iff: "splitlines s = [] \<longleftrightarrow> s = []"
  by (induction s rule: splitlines.induct) (auto split: list.splits)

lemma join_Cons_Cons: "join sep ((c # l) # ls) = c # join sep (l # ls)"
  by (cases ls) auto

lemma join_Nil_Cons: "join sep ([] # ls) = (if ls = [] then [] else sep @ join sep ls)"
  by (cases ls) auto

lemma join_splitlines: "join ''    '' (splitlines s) = flatten_lines s"
proof (induction s rule: splitlines.induct)
  case 1
  then show ?case by simp
next
  case (2 c)
  then show ?case by simp
next
  case (3 c d cs)
  show ?case
  proof (cases "c = CR \<and> d = NL")
    case True
    then have sl: "splitlines (c # d # cs) = [] # splitlines cs"
      and fl: "flatten_lines (c # d # cs) = (if cs = [] then [] else ''    '' @ flatten_lines cs)"
      by simp_all
    show ?thesis
      unfolding sl fl join_Nil_Cons using "3.IH"(1) True
      by (simp add: splitlines_Nil_iff)
  next
    case nocrlf: False
    show ?thesis
    proof (cases "is_linebreak c")
      case True
      have sl: "splitlines (c # d # cs) = [] # splitlines (d # cs)"
        and fl: "flatten_lines (c # d # cs) = ''    '' @ flatten_lines (d # cs)"
        using nocrlf True by auto
      have ne: "splitlines (d # cs) \<noteq> []" by (simp add: splitlines_Nil_iff)
      show ?thesis
        unfolding sl fl join_Nil_Cons using "3.IH"(2) nocrlf True ne
        by simp
    next
      case False
      obtain l ls where sp: "splitlines (d # cs) = l # ls"
        using splitlines_Nil_iff [of "d # cs"] by (cases "splitlines (d # cs)") auto
      have sl: "splitlines (c # d # cs) = (c # l) # ls"
        and fl: "flatten_lines (c # d # cs) = c # flatten_lines (d # cs)"
        using nocrlf False sp by auto
      show ?thesis
        unfolding sl fl join_Cons_Cons using "3.IH"(3) nocrlf False sp
        by simp
    qed
  qed
qed

lemma flatten_lines_chars:
  "c \<in> set (flatten_lines s) \<Longrightarrow> c = CHR '' '' \<or> (c \<in> set s \<and> \<not> is_linebreak c)"
  by (induction s rule: flatten_lines.induct) (auto split: if_splits)

lemma flatten_lines_no_linebreak: "c \<in> set (flatten_lines s) \<Longrightarrow> \<not> is_linebreak c"
  using flatten_lines_chars [of c s] by (auto simp: is_linebreak_def)

lemma first_non_newline_eq:
  "first_non_newline d i =
     (if \<exists>c\<in>set d. c \<noteq> NL then Some (i + length (takeWhile (\<lambda>c. c = NL) d)) else None)"
  by (induction d arbitrary: i) auto

lemma clean_description_eq:
  "clean_description d =
     (if \<exists>c\<in>set d. c \<noteq> NL then flatten_lines (dropWhile (\<lambda>c. c = NL) d) else flatten_lines d)"
  by (simp add: clean_description_def first_non_newline_eq join_splitlines dropWhile_eq_drop)

lemma clean_description_no_linebreak: "c \<in> set (clean_description d) \<Longrightarrow> \<not> is_linebreak c"
  by (auto simp: clean_description_eq dest: flatten_lines_no_linebreak split: if_splits)

lemma info_description_optional_blocks:
  assumes "dict_get spec (KStr ''info'') = Some (info_block opts)"
  shows "info_description (PDict (optional_blocks opts spec)) =
           Some (PStr (clean_description (description opts)))"
  using assms
  by (simp add: info_description_def optional_blocks_def set_contact_def info_block_def
        Let_def dict_get_def map_of_dict_set)

lemma generate_doc_info_description:
  assumes "generate_doc b env routes opts models parameters = Inr (doc, ws)"
  shows "info_description doc = Some (PStr (clean_description (description opts)))"
proof (cases b)
  case Swagger2DocBuilder
  with assms show ?thesis
    by (auto split: sum.splits
        intro!: info_description_optional_blocks simp: dict_get_def)
next
  case OpenApiDocBuilder
  with assms show ?thesis
    by (auto split: sum.splits
        intro!: info_description_optional_blocks simp: dict_get_def)
next
  case PydanticBuilder
  with assms show ?thesis
    by (auto split: sum.splits
        intro!: info_description_optional_blocks simp: dict_get_def)
qed

text \<open>
  Claim C10, amended.  Whenever one of the three builders returns a document, the
  description in its info block is the cleaned description, and it holds no line feed
  nor any other line terminator.  For a description that has a character other than a
  line feed, the leading line feeds are dropped, every line terminator that more text
  follows is replaced by four spaces, and a terminator that ends the description is left
  out.
\<close>

theorem description_is_flattened:
  assumes "generate_doc b env routes opts models parameters = Inr (doc, ws)"
  shows "info_description doc = Some (PStr (clean_description (description opts))) \<and>
         NL \<notin> set (clean_description (description opts)) \<and>
         (\<forall>c\<in>set (clean_description (description opts)). \<not> is_linebreak c) \<and>
         ((\<exists>c\<in>set (description opts). c \<noteq> NL) \<longrightarrow>
            clean_description (description opts) =
              flatten_lines (dropWhile (\<lambda>c. c = NL) (description opts)))"
proof -
  have nl: "is_linebreak NL" by (simp add: is_linebreak_def NL_def)
  have "NL \<notin> set (clean_description (description opts))"
    using clean_description_no_linebreak [of NL] nl by blast
  then show ?thesis
    using generate_doc_info_description [OF assms] clean_description_no_linebreak
    by (auto simp: clean_description_eq)
qed

theorem description_is_flattened_witness:
  "generate_doc Swagger2DocBuilder sample_env [] sample_options (PDict []) (PDict [])
     = Inr (PDict [(KStr ''swagger'', PStr ''2.0''),
                   (KStr ''info'',
                    PDict [(KStr ''title'', PStr ''Items''),
                           (KStr ''description'', PStr ''An API    for items''),
                           (KStr ''version'', PStr ''1.0.0''),
                           (KStr ''contact'', PDict [(KStr ''name'', PStr ''dev@example.org'')])]),
                   (KStr ''basePath'', PStr ''/''),
                   (KStr ''schemes'', PList [PStr ''https'']),
                   (KStr ''definitions'', PDict []),
                   (KStr ''parameters'', PDict []),
                   (KStr ''paths'', PDict [])], []) \<and>
   (\<exists>c\<in>set (description sample_options). c \<noteq> NL) \<and>
   clean_description (description sample_options) = ''An API    for items'' \<and>
   clean_description (description sample_options) =
     flatten_lines (dropWhile (\<lambda>c. c = NL) (description sample_options)) \<and>
   NL \<notin> set (clean_description (description sample_options)) \<and>
   list_all (\<lambda>c. \<not> is_linebreak c) (clean_description (description sample_options))"
proof -
  have g: "generate_doc Swagger2DocBuilder sample_env [] sample_options (PDict []) (PDict [])
     = Inr (PDict [(KStr ''swagger'', PStr ''2.0''),
                   (KStr ''info'',
                    PDict [(KStr ''title'', PStr ''Items''),
                           (KStr ''description'', PStr ''An API    for items''),
                           (KStr ''version'', PStr ''1.0.0''),
                           (KStr ''contact'', PDict [(KStr ''name'', PStr ''dev@example.org'')])]),
                   (KStr ''basePath'', PStr ''/''),
                   (KStr ''schemes'', PList [PStr ''https'']),
                   (KStr ''definitions'', PDict []),
                   (KStr ''parameters'', PDict []),
                   (KStr ''paths'', PDict [])], [])"
    by code_simp
  have n: "\<exists>c\<in>set (description sample_options). c \<noteq> NL"
    by code_simp
  have v: "clean_description (description sample_options) = ''An API    for items''"
    by code_simp
  show ?thesis
    using g n v description_is_flattened [OF g] unfolding list_all_iff by blast
qed

text \<open>
  Claim C10 as it is worded fails on a description that ends with a line feed: the
  claim replaces that line feed by four spaces, the document has none.
\<close>

theorem description_trailing_newline_counterexample:
  "info_description
     (fst (projr (generate_doc Swagger2DocBuilder sample_env [] one_line_options
                    (PDict []) (PDict []))))
     = Some (PStr ''a'') \<and>
   flatten_as_claimed (description one_line_options) = ''a    '' \<and>
   info_description
     (fst (projr (generate_doc Swagger2DocBuilder sample_env [] one_line_options
                    (PDict []) (PDict []))))
     \<noteq> Some (PStr (flatten_as_claimed (description one_line_options)))"
  by code_simp

subsection \<open>The components of a generation pass\<close>

lemma add_components_from_definitions_get:
  "dict_get (add_components_from_definitions comps defs) k =
     (case dict_get comps k of Some v \<Rightarrow> Some v | None \<Rightarrow> dict_get defs k)"
  by (induction defs arbitrary: comps)
     (auto simp: dict_get_def dict_contains_def map_of_dict_set split: option.splits)

lemma register_definitions_keeps:
  assumes "register_definitions comps model_spec = Inr comps'" and "dict_get comps k = Some v"
  shows "dict_get comps' k = Some v"
  using assms
  by (auto simp: register_definitions_def add_components_from_definitions_get
           split: option.splits sum.splits)

lemma responses_loop_keeps:
  assumes "responses_loop rms comps resps = Inr (resps', comps')" and "dict_get comps k = Some v"
  shows "dict_get comps' k = Some v"
  using assms
proof (induction rms arbitrary: comps resps)
  case Nil
  then show ?case by simp
next
  case (Cons ce rms)
  obtain code e where ce: "ce = (code, e)" by (cases ce)
  from Cons.prems(1) ce obtain m where m: "entry_model e = Some m"
    by (auto split: option.splits)
  let ?comps1 = "if \<not> dict_contains comps (KStr (model_name m))
                 then dict_set comps (KStr (model_name m)) (PDict (pop_definitions (model_schema m)))
                 else comps"
  from Cons.prems(1) ce m obtain comps2
    where reg: "register_definitions ?comps1 (model_schema m) = Inr comps2"
      and rest: "responses_loop rms comps2
                   (dict_set resps (KInt code)
                      (response_object (response_description code e) (model_name m)))
                 = Inr (resps', comps')"
    by (auto simp: Let_def split: sum.splits)
  have "dict_get ?comps1 k = Some v"
    using Cons.prems(2) by (auto simp: dict_get_def dict_contains_def map_of_dict_set)
  then have "dict_get comps2 k = Some v"
    by (rule register_definitions_keeps [OF reg])
  then show ?case by (rule Cons.IH [OF rest])
qed

lemma responses_loop_registers:
  assumes "responses_loop ((code, e) # rms) comps resps = Inr (resps', comps')"
      and "entry_model e = Some m"
  shows "dict_get comps' (KStr (model_name m)) =
           Some (case dict_get comps (KStr (model_name m)) of
                   None \<Rightarrow> PDict (pop_definitions (model_schema m))
                 | Some v \<Rightarrow> v)"
proof -
  let ?comps1 = "if \<not> dict_contains comps (KStr (model_name m))
                 then dict_set comps (KStr (model_name m)) (PDict (pop_definitions (model_schema m)))
                 else comps"
  from assms obtain comps2
    where reg: "register_definitions ?comps1 (model_schema m) = Inr comps2"
      and rest: "responses_loop rms comps2
                   (dict_set resps (KInt code)
                      (response_object (response_description code e) (model_name m)))
                 = Inr (resps', comps')"
    by (auto simp: Let_def split: sum.splits)
  have "dict_get ?comps1 (KStr (model_name m)) =
          Some (case dict_get comps (KStr (model_name m)) of
                  None \<Rightarrow> PDict (pop_definitions (model_schema m))
                | Some v \<Rightarrow> v)"
    by (auto simp: dict_get_def dict_contains_def map_of_dict_set split: option.splits)
  then have "dict_get comps2 (KStr (model_name m)) =
          Some (case dict_get comps (KStr (model_name m)) of
                  None \<Rightarrow> PDict (pop_definitions (model_schema m))
                | Some v \<Rightarrow> v)"
    by (rule register_definitions_keeps [OF reg])
  then show ?thesis by (rule responses_loop_keeps [OF rest])
qed

lemma build_pydantic_docs_keeps:
  assumes "build_pydantic_docs comps ips rms req qry tgs = Inr (d, comps')"
      and "dict_get comps k = Some v"
  shows "dict_get comps' k = Some v"
proof -
  from assms(1) obtain parameters where "build_input_and_query_doc ips qry = Inr parameters"
    by (auto simp: build_pydantic_docs_def split: sum.splits)
  with assms(1) obtain comps1 resps where
    req: "req = None \<and> comps1 = comps \<or>
          (\<exists>r. req = Some r \<and> register_definitions comps (model_schema r) = Inr comps1)"
    and loop: "responses_loop rms comps1 [] = Inr (resps, comps')"
    by (auto simp: build_pydantic_docs_def Let_def split: sum.splits option.splits prod.splits)
  from req have "dict_get comps1 k = Some v"
    using assms(2) register_definitions_keeps by blast
  then show ?thesis by (rule responses_loop_keeps [OF loop])
qed

lemma tornado_web_url_ok:
  assumes "pattern_ok env pattern"
  shows "\<exists>r. tornado_web_url env pattern h = Inr r \<and> target r = h"
  using assms
  by (auto simp: pattern_ok_def tornado_web_url_def split: sum.splits prod.splits)

lemma tornado_web_url_target:
  assumes "tornado_web_url env pattern h = Inr r"
  shows "target r = h"
  using assms
  by (auto simp: tornado_web_url_def split: sum.splits prod.splits if_splits)

lemma tornado_web_url_not_ok:
  assumes "\<not> pattern_ok env pattern"
  shows "\<exists>e. tornado_web_url env pattern h = Inl e"
  using assms
  by (auto simp: pattern_ok_def tornado_web_url_def split: sum.splits prod.splits)

lemma pydantic_handler_loop_keeps:
  assumes "pydantic_handler_loop h ms out comps = Inr (docs, comps')"
      and "dict_get comps k = Some v"
  shows "dict_get comps' k = Some v"
  using assms
proof (induction ms arbitrary: out comps)
  case Nil
  then show ?case by simp
next
  case (Cons meth ms)
  from Cons.prems(1) obtain f where f: "getattr h (lower meth) = Inr f"
    by (auto split: sum.splits)
  show ?case
  proof (cases "method_swagger_info f")
    case None
    with Cons.prems f have "pydantic_handler_loop h ms out comps = Inr (docs, comps')"
      by simp
    then show ?thesis using Cons.IH Cons.prems(2) by blast
  next
    case (Some si)
    with Cons.prems(1) f obtain d comps1 where
      b: "build_pydantic_docs comps (input_parameters_getter f) (responses si) (request si)
            (query si) (tags si) = Inr (d, comps1)"
      and rest: "pydantic_handler_loop h ms (dict_set out (lower meth) d) comps1 = Inr (docs, comps')"
      by (auto split: sum.splits)
    have "dict_get comps1 k = Some v"
      by (rule build_pydantic_docs_keeps [OF b Cons.prems(2)])
    then show ?thesis by (rule Cons.IH [OF rest])
  qed
qed

lemma extract_paths_pydantic_loop_keeps:
  assumes "extract_paths_pydantic_loop env routes st = Inr st'"
      and "dict_get (proc_schemas st) k = Some v"
  shows "dict_get (proc_schemas st') k = Some v"
  using assms
proof (induction routes arbitrary: st)
  case Nil
  then show ?case by simp
next
  case (Cons rt routes)
  from Cons.prems(1) obtain pattern h where rt: "rt = RouteTuple pattern h"
    by (cases rt) auto
  from Cons.prems(1) rt obtain r docs comps ps ws where
    r: "tornado_web_url env pattern h = Inr r"
    and b': "build_doc_from_pydantic_handler (proc_schemas st) (target r) = Inr (docs, comps)"
    and rest: "extract_paths_pydantic_loop env routes
                 \<lparr>proc_paths = ps, proc_schemas = comps, proc_warnings = ws\<rparr> = Inr st'"
    by (auto split: sum.splits prod.splits)
  have b: "build_doc_from_pydantic_handler (proc_schemas st) h = Inr (docs, comps)"
    using b' tornado_web_url_target [OF r] by simp
  have "dict_get comps k = Some v"
    using b Cons.prems(2) pydantic_handler_loop_keeps
    unfolding build_doc_from_pydantic_handler_def by blast
  then show ?case using Cons.IH [OF rest] by simp
qed

lemma extract_paths_pydantic_loop_append:
  "extract_paths_pydantic_loop env (rs1 @ rs2) st =
     (case extract_paths_pydantic_loop env rs1 st of
        Inl e \<Rightarrow> Inl e
      | Inr st' \<Rightarrow> extract_paths_pydantic_loop env rs2 st')"
  by (induction rs1 arbitrary: st) (auto simp: Let_def split: route.splits sum.splits prod.splits)

lemma document_schemas_optional_blocks:
  assumes "dict_get spec (KStr ''components'') = Some c"
  shows "document_schemas (PDict (optional_blocks opts spec)) = document_schemas (PDict spec)"
  using assms
  by (auto simp: document_schemas_def optional_blocks_def set_contact_def Let_def dict_get_def
        map_of_dict_set split: option.splits pyval.splits)

lemma generate_doc_pydantic_schemas:
  assumes "generate_doc PydanticBuilder env routes opts models parameters = Inr (doc, ws)"
  shows "\<exists>st. extract_paths_pydantic env routes = Inr st \<and>
              document_schemas doc = Some (proc_schemas st)"
proof -
  from assms obtain st where st: "extract_paths_pydantic env routes = Inr st"
    by (auto split: sum.splits)
  with assms have "document_schemas doc = Some (proc_schemas st)"
    by (auto simp: document_schemas_optional_blocks dict_get_def)
       (simp add: document_schemas_def dict_get_def)
  with st show ?thesis by blast
qed

text \<open>
  Claim C5.  A nested definition is stored only under a name that the components do not
  have yet, and of two definitions with one name the first is kept; the step for a
  response model leaves an entry of its name as it is and otherwise stores the model's
  fragment; an entry that the components hold at any point of an operation, of the loop
  over the responses or of the pass is in the components at its end with the same
  fragment; and every entry that the routes processed so far have stored is in the
  schemas of the final document with the same fragment.
\<close>

theorem first_write_wins:
  "(\<forall>comps defs k.
      dict_get (add_components_from_definitions comps defs) k =
        (case dict_get comps k of Some v \<Rightarrow> Some v | None \<Rightarrow> dict_get defs k)) \<and>
   (\<forall>code e m rms comps resps resps' comps'.
      responses_loop ((code, e) # rms) comps resps = Inr (resps', comps') \<and>
      entry_model e = Some m \<longrightarrow>
      dict_get comps' (KStr (model_name m)) =
        Some (case dict_get comps (KStr (model_name m)) of
                None \<Rightarrow> PDict (pop_definitions (model_schema m))
              | Some v \<Rightarrow> v)) \<and>
   (\<forall>rms comps resps resps' comps' k v.
      responses_loop rms comps resps = Inr (resps', comps') \<and> dict_get comps k = Some v \<longrightarrow>
      dict_get comps' k = Some v) \<and>
   (\<forall>comps ips rms req qry tgs d comps' k v.
      build_pydantic_docs comps ips rms req qry tgs = Inr (d, comps') \<and>
      dict_get comps k = Some v \<longrightarrow>
      dict_get comps' k = Some v) \<and>
   (\<forall>env routes st st' k v.
      extract_paths_pydantic_loop env routes st = Inr st' \<and>
      dict_get (proc_schemas st) k = Some v \<longrightarrow>
      dict_get (proc_schemas st') k = Some v) \<and>
   (\<forall>env rs1 rs2 opts models parameters doc ws.
      generate_doc PydanticBuilder env (rs1 @ rs2) opts models parameters = Inr (doc, ws) \<longrightarrow>
      (\<exists>st1 sch.
         extract_paths_pydantic env rs1 = Inr st1 \<and> document_schemas doc = Some sch \<and>
         (\<forall>k v. dict_get (proc_schemas st1) k = Some v \<longrightarrow> dict_get sch k = Some v)))"
proof (intro conjI allI impI)
  fix comps defs :: schemas and k
  show "dict_get (add_components_from_definitions comps defs) k =
          (case dict_get comps k of Some v \<Rightarrow> Some v | None \<Rightarrow> dict_get defs k)"
    by (rule add_components_from_definitions_get)
next
  fix code e m rms comps resps resps' comps'
  assume "responses_loop ((code, e) # rms) comps resps = Inr (resps', comps') \<and>
          entry_model e = Some m"
  then show "dict_get comps' (KStr (model_name m)) =
        Some (case dict_get comps (KStr (model_name m)) of
                None \<Rightarrow> PDict (pop_definitions (model_schema m))
              | Some v \<Rightarrow> v)"
    using responses_loop_registers by blast
next
  fix rms comps resps resps' comps' k v
  assume "responses_loop rms comps resps = Inr (resps', comps') \<and> dict_get comps k = Some v"
  then show "dict_get comps' k = Some v"
    using responses_loop_keeps by blast
next
  fix comps ips rms req qry tgs d comps' k v
  assume "build_pydantic_docs comps ips rms req qry tgs = Inr (d, comps') \<and>
          dict_get comps k = Some v"
  then show "dict_get comps' k = Some v"
    using build_pydantic_docs_keeps by blast
next
  fix env routes st st' k v
  assume "extract_paths_pydantic_loop env routes st = Inr st' \<and>
          dict_get (proc_schemas st) k = Some v"
  then show "dict_get (proc_schemas st') k = Some v"
    using extract_paths_pydantic_loop_keeps by blast
next
  fix env rs1 rs2 opts models parameters doc ws
  assume g: "generate_doc PydanticBuilder env (rs1 @ rs2) opts models parameters = Inr (doc, ws)"
  from generate_doc_pydantic_schemas [OF g] obtain st where
    st: "extract_paths_pydantic env (rs1 @ rs2) = Inr st"
    and sch: "document_schemas doc = Some (proc_schemas st)"
    by blast
  from st obtain st1 where
    st1: "extract_paths_pydantic env rs1 = Inr st1"
    and rest: "extract_paths_pydantic_loop env rs2 st1 = Inr st"
    by (auto simp: extract_paths_pydantic_def extract_paths_pydantic_loop_append
             split: sum.splits)
  have "\<forall>k v. dict_get (proc_schemas st1) k = Some v \<longrightarrow> dict_get (proc_schemas st) k = Some v"
    using extract_paths_pydantic_loop_keeps [OF rest] by blast
  with st1 sch
  show "\<exists>st1 sch.
         extract_paths_pydantic env rs1 = Inr st1 \<and> document_schemas doc = Some sch \<and>
         (\<forall>k v. dict_get (proc_schemas st1) k = Some v \<longrightarrow> dict_get sch k = Some v)"
    by blast
qed

theorem first_write_wins_witness:
  "generate_doc PydanticBuilder sample_env (collision_routes_first @ collision_routes_rest)
     sample_options (PDict []) (PDict []) = Inr (collision_document, []) \<and>
   responses_loop ((200, \<lparr>entry_model = Some other_item_model, entry_description = None\<rparr>) # [])
     [(KStr ''Item'', PDict (model_schema item_model))] []
     = Inr ([(KInt 200, response_object (PStr ''Successful Response'') ''Item'')],
            [(KStr ''Item'', PDict (model_schema item_model)),
             (KStr ''Part'', PDict [(KStr ''title'', PStr ''Part'')])]) \<and>
   dict_get [(KStr ''Item'', PDict (model_schema item_model))] (KStr ''Item'')
     = Some (PDict (model_schema item_model)) \<and>
   dict_get [(KStr ''Item'', PDict (model_schema item_model)),
             (KStr ''Part'', PDict [(KStr ''title'', PStr ''Part'')])] (KStr (model_name other_item_model))
     = Some (PDict (model_schema item_model)) \<and>
   build_pydantic_docs [(KStr ''Item'', PDict (model_schema item_model))] []
     [(200, \<lparr>entry_model = Some other_item_model, entry_description = None\<rparr>)] None None None
     = Inr (PDict [(KStr ''responses'',
                    PDict [(KInt 200, response_object (PStr ''Successful Response'') ''Item'')])],
            [(KStr ''Item'', PDict (model_schema item_model)),
             (KStr ''Part'', PDict [(KStr ''title'', PStr ''Part'')])]) \<and>
   extract_paths_pydantic_loop sample_env collision_routes_rest
     \<lparr>proc_paths = [], proc_schemas = [(KStr ''Item'', PDict (model_schema item_model))],
      proc_warnings = []\<rparr>
     = Inr \<lparr>proc_paths =
              [(''/others'',
                [(''get'',
                  PDict [(KStr ''responses'',
                          PDict [(KInt 200,
                                  response_object (PStr ''Successful Response'') ''Item'')])])])],
            proc_schemas = [(KStr ''Item'', PDict (model_schema item_model)),
                            (KStr ''Part'', PDict [(KStr ''title'', PStr ''Part'')])],
            proc_warnings = []\<rparr> \<and>
   (\<exists>st1 sch.
      extract_paths_pydantic sample_env collision_routes_first = Inr st1 \<and>
      document_schemas collision_document = Some sch \<and>
      proc_schemas st1 = [(KStr ''Item'', PDict (model_schema item_model))] \<and>
      sch = [(KStr ''Item'', PDict (model_schema item_model)),
             (KStr ''Part'', PDict [(KStr ''title'', PStr ''Part'')])] \<and>
      (\<forall>k v. dict_get (proc_schemas st1) k = Some v \<longrightarrow> dict_get sch k = Some v))"
proof -
  let ?item = "(KStr ''Item'', PDict (model_schema item_model))"
  let ?part = "(KStr ''Part'', PDict [(KStr ''title'', PStr ''Part'')])"
  let ?op = "PDict [(KStr ''responses'',
                     PDict [(KInt 200, response_object (PStr ''Successful Response'') ''Item'')])]"
  have b: "build_pydantic_docs [?item] []
             [(200, \<lparr>entry_model = Some other_item_model, entry_description = None\<rparr>)]
             None None None
           = Inr (?op, [?item, ?part])"
    by code_simp
  have p: "extract_paths_pydantic_loop sample_env collision_routes_rest
             \<lparr>proc_paths = [], proc_schemas = [?item], proc_warnings = []\<rparr>
           = Inr \<lparr>proc_paths = [(''/others'', [(''get'', ?op)])],
                  proc_schemas = [?item, ?part], proc_warnings = []\<rparr>"
    by code_simp
  have g: "generate_doc PydanticBuilder sample_env (collision_routes_first @ collision_routes_rest)
             sample_options (PDict []) (PDict []) = Inr (collision_document, [])"
    by code_simp
  have l: "responses_loop
             ((200, \<lparr>entry_model = Some other_item_model, entry_description = None\<rparr>) # [])
             [(KStr ''Item'', PDict (model_schema item_model))] []
           = Inr ([(KInt 200, response_object (PStr ''Successful Response'') ''Item'')],
                  [(KStr ''Item'', PDict (model_schema item_model)),
                   (KStr ''Part'', PDict [(KStr ''title'', PStr ''Part'')])])"
    by code_simp
  have e: "entry_model \<lparr>entry_model = Some other_item_model, entry_description = None\<rparr>
             = Some other_item_model"
    by simp
  have d: "dict_get [(KStr ''Item'', PDict (model_schema item_model))] (KStr ''Item'')
             = Some (PDict (model_schema item_model))"
    by code_simp
  have s1: "extract_paths_pydantic sample_env collision_routes_first
              = Inr \<lparr>proc_paths =
                       [(''/items'',
                         [(''get'',
                           PDict [(KStr ''responses'',
                                   PDict [(KInt 200,
                                           response_object (PStr ''Successful Response'')
                                             ''Item'')])])])],
                     proc_schemas = [(KStr ''Item'', PDict (model_schema item_model))],
                     proc_warnings = []\<rparr>"
    by code_simp
  have s: "document_schemas collision_document
             = Some [(KStr ''Item'', PDict (model_schema item_model)),
                     (KStr ''Part'', PDict [(KStr ''title'', PStr ''Part'')])]"
    by code_simp
  note fw = first_write_wins
  have step: "dict_get [(KStr ''Item'', PDict (model_schema item_model)),
             (KStr ''Part'', PDict [(KStr ''title'', PStr ''Part'')])]
             (KStr (model_name other_item_model))
         = Some (case dict_get [(KStr ''Item'', PDict (model_schema item_model))]
                        (KStr (model_name other_item_model)) of
                   None \<Rightarrow> PDict (pop_definitions (model_schema other_item_model))
                 | Some v \<Rightarrow> v)"
    by (rule fw [THEN conjunct2, THEN conjunct1, rule_format, OF conjI [OF l e]])
  have n: "dict_get [(KStr ''Item'', PDict (model_schema item_model))]
             (KStr (model_name other_item_model)) = Some (PDict (model_schema item_model))"
    by code_simp
  have "\<exists>st1 sch.
         extract_paths_pydantic sample_env collision_routes_first = Inr st1 \<and>
         document_schemas collision_document = Some sch \<and>
         (\<forall>k v. dict_get (proc_schemas st1) k = Some v \<longrightarrow> dict_get sch k = Some v)"
    by (rule fw [THEN conjunct2, THEN conjunct2, THEN conjunct2, THEN conjunct2, THEN conjunct2,
                 rule_format, OF g])
  then have pass: "\<exists>st1 sch.
      extract_paths_pydantic sample_env collision_routes_first = Inr st1 \<and>
      document_schemas collision_document = Some sch \<and>
      proc_schemas st1 = [(KStr ''Item'', PDict (model_schema item_model))] \<and>
      sch = [(KStr ''Item'', PDict (model_schema item_model)),
             (KStr ''Part'', PDict [(KStr ''title'', PStr ''Part'')])] \<and>
      (\<forall>k v. dict_get (proc_schemas st1) k = Some v \<longrightarrow> dict_get sch k = Some v)"
    using s1 s by auto
  have keep3: "dict_get [?item, ?part] (KStr ''Item'') = Some (PDict (model_schema item_model))"
    by (rule fw [THEN conjunct2, THEN conjunct2, THEN conjunct1, rule_format,
                 OF conjI [OF l d]])
  have keep4: "dict_get [?item, ?part] (KStr ''Item'') = Some (PDict (model_schema item_model))"
    by (rule fw [THEN conjunct2, THEN conjunct2, THEN conjunct2, THEN conjunct1, rule_format,
                 OF conjI [OF b d]])
  have d5: "dict_get (proc_schemas \<lparr>proc_paths = [], proc_schemas = [?item],
                                     proc_warnings = []\<rparr>) (KStr ''Item'')
              = Some (PDict (model_schema item_model))"
    using d by simp
  have keep5: "dict_get (proc_schemas \<lparr>proc_paths = [(''/others'', [(''get'', ?op)])],
                  proc_schemas = [?item, ?part], proc_warnings = []\<rparr>) (KStr ''Item'')
              = Some (PDict (model_schema item_model))"
    by (rule fw [THEN conjunct2, THEN conjunct2, THEN conjunct2, THEN conjunct2, THEN conjunct1,
                 rule_format, OF conjI [OF p d5]])
  show ?thesis
    using g l d step n pass b p keep3 keep4 keep5 by simp
qed

subsection \<open>The description of a response\<close>

lemma responses_loop_get:
  assumes "responses_loop rms comps resps = Inr (resps', comps')"
  shows "dict_get resps' (KInt code) =
           (case map_of (rev rms) code of
              None \<Rightarrow> dict_get resps (KInt code)
            | Some e \<Rightarrow>
                (case entry_model e of
                   None \<Rightarrow> None
                 | Some m \<Rightarrow>
                     Some (response_object (response_description code e) (model_name m))))"
  using assms
proof (induction rms arbitrary: comps resps)
  case Nil
  then show ?case by simp
next
  case (Cons ce rms)
  obtain c e where ce: "ce = (c, e)" by (cases ce)
  from Cons.prems ce obtain m where m: "entry_model e = Some m"
    by (auto split: option.splits)
  let ?resps1 = "dict_set resps (KInt c)
                   (response_object (response_description c e) (model_name m))"
  from Cons.prems ce m obtain comps2
    where rest: "responses_loop rms comps2 ?resps1 = Inr (resps', comps')"
    by (auto simp: Let_def split: sum.splits)
  have r1: "dict_get ?resps1 (KInt code) =
              (if c = code
               then Some (response_object (response_description c e) (model_name m))
               else dict_get resps (KInt code))"
    by (auto simp: dict_get_def map_of_dict_set)
  have mo: "map_of (rev (ce # rms)) code =
              (case map_of (rev rms) code of
                 None \<Rightarrow> if c = code then Some e else None
               | Some e' \<Rightarrow> Some e')"
    by (simp add: ce map_add_def split: option.splits)
  show ?case
    unfolding Cons.IH [OF rest] mo r1 using m
    by (auto split: option.splits)
qed

lemma responses_loop_models:
  assumes "responses_loop rms comps resps = Inr (resps', comps')" and "(c, e) \<in> set rms"
  shows "\<exists>m. entry_model e = Some m"
  using assms
proof (induction rms arbitrary: comps resps)
  case Nil
  then show ?case by simp
next
  case (Cons a rms)
  obtain c' x where a: "a = (c', x)" by (cases a)
  from Cons.prems(1) a obtain m where m: "entry_model x = Some m"
    by (auto split: option.splits)
  show ?case
  proof (cases "(c, e) = a")
    case True
    with a m show ?thesis by auto
  next
    case False
    with Cons.prems(2) have mem: "(c, e) \<in> set rms" by auto
    from Cons.prems(1) a m obtain comps2 r where
      rest: "responses_loop rms comps2 r = Inr (resps', comps')"
      by (auto simp: Let_def split: sum.splits)
    show ?thesis by (rule Cons.IH [OF rest mem])
  qed
qed

lemma build_pydantic_docs_responses:
  assumes "build_pydantic_docs comps ips rms req qry tgs = Inr (operation, comps')"
  shows "\<exists>op resps comps1.
           operation = PDict op \<and> dict_get op (KStr ''responses'') = Some (PDict resps) \<and>
           responses_loop rms comps1 [] = Inr (resps, comps')"
proof -
  from assms obtain parameters where "build_input_and_query_doc ips qry = Inr parameters"
    by (auto simp: build_pydantic_docs_def split: sum.splits)
  with assms show ?thesis
    by (auto simp: build_pydantic_docs_def Let_def dict_get_def map_of_dict_set
             split: sum.splits option.splits prod.splits if_splits)
qed

lemma generate_default_description_cases:
  "generate_default_description status_code =
     (if status_code < 400 then ''Successful Response''
      else if 400 \<le> status_code \<and> status_code \<le> 499 then ''Bad request''
      else ''Internal Server Error'')"
  by (simp add: generate_default_description_def)

text \<open>
  Claim C4.  In the operation built from the responses of a Swagger Method Info, the
  response of a status code has the description of its entry.  An entry without
  description, or with one that is not true, gets the default for its status code:
  \<^verbatim>\<open>Successful Response\<close> below 400, \<^verbatim>\<open>Bad request\<close> from 400 to 499,
  \<^verbatim>\<open>Internal Server Error\<close> from 500 on; a non-empty description is used as it is.
\<close>

theorem default_response_description:
  assumes "build_pydantic_docs comps ips rms req qry tgs = Inr (operation, comps')"
      and "distinct (map fst rms)"
      and "(status_code, e) \<in> set rms"
  shows "(\<exists>op resps m.
            operation = PDict op \<and> dict_get op (KStr ''responses'') = Some (PDict resps) \<and>
            entry_model e = Some m \<and>
            dict_get resps (KInt status_code) =
              Some (PDict [(KStr ''description'', response_description status_code e),
                           (KStr ''content'',
                            PDict [(KStr ''application/json'',
                                    PDict [(KStr ''schema'',
                                            PDict [(KStr ''$ref'',
                                                    PStr (''#/components/schemas/''
                                                          @ model_name m))])])])])) \<and>
         (entry_description e = None \<or> (\<exists>d. entry_description e = Some d \<and> \<not> py_truthy d) \<longrightarrow>
            response_description status_code e =
              PStr (if status_code < 400 then ''Successful Response''
                    else if 400 \<le> status_code \<and> status_code \<le> 499 then ''Bad request''
                    else ''Internal Server Error'')) \<and>
         (\<forall>s. entry_description e = Some (PStr s) \<and> s \<noteq> [] \<longrightarrow>
            response_description status_code e = PStr s)"
proof (intro conjI)
  from build_pydantic_docs_responses [OF assms(1)] obtain op resps comps1 where
    op: "operation = PDict op" "dict_get op (KStr ''responses'') = Some (PDict resps)"
    and loop: "responses_loop rms comps1 [] = Inr (resps, comps')"
    by blast
  have "distinct (map fst (rev rms))"
    using assms(2) by (simp add: rev_map [symmetric])
  moreover have "(status_code, e) \<in> set (rev rms)"
    using assms(3) by simp
  ultimately have mo: "map_of (rev rms) status_code = Some e"
    by (rule map_of_is_SomeI)
  have get: "dict_get resps (KInt status_code) =
               (case entry_model e of
                  None \<Rightarrow> None
                | Some m \<Rightarrow>
                    Some (response_object (response_description status_code e) (model_name m)))"
    using responses_loop_get [OF loop, of status_code] mo by simp
  have "\<exists>m. entry_model e = Some m"
    by (rule responses_loop_models [OF loop assms(3)])
  then obtain m where m: "entry_model e = Some m" by blast
  with get op
  show "\<exists>op resps m.
            operation = PDict op \<and> dict_get op (KStr ''responses'') = Some (PDict resps) \<and>
            entry_model e = Some m \<and>
            dict_get resps (KInt status_code) =
              Some (PDict [(KStr ''description'', response_description status_code e),
                           (KStr ''content'',
                            PDict [(KStr ''application/json'',
                                    PDict [(KStr ''schema'',
                                            PDict [(KStr ''$ref'',
                                                    PStr (''#/components/schemas/''
                                                          @ model_name m))])])])])"
    by (auto simp: response_object_def)
next
  show "entry_description e = None \<or> (\<exists>d. entry_description e = Some d \<and> \<not> py_truthy d) \<longrightarrow>
            response_description status_code e =
              PStr (if status_code < 400 then ''Successful Response''
                    else if 400 \<le> status_code \<and> status_code \<le> 499 then ''Bad request''
                    else ''Internal Server Error'')"
    by (auto simp: response_description_def generate_default_description_def Let_def)
next
  show "\<forall>s. entry_description e = Some (PStr s) \<and> s \<noteq> [] \<longrightarrow>
            response_description status_code e = PStr s"
    by (auto simp: response_description_def Let_def)
qed

theorem default_response_description_witness:
  "build_pydantic_docs [] [] described_responses None None None
     = Inr (PDict [(KStr ''responses'',
                    PDict [(KInt 200, response_object (PStr ''Successful Response'') ''Item''),
                           (KInt 404, response_object (PStr ''Bad request'') ''Item''),
                           (KInt 500, response_object (PStr ''Internal Server Error'') ''Item''),
                           (KInt 201, response_object (PStr ''Created'') ''Item'')])],
            [(KStr ''Item'', PDict (model_schema item_model))]) \<and>
   distinct (map fst described_responses) \<and>
   (200, \<lparr>entry_model = Some item_model, entry_description = None\<rparr>)
     \<in> set described_responses \<and>
   (404, \<lparr>entry_model = Some item_model, entry_description = Some (PStr [])\<rparr>)
     \<in> set described_responses \<and>
   (201, \<lparr>entry_model = Some item_model, entry_description = Some (PStr ''Created'')\<rparr>)
     \<in> set described_responses \<and>
   response_description 200 \<lparr>entry_model = Some item_model, entry_description = None\<rparr>
     = PStr ''Successful Response'' \<and>
   response_description 404
       \<lparr>entry_model = Some item_model, entry_description = Some (PStr [])\<rparr>
     = PStr ''Bad request'' \<and>
   response_description 201
       \<lparr>entry_model = Some item_model, entry_description = Some (PStr ''Created'')\<rparr>
     = PStr ''Created''"
proof -
  let ?op = "PDict [(KStr ''responses'',
                    PDict [(KInt 200, response_object (PStr ''Successful Response'') ''Item''),
                           (KInt 404, response_object (PStr ''Bad request'') ''Item''),
                           (KInt 500, response_object (PStr ''Internal Server Error'') ''Item''),
                           (KInt 201, response_object (PStr ''Created'') ''Item'')])]"
  have b: "build_pydantic_docs [] [] described_responses None None None
             = Inr (?op, [(KStr ''Item'', PDict (model_schema item_model))])"
    by code_simp
  have d: "distinct (map fst described_responses)"
    by code_simp
  have m1: "(200, \<lparr>entry_model = Some item_model, entry_description = None\<rparr>)
              \<in> set described_responses"
    and m2: "(404, \<lparr>entry_model = Some item_model, entry_description = Some (PStr [])\<rparr>)
              \<in> set described_responses"
    and m3: "(201, \<lparr>entry_model = Some item_model,
                     entry_description = Some (PStr ''Created'')\<rparr>)
              \<in> set described_responses"
    by (simp_all add: described_responses_def)
  note t1 = default_response_description [OF b d m1]
    and t2 = default_response_description [OF b d m2]
    and t3 = default_response_description [OF b d m3]
  have r1: "response_description 200 \<lparr>entry_model = Some item_model, entry_description = None\<rparr>
              = PStr ''Successful Response''"
    using t1 by simp
  have r2: "response_description 404
              \<lparr>entry_model = Some item_model, entry_description = Some (PStr [])\<rparr>
              = PStr ''Bad request''"
    using t2 by simp
  have r3: "response_description 201
              \<lparr>entry_model = Some item_model, entry_description = Some (PStr ''Created'')\<rparr>
              = PStr ''Created''"
    using t3 by simp
  show ?thesis
    using b d m1 m2 m3 r1 r2 r3 by simp
qed

subsection \<open>Methods without Swagger Method Info\<close>

lemma pydantic_handler_loop_keys:
  assumes "pydantic_handler_loop h ms out comps = Inr (docs, comps')"
      and "k \<in> fst ` set docs"
  shows "k \<in> fst ` set out \<or>
         (\<exists>f si. getattr h k = Inr f \<and> method_swagger_info f = Some si)"
  using assms
proof (induction ms arbitrary: out comps)
  case Nil
  then show ?case by simp
next
  case (Cons meth ms)
  from Cons.prems(1) obtain f where f: "getattr h (lower meth) = Inr f"
    by (auto split: sum.splits)
  show ?case
  proof (cases "method_swagger_info f")
    case None
    with Cons.prems f have "pydantic_handler_loop h ms out comps = Inr (docs, comps')"
      by simp
    then show ?thesis using Cons.IH Cons.prems(2) by blast
  next
    case (Some si)
    with Cons.prems(1) f obtain d comps1 where
      rest: "pydantic_handler_loop h ms (dict_set out (lower meth) d) comps1 = Inr (docs, comps')"
      by (auto split: sum.splits)
    from Cons.IH [OF rest Cons.prems(2)]
    have "k \<in> insert (lower meth) (fst ` set out) \<or>
          (\<exists>f si. getattr h k = Inr f \<and> method_swagger_info f = Some si)"
      by (simp only: dict_set_keys)
    then show ?thesis using f Some by auto
  qed
qed

lemma getattr_with_docs:
  "getattr (with_docs g h) k = map_sum id (\<lambda>f. f\<lparr>method_doc := g k\<rparr>) (getattr h k)"
proof -
  have "map_of (map (\<lambda>(n, f). (n, f\<lparr>method_doc := g n\<rparr>)) xs) k =
          map_option (\<lambda>f. f\<lparr>method_doc := g k\<rparr>) (map_of xs k)" for xs
    by (induction xs) auto
  from this [of "handler_attrs h"] show ?thesis
    by (cases "map_of (handler_attrs h) k") (simp_all add: getattr_def with_docs_def dict_get_def)
qed

lemma SUPPORTED_METHODS_with_docs: "SUPPORTED_METHODS (with_docs g h) = SUPPORTED_METHODS h"
  by (simp add: with_docs_def)

lemma pydantic_handler_loop_with_docs:
  "pydantic_handler_loop (with_docs g h) ms out comps = pydantic_handler_loop h ms out comps"
proof (induction ms arbitrary: out comps)
  case Nil
  then show ?case by simp
next
  case (Cons meth ms)
  show ?case
  proof (cases "getattr h (lower meth)")
    case (Inl e)
    then show ?thesis by (simp add: getattr_with_docs)
  next
    case (Inr f)
    then show ?thesis
      by (simp add: getattr_with_docs Cons.IH input_parameters_getter_def
               split: option.splits sum.splits)
  qed
qed

lemma paths_update_methods:
  assumes "\<forall>p ops. dict_get paths p = Some ops \<longrightarrow> dict_get ops m = None" and "k \<noteq> m"
  shows "\<forall>p ops. dict_get (paths_update paths path k d) p = Some ops \<longrightarrow> dict_get ops m = None"
  using assms
  by (auto simp: paths_update_def dict_get_def map_of_dict_set split: option.splits if_splits)

lemma add_operations_methods:
  assumes "add_operations r items (paths, ws) = Inr (paths', ws')"
      and "m \<notin> fst ` set items"
      and "\<forall>p ops. dict_get paths p = Some ops \<longrightarrow> dict_get ops m = None"
  shows "\<forall>p ops. dict_get paths' p = Some ops \<longrightarrow> dict_get ops m = None"
  using assms
proof (induction items arbitrary: paths ws)
  case Nil
  then show ?case by simp
next
  case (Cons kd items)
  obtain k d where kd: "kd = (k, d)" by (cases kd)
  from Cons.prems(1) kd obtain p w where fmt: "format_handler_path r k = Inr (p, w)"
    by (auto split: sum.splits)
  let ?paths = "case p of None \<Rightarrow> paths | Some q \<Rightarrow> paths_update paths q k d"
  have rest: "add_operations r items (?paths, ws @ w) = Inr (paths', ws')"
    using Cons.prems(1) kd fmt by (simp split: option.splits)
  have km: "k \<noteq> m" and mem: "m \<notin> fst ` set items"
    using Cons.prems(2) kd by auto
  have "\<forall>p ops. dict_get ?paths p = Some ops \<longrightarrow> dict_get ops m = None"
    using paths_update_methods [OF Cons.prems(3) km] Cons.prems(3)
    by (cases p) auto
  with Cons.IH [OF rest mem] show ?case by blast
qed

text \<open>
  Claim C9.  Under the model-declaration dialect a method without Swagger Method Info
  gets no operation: not among the operations of its handler, whatever the docstrings of
  the handler's methods are (the result does not depend on them), and not in the paths
  that the processor builds from the route of the handler.
\<close>

theorem no_swagger_info_no_operation:
  assumes "getattr h (lower meth) = Inr f"
      and "method_swagger_info f = None"
  shows "(\<forall>comps docs comps'.
            build_doc_from_pydantic_handler comps h = Inr (docs, comps') \<longrightarrow>
            dict_get docs (lower meth) = None) \<and>
         (\<forall>comps g.
            build_doc_from_pydantic_handler comps (with_docs g h) =
              build_doc_from_pydantic_handler comps h) \<and>
         (\<forall>env pattern st.
            extract_paths_pydantic env [RouteTuple pattern h] = Inr st \<longrightarrow>
            (\<forall>p ops. dict_get (proc_paths st) p = Some ops \<longrightarrow> dict_get ops (lower meth) = None))"
proof (intro conjI allI impI)
  fix comps docs comps'
  assume b: "build_doc_from_pydantic_handler comps h = Inr (docs, comps')"
  show "dict_get docs (lower meth) = None"
  proof (rule ccontr)
    assume "dict_get docs (lower meth) \<noteq> None"
    then have "lower meth \<in> fst ` set docs"
      by (simp add: dict_get_def map_of_eq_None_iff)
    with b pydantic_handler_loop_keys [of h "SUPPORTED_METHODS h" "[]" comps docs comps' "lower meth"]
    show False
      using assms by (simp add: build_doc_from_pydantic_handler_def)
  qed
next
  fix comps g
  show "build_doc_from_pydantic_handler comps (with_docs g h) =
          build_doc_from_pydantic_handler comps h"
    by (simp add: build_doc_from_pydantic_handler_def pydantic_handler_loop_with_docs
          SUPPORTED_METHODS_with_docs)
next
  fix env pattern st p ops
  assume e: "extract_paths_pydantic env [RouteTuple pattern h] = Inr st"
    and p: "dict_get (proc_paths st) p = Some ops"
  from e obtain r docs comps ps ws where
    r: "tornado_web_url env pattern h = Inr r"
    and b': "build_doc_from_pydantic_handler [] (target r) = Inr (docs, comps)"
    and a: "add_operations r docs ([], []) = Inr (ps, ws)"
    and st: "proc_paths st = ps"
    by (auto simp: extract_paths_pydantic_def split: sum.splits prod.splits)
  have b: "build_doc_from_pydantic_handler [] h = Inr (docs, comps)"
    using b' tornado_web_url_target [OF r] by simp
  have "dict_get docs (lower meth) = None"
  proof (rule ccontr)
    assume "dict_get docs (lower meth) \<noteq> None"
    then have "lower meth \<in> fst ` set docs"
      by (simp add: dict_get_def map_of_eq_None_iff)
    with b pydantic_handler_loop_keys [of h "SUPPORTED_METHODS h" "[]" "[]" docs comps "lower meth"]
    show False
      using assms by (simp add: build_doc_from_pydantic_handler_def)
  qed
  then have "lower meth \<notin> fst ` set docs"
    by (simp add: dict_get_def map_of_eq_None_iff)
  from add_operations_methods [OF a this] p st
  show "dict_get ops (lower meth) = None"
    by (simp add: dict_get_def)
qed

theorem no_swagger_info_no_operation_witness:
  "getattr documented_handler (lower ''GET'') = Inr item_method \<and>
   method_swagger_info item_method = None \<and>
   method_doc item_method = Some ''Get an item\<newline>---\<newline>summary: hello'' \<and>
   build_doc_from_func_doc sample_env documented_handler
     = Inr [(''get'', PDict [(KStr ''summary'', PStr ''hello'')])] \<and>
   build_doc_from_pydantic_handler [] documented_handler
     = Inr ([(''post'',
              PDict [(KStr ''responses'',
                      PDict [(KInt 200,
                              response_object (PStr ''Successful Response'') ''Item'')])])],
            [(KStr ''Item'', PDict (model_schema item_model))]) \<and>
   dict_get [(''post'',
              PDict [(KStr ''responses'',
                      PDict [(KInt 200,
                              response_object (PStr ''Successful Response'') ''Item'')])])]
     (lower ''GET'') = None \<and>
   build_doc_from_pydantic_handler [] (with_docs (\<lambda>n. None) documented_handler)
     = build_doc_from_pydantic_handler [] documented_handler \<and>
   extract_paths_pydantic sample_env [RouteTuple ''/items'' documented_handler]
     = Inr \<lparr>proc_paths =
              [(''/items'',
                [(''post'',
                  PDict [(KStr ''responses'',
                          PDict [(KInt 200,
                                  response_object (PStr ''Successful Response'') ''Item'')])])])],
            proc_schemas = [(KStr ''Item'', PDict (model_schema item_model))],
            proc_warnings = []\<rparr> \<and>
   dict_get [(''post'',
              PDict [(KStr ''responses'',
                      PDict [(KInt 200,
                              response_object (PStr ''Successful Response'') ''Item'')])])]
     (lower ''GET'') = None"
proof -
  let ?op = "PDict [(KStr ''responses'',
                     PDict [(KInt 200, response_object (PStr ''Successful Response'') ''Item'')])]"
  let ?st = "\<lparr>proc_paths = [(''/items'', [(''post'', ?op)])],
              proc_schemas = [(KStr ''Item'', PDict (model_schema item_model))],
              proc_warnings = []\<rparr>"
  have g: "getattr documented_handler (lower ''GET'') = Inr item_method"
    by code_simp
  have n: "method_swagger_info item_method = None"
    by code_simp
  have d: "method_doc item_method = Some ''Get an item\<newline>---\<newline>summary: hello''"
    by code_simp
  have f: "build_doc_from_func_doc sample_env documented_handler
             = Inr [(''get'', PDict [(KStr ''summary'', PStr ''hello'')])]"
    by code_simp
  have b: "build_doc_from_pydantic_handler [] documented_handler
             = Inr ([(''post'', ?op)], [(KStr ''Item'', PDict (model_schema item_model))])"
    by code_simp
  have e: "extract_paths_pydantic sample_env [RouteTuple ''/items'' documented_handler] = Inr ?st"
    by code_simp
  have p: "dict_get (proc_paths ?st) ''/items'' = Some [(''post'', ?op)]"
    by code_simp
  note t = no_swagger_info_no_operation [OF g n]
  have c1: "dict_get [(''post'', ?op)] (lower ''GET'') = None"
    by (rule t [THEN conjunct1, rule_format, OF b])
  have c2: "build_doc_from_pydantic_handler [] (with_docs (\<lambda>n. None) documented_handler)
              = build_doc_from_pydantic_handler [] documented_handler"
    by (rule t [THEN conjunct2, THEN conjunct1, rule_format])
  have c3: "dict_get [(''post'', ?op)] (lower ''GET'') = None"
    by (rule t [THEN conjunct2, THEN conjunct2, rule_format, OF e p])
  show ?thesis
    using g n d f b e c1 c2 c3 by simp
qed

subsection \<open>The entry point\<close>

lemma doc_builders_get:
  "dict_get (doc_builders env) v =
     (if v = API_OPENAPI_3_PYDANTIC env then Some PydanticBuilder
      else if v = API_OPENAPI_3 env then Some OpenApiDocBuilder
      else if v = API_SWAGGER_2 env then Some Swagger2DocBuilder
      else None)"
  by (simp add: doc_builders_def dict_get_def map_of_dict_set del: dict_set.simps)

lemma startswith_refl: "startswith s s"
  by (induction s) auto

lemma str_contains_refl: "str_contains s s"
  by (cases s) (auto simp: startswith_refl)

lemma str_contains_append: "str_contains (p @ s) s"
  by (induction p) (auto simp: str_contains_refl)

text \<open>
  Claim C6, amended.  With an identifier that is none of the three recognized ones the
  entry point raises a \<^verbatim>\<open>ValueError\<close> whose message contains the identifier, and there
  is no document.  With a recognized identifier the entry point raises nothing of its
  own: the call is the call of the builder registered under the identifier, and returns
  what that builder returns, a document or the exception that its route processing
  raised; for an empty route list that is a document.
\<close>

theorem dialect_dispatch:
  "(v \<notin> {API_SWAGGER_2 env, API_OPENAPI_3 env, API_OPENAPI_3_PYDANTIC env} \<longrightarrow>
      generate_doc_from_endpoints env routes opts v =
        Inl (ValueError (''Unknown api_definition_version = '' @ v)) \<and>
      str_contains (''Unknown api_definition_version = '' @ v) v) \<and>
   (v \<in> {API_SWAGGER_2 env, API_OPENAPI_3 env, API_OPENAPI_3_PYDANTIC env} \<longrightarrow>
      (\<exists>b. builder_schema env b = v \<and>
           generate_doc_from_endpoints env routes opts v =
             generate_doc b env routes opts (export_swagger_models env)
               (export_swagger_parameters env)) \<and>
      (\<exists>doc. generate_doc_from_endpoints env [] opts v = Inr (doc, [])))"
proof (intro conjI impI)
  assume "v \<notin> {API_SWAGGER_2 env, API_OPENAPI_3 env, API_OPENAPI_3_PYDANTIC env}"
  then have "dict_get (doc_builders env) v = None"
    by (simp add: doc_builders_get)
  then show "generate_doc_from_endpoints env routes opts v =
               Inl (ValueError (''Unknown api_definition_version = '' @ v))"
    by (simp add: generate_doc_from_endpoints_def dict_contains_def dict_get_def)
next
  show "str_contains (''Unknown api_definition_version = '' @ v) v"
    by (rule str_contains_append)
next
  assume known: "v \<in> {API_SWAGGER_2 env, API_OPENAPI_3 env, API_OPENAPI_3_PYDANTIC env}"
  have "\<exists>b. dict_get (doc_builders env) v = Some b \<and> builder_schema env b = v"
  proof (cases "v = API_OPENAPI_3_PYDANTIC env")
    case True
    then show ?thesis by (simp add: doc_builders_get)
  next
    case nop: False
    show ?thesis
    proof (cases "v = API_OPENAPI_3 env")
      case True
      with nop show ?thesis by (simp add: doc_builders_get)
    next
      case False
      with nop known show ?thesis by (simp add: doc_builders_get)
    qed
  qed
  then obtain b where b: "dict_get (doc_builders env) v = Some b" and s: "builder_schema env b = v"
    by blast
  have eq: "generate_doc_from_endpoints env rs opts v =
              generate_doc b env rs opts (export_swagger_models env)
                (export_swagger_parameters env)" for rs
    using b by (simp add: generate_doc_from_endpoints_def dict_contains_def dict_get_def)
  show "\<exists>b. builder_schema env b = v \<and>
           generate_doc_from_endpoints env routes opts v =
             generate_doc b env routes opts (export_swagger_models env)
               (export_swagger_parameters env)"
    using s eq by blast
  show "\<exists>doc. generate_doc_from_endpoints env [] opts v = Inr (doc, [])"
    unfolding eq
    by (cases b) (simp_all add: extract_paths_def extract_paths_pydantic_def)
qed

theorem dialect_dispatch_witness:
  "''not-a-real-dialect''
     \<notin> {API_SWAGGER_2 sample_env, API_OPENAPI_3 sample_env, API_OPENAPI_3_PYDANTIC sample_env} \<and>
   generate_doc_from_endpoints sample_env collision_routes_first sample_options
       ''not-a-real-dialect''
     = Inl (ValueError ''Unknown api_definition_version = not-a-real-dialect'') \<and>
   ''v3_pydantic''
     \<in> {API_SWAGGER_2 sample_env, API_OPENAPI_3 sample_env, API_OPENAPI_3_PYDANTIC sample_env} \<and>
   (\<exists>b. builder_schema sample_env b = ''v3_pydantic'' \<and>
        generate_doc_from_endpoints sample_env collision_routes_first sample_options
            ''v3_pydantic''
          = generate_doc b sample_env collision_routes_first sample_options
              (export_swagger_models sample_env) (export_swagger_parameters sample_env)) \<and>
   (\<exists>doc. generate_doc_from_endpoints sample_env [] sample_options ''v3_pydantic''
            = Inr (doc, []))"
proof -
  have u: "''not-a-real-dialect''
     \<notin> {API_SWAGGER_2 sample_env, API_OPENAPI_3 sample_env, API_OPENAPI_3_PYDANTIC sample_env}"
    by (simp add: sample_env_def)
  have k: "''v3_pydantic''
     \<in> {API_SWAGGER_2 sample_env, API_OPENAPI_3 sample_env, API_OPENAPI_3_PYDANTIC sample_env}"
    by (simp add: sample_env_def)
  note t1 = dialect_dispatch [of "''not-a-real-dialect''" sample_env collision_routes_first
              sample_options]
    and t2 = dialect_dispatch [of "''v3_pydantic''" sample_env collision_routes_first
              sample_options]
  show ?thesis
    using u k t1 t2 by simp
qed

text \<open>
  Claim C6 as it is worded fails on a recognized identifier whose builder raises: no
  document is returned for a decorated method with a path argument of a type that the
  type table does not have.
\<close>

theorem dialect_dispatch_counterexample:
  "API_OPENAPI_3_PYDANTIC sample_env = ''v3_pydantic'' \<and>
   generate_doc_from_endpoints sample_env
       [RouteTuple ''/items/(?P<item_id>[0-9a-f-]+)'' uuid_handler] sample_options
       ''v3_pydantic''
     = Inl (KeyError ''uuid.UUID'')"
  by code_simp

subsection \<open>When generation returns\<close>

lemma format_handler_path_total:
  assumes "getattr (target r) (lower meth) = Inr f"
  shows "\<exists>p ws. format_handler_path r meth = Inr (p, ws)"
  using extract_parameters_names_total [OF assms, of "regex_groups r"]
  by (auto simp: format_handler_path_def Let_def)

lemma add_operations_total:
  assumes "\<forall>k\<in>fst ` set items. \<exists>f. getattr (target r) (lower k) = Inr f"
  shows "\<exists>st'. add_operations r items st = Inr st'"
  using assms
proof (induction items arbitrary: st)
  case Nil
  then show ?case by simp
next
  case (Cons kd items)
  obtain k d where kd: "kd = (k, d)" by (cases kd)
  with Cons.prems obtain f where "getattr (target r) (lower k) = Inr f" by auto
  from format_handler_path_total [OF this] obtain p ws
    where fmt: "format_handler_path r k = Inr (p, ws)" by blast
  have "\<forall>k\<in>fst ` set items. \<exists>f. getattr (target r) (lower k) = Inr f"
    using Cons.prems by simp
  from Cons.IH [OF this] show ?case
    using kd fmt by (simp split: option.splits)
qed

lemma func_doc_loop_total:
  assumes "list_all (\<lambda>meth. case getattr h (lower meth) of
                               Inl e \<Rightarrow> False
                             | Inr f \<Rightarrow> docstring_loads env f) ms"
  shows "\<exists>docs. func_doc_loop env h ms out = Inr docs"
  using assms
proof (induction ms arbitrary: out)
  case Nil
  then show ?case by simp
next
  case (Cons meth ms)
  from Cons.prems obtain f where f: "getattr h (lower meth) = Inr f"
    and loads: "docstring_loads env f"
    and rest: "list_all (\<lambda>meth. case getattr h (lower meth) of
                                    Inl e \<Rightarrow> False
                                  | Inr f \<Rightarrow> docstring_loads env f) ms"
    by (auto split: sum.splits)
  show ?case
  proof (cases "method_doc f")
    case None
    with f Cons.IH [OF rest, of out] show ?thesis by simp
  next
    case (Some doc)
    show ?thesis
    proof (cases "str_contains doc ''---''")
      case False
      with Some f Cons.IH [OF rest, of out] show ?thesis by simp
    next
      case True
      with Some loads have "\<exists>d. build_swagger_docs env doc = Inr d"
        by (auto simp: docstring_loads_def build_swagger_docs_cases split: yaml_result.splits)
      then obtain d where "build_swagger_docs env doc = Inr d"
        by blast
      with True Some f Cons.IH [OF rest, of "dict_set out (lower meth) d"]
      show ?thesis by simp
    qed
  qed
qed

lemma extract_paths_loop_total:
  assumes "list_all (route_ok env Swagger2DocBuilder) routes"
  shows "\<exists>st'. extract_paths_loop env routes st = Inr st'"
  using assms
proof (induction routes arbitrary: st)
  case Nil
  then show ?case by simp
next
  case (Cons rt routes)
  from Cons.prems obtain r where rt: "rt = URLSpec r" and hc: "handler_docs_ok env (target r)"
    by (cases rt) auto
  from func_doc_loop_total [where h = "target r" and env = env
         and ms = "SUPPORTED_METHODS (target r)" and out = "[]"] hc
  obtain docs where docs: "build_doc_from_func_doc env (target r) = Inr docs"
    by (auto simp: handler_docs_ok_def build_doc_from_func_doc_def)
  have "\<forall>k\<in>fst ` set docs. \<exists>f. getattr (target r) (lower k) = Inr f"
    using build_doc_from_func_doc_keys [OF docs] by blast
  from add_operations_total [OF this] obtain st1
    where a: "add_operations r docs st = Inr st1" by blast
  from Cons.prems have "list_all (route_ok env Swagger2DocBuilder) routes" by simp
  from Cons.IH [OF this, of st1] show ?case
    using rt docs a by simp
qed

lemma path_parameters_total:
  assumes "list_all (\<lambda>p. dict_contains PYTHON_TO_OPENAPI_MAPPER (snd p)) ips"
  shows "\<exists>ps. path_parameters ips = Inr ps"
  using assms
  by (induction ips rule: path_parameters.induct)
     (auto simp: dict_contains_def dict_get_def split: option.splits)

lemma query_parameters_total:
  assumes "required_ok required props"
  shows "\<exists>ps. query_parameters props required = Inr ps"
  using assms
proof (induction props required rule: query_parameters.induct)
  case (1 required)
  then show ?case by simp
next
  case (2 parameter_name schema props required)
  have "\<exists>b. py_in (key_value parameter_name) required = Inr b"
    using "2.prems"
    by (cases required; cases parameter_name) (auto simp: required_ok_def py_in_def)
  moreover have "required_ok required props"
    using "2.prems" by (cases required) (auto simp: required_ok_def)
  ultimately show ?case
    using "2.IH" by auto
qed

lemma build_input_and_query_doc_total:
  assumes "list_all (\<lambda>p. dict_contains PYTHON_TO_OPENAPI_MAPPER (snd p)) ips"
      and "case qry of None \<Rightarrow> True | Some q \<Rightarrow> query_ok q"
  shows "\<exists>ps. build_input_and_query_doc ips qry = Inr ps"
proof -
  from path_parameters_total [OF assms(1)] obtain ps where ps: "path_parameters ips = Inr ps"
    by blast
  show ?thesis
  proof (cases qry)
    case None
    with ps show ?thesis by (simp add: build_input_and_query_doc_def)
  next
    case (Some q)
    with assms(2) obtain props where
      props: "dict_get (model_schema q) (KStr ''properties'') = Some (PDict props)"
      and req: "required_ok (case dict_get (model_schema q) (KStr ''required'') of
                               None \<Rightarrow> PList [] | Some r \<Rightarrow> r) props"
      by (auto simp: query_ok_def split: option.splits pyval.splits)
    from query_parameters_total [OF req] obtain qs where
      "query_parameters props (case dict_get (model_schema q) (KStr ''required'') of
                                 None \<Rightarrow> PList [] | Some r \<Rightarrow> r) = Inr qs"
      by blast
    with ps Some props show ?thesis
      by (simp add: build_input_and_query_doc_def Let_def py_items_def)
  qed
qed

lemma register_definitions_total:
  assumes "definitions_ok model_spec"
  shows "\<exists>comps'. register_definitions comps model_spec = Inr comps'"
  using assms
  by (auto simp: definitions_ok_def register_definitions_def py_items_def
           split: option.splits pyval.splits)

lemma responses_loop_total:
  assumes "list_all (\<lambda>ce. case entry_model (snd ce) of
                            None \<Rightarrow> False
                          | Some m \<Rightarrow> definitions_ok (model_schema m)) rms"
  shows "\<exists>res. responses_loop rms comps resps = Inr res"
  using assms
proof (induction rms arbitrary: comps resps)
  case Nil
  then show ?case by simp
next
  case (Cons ce rms)
  obtain c e where ce: "ce = (c, e)" by (cases ce)
  with Cons.prems obtain m where m: "entry_model e = Some m" and ok: "definitions_ok (model_schema m)"
    by (auto split: option.splits)
  let ?comps1 = "if \<not> dict_contains comps (KStr (model_name m))
                 then dict_set comps (KStr (model_name m)) (PDict (pop_definitions (model_schema m)))
                 else comps"
  from register_definitions_total [OF ok, of ?comps1] obtain comps2
    where reg: "register_definitions ?comps1 (model_schema m) = Inr comps2" by blast
  from Cons.prems have "list_all (\<lambda>ce. case entry_model (snd ce) of
                            None \<Rightarrow> False
                          | Some m \<Rightarrow> definitions_ok (model_schema m)) rms"
    by simp
  from Cons.IH [OF this] show ?case
    using ce m reg by (simp add: Let_def)
qed

lemma build_pydantic_docs_total:
  assumes "swagger_info_ok f si"
  shows "\<exists>res. build_pydantic_docs comps (input_parameters_getter f) (responses si)
                 (request si) (query si) (tags si) = Inr res"
proof -
  from assms have
    a1: "list_all (\<lambda>p. dict_contains PYTHON_TO_OPENAPI_MAPPER (snd p)) (input_parameters_getter f)"
    and a2: "case query si of None \<Rightarrow> True | Some q \<Rightarrow> query_ok q"
    and a3: "case request si of None \<Rightarrow> True | Some r \<Rightarrow> definitions_ok (model_schema r)"
    and a4: "list_all (\<lambda>ce. case entry_model (snd ce) of
                              None \<Rightarrow> False
                            | Some m \<Rightarrow> definitions_ok (model_schema m)) (responses si)"
    by (simp_all add: swagger_info_ok_def)
  from build_input_and_query_doc_total [OF a1 a2] obtain ps where
    ps: "build_input_and_query_doc (input_parameters_getter f) (query si) = Inr ps" by blast
  show ?thesis
  proof (cases "request si")
    case None
    from responses_loop_total [OF a4, of comps "[]"] obtain res
      where "responses_loop (responses si) comps [] = Inr res" by blast
    with ps None show ?thesis
      by (cases res) (simp add: build_pydantic_docs_def Let_def)
  next
    case (Some r)
    with a3 have "definitions_ok (model_schema r)" by simp
    from register_definitions_total [OF this, of comps] obtain comps1
      where reg: "register_definitions comps (model_schema r) = Inr comps1" by blast
    from responses_loop_total [OF a4, of comps1 "[]"] obtain res
      where "responses_loop (responses si) comps1 [] = Inr res" by blast
    with ps Some reg show ?thesis
      by (cases res) (simp add: build_pydantic_docs_def Let_def)
  qed
qed

lemma pydantic_handler_loop_total:
  assumes "list_all (\<lambda>meth. case getattr h (lower meth) of
                        Inl e \<Rightarrow> False
                      | Inr f \<Rightarrow> (case method_swagger_info f of
                                   None \<Rightarrow> True
                                 | Some si \<Rightarrow> swagger_info_ok f si)) ms"
  shows "\<exists>res. pydantic_handler_loop h ms out comps = Inr res"
  using assms
proof (induction ms arbitrary: out comps)
  case Nil
  then show ?case by simp
next
  case (Cons meth ms)
  from Cons.prems obtain f where f: "getattr h (lower meth) = Inr f"
    and ok: "case method_swagger_info f of None \<Rightarrow> True | Some si \<Rightarrow> swagger_info_ok f si"
    and rest: "list_all (\<lambda>meth. case getattr h (lower meth) of
                        Inl e \<Rightarrow> False
                      | Inr f \<Rightarrow> (case method_swagger_info f of
                                   None \<Rightarrow> True
                                 | Some si \<Rightarrow> swagger_info_ok f si)) ms"
    by (auto split: sum.splits)
  show ?case
  proof (cases "method_swagger_info f")
    case None
    with f Cons.IH [OF rest] show ?thesis by simp
  next
    case (Some si)
    with ok have "swagger_info_ok f si" by simp
    from build_pydantic_docs_total [OF this, of comps] obtain d comps1 where
      "build_pydantic_docs comps (input_parameters_getter f) (responses si)
         (request si) (query si) (tags si) = Inr (d, comps1)"
      by force
    with f Some Cons.IH [OF rest, of "dict_set out (lower meth) d" comps1]
    show ?thesis by simp
  qed
qed

lemma pydantic_handler_loop_lower_keys:
  assumes "pydantic_handler_loop h ms out comps = Inr (docs, comps')"
      and "\<forall>k\<in>fst ` set out. \<exists>f. getattr h (lower k) = Inr f"
  shows "\<forall>k\<in>fst ` set docs. \<exists>f. getattr h (lower k) = Inr f"
  using assms
proof (induction ms arbitrary: out comps)
  case Nil
  then show ?case by simp
next
  case (Cons meth ms)
  from Cons.prems(1) obtain f where f: "getattr h (lower meth) = Inr f"
    by (auto split: sum.splits)
  show ?case
  proof (cases "method_swagger_info f")
    case None
    with Cons.prems f have "pydantic_handler_loop h ms out comps = Inr (docs, comps')"
      by simp
    from Cons.IH [OF this Cons.prems(2)] show ?thesis .
  next
    case (Some si)
    with Cons.prems(1) f obtain d comps1 where
      rest: "pydantic_handler_loop h ms (dict_set out (lower meth) d) comps1 = Inr (docs, comps')"
      by (auto split: sum.splits)
    have "\<forall>k\<in>fst ` set (dict_set out (lower meth) d). \<exists>f. getattr h (lower k) = Inr f"
    proof
      fix k assume "k \<in> fst ` set (dict_set out (lower meth) d)"
      then have "k = lower meth \<or> k \<in> fst ` set out" by (simp only: dict_set_keys) blast
      then show "\<exists>f. getattr h (lower k) = Inr f"
        using Cons.prems(2) f by (auto simp only: lower_idem)
    qed
    from Cons.IH [OF rest this] show ?thesis .
  qed
qed

lemma extract_paths_pydantic_loop_total:
  assumes "list_all (route_ok env PydanticBuilder) routes"
  shows "\<exists>st'. extract_paths_pydantic_loop env routes st = Inr st'"
  using assms
proof (induction routes arbitrary: st)
  case Nil
  then show ?case by simp
next
  case (Cons rt routes)
  from Cons.prems obtain pattern h where rt: "rt = RouteTuple pattern h"
    and pat: "pattern_ok env pattern" and ok: "handler_models_ok h"
    by (cases rt) auto
  from tornado_web_url_ok [OF pat] obtain r where
    r: "tornado_web_url env pattern h = Inr r" and tr: "target r = h"
    by blast
  from pydantic_handler_loop_total [of h "SUPPORTED_METHODS h" "[]" "proc_schemas st"] ok
  obtain docs comps where
    b: "build_doc_from_pydantic_handler (proc_schemas st) h = Inr (docs, comps)"
    by (force simp: handler_models_ok_def build_doc_from_pydantic_handler_def)
  then have "pydantic_handler_loop h (SUPPORTED_METHODS h) [] (proc_schemas st) = Inr (docs, comps)"
    by (simp add: build_doc_from_pydantic_handler_def)
  from pydantic_handler_loop_lower_keys [OF this]
  have "\<forall>k\<in>fst ` set docs. \<exists>f. getattr (target r) (lower k) = Inr f"
    by (simp add: tr)
  from add_operations_total [OF this, of "(proc_paths st, proc_warnings st)"]
  obtain ps ws where
    a: "add_operations r docs (proc_paths st, proc_warnings st) = Inr (ps, ws)"
    by force
  from Cons.prems have "list_all (route_ok env PydanticBuilder) routes" by simp
  from Cons.IH [OF this, of "\<lparr>proc_paths = ps, proc_schemas = comps, proc_warnings = ws\<rparr>"]
  show ?case
    using rt r b a by (simp add: tr)
qed

lemma generate_doc_total:
  assumes "list_all (route_ok env b) routes"
  shows "\<exists>doc ws. generate_doc b env routes opts models parameters = Inr (doc, ws)"
proof (cases b)
  case Swagger2DocBuilder
  with assms have "list_all (route_ok env Swagger2DocBuilder) routes" by simp
  from extract_paths_loop_total [OF this, of "([], [])"] Swagger2DocBuilder
  show ?thesis by (auto simp: extract_paths_def)
next
  case OpenApiDocBuilder
  have "route_ok env OpenApiDocBuilder = route_ok env Swagger2DocBuilder"
  proof
    fix rt show "route_ok env OpenApiDocBuilder rt = route_ok env Swagger2DocBuilder rt"
      by (cases rt) simp_all
  qed
  with assms OpenApiDocBuilder have "list_all (route_ok env Swagger2DocBuilder) routes" by simp
  from extract_paths_loop_total [OF this, of "([], [])"] OpenApiDocBuilder
  show ?thesis by (auto simp: extract_paths_def)
next
  case PydanticBuilder
  with assms have "list_all (route_ok env PydanticBuilder) routes" by simp
  from extract_paths_pydantic_loop_total [OF this]
  obtain st where "extract_paths_pydantic env routes = Inr st"
    unfolding extract_paths_pydantic_def by blast
  with PydanticBuilder show ?thesis by simp
qed

lemma extract_paths_abort:
  assumes "extract_paths env rs1 = Inr st1"
      and "build_doc_from_func_doc env (target r) = Inl e"
  shows "extract_paths env (rs1 @ URLSpec r # rs2) = Inl e"
  using assms
  by (simp add: extract_paths_def extract_paths_loop_append)

lemma extract_paths_pydantic_abort_pattern:
  assumes "extract_paths_pydantic env rs1 = Inr st1"
      and "tornado_web_url env pattern h = Inl e"
  shows "extract_paths_pydantic env (rs1 @ RouteTuple pattern h # rs2) = Inl e"
  using assms
  by (simp add: extract_paths_pydantic_def extract_paths_pydantic_loop_append)

lemma extract_paths_pydantic_abort:
  assumes "extract_paths_pydantic env rs1 = Inr st1"
      and "pattern_ok env pattern"
      and "build_doc_from_pydantic_handler (proc_schemas st1) h = Inl e"
  shows "extract_paths_pydantic env (rs1 @ RouteTuple pattern h # rs2) = Inl e"
proof -
  from tornado_web_url_ok [OF assms(2)] obtain r where
    "tornado_web_url env pattern h = Inr r" "target r = h"
    by blast
  with assms(1,3) show ?thesis
    by (simp add: extract_paths_pydantic_def extract_paths_pydantic_loop_append)
qed

text \<open>
  Claim C3, amended.  Let the identifier be registered for a builder.  Generation
  returns a document when the route list has the shape the builder takes and nothing
  that processes a route raises: for the two docstring builders, \<^verbatim>\<open>URLSpec\<close> objects
  whose handlers have all their supported methods, with schema blocks on which the
  loader returns an object or raises \<^verbatim>\<open>yaml.YAMLError\<close>; for the model-declaration
  builder, tuples of a pattern that \<^verbatim>\<open>tornado.web.url\<close> accepts and such a handler in
  which every decorated method has only arguments annotated with a type of the type
  table, every response entry has a model, and the schemas have the shape pydantic gives
  them.  A route that does not fit its pattern, a method without schema block and a
  block that is not a mapping are contained there (claims C1 and C2).  An exception is
  not contained: after routes that were processed, a route of a docstring builder on
  whose schema block the loader raises another exception, a route of the
  model-declaration builder whose pattern is refused, and such a route whose handler
  raises while its operations are built, each end the whole call in that exception,
  whatever routes follow.
\<close>

theorem generation_returns:
  assumes "dict_get (doc_builders env) v = Some b"
  shows "(list_all (route_ok env b) routes \<longrightarrow>
            (\<exists>doc ws. generate_doc_from_endpoints env routes opts v = Inr (doc, ws))) \<and>
         (\<forall>rs1 st1 r e rs2.
            b \<noteq> PydanticBuilder \<and> extract_paths env rs1 = Inr st1 \<and>
            build_doc_from_func_doc env (target r) = Inl e \<longrightarrow>
            generate_doc_from_endpoints env (rs1 @ URLSpec r # rs2) opts v = Inl e) \<and>
         (\<forall>rs1 st1 pattern h e rs2.
            b = PydanticBuilder \<and> extract_paths_pydantic env rs1 = Inr st1 \<and>
            tornado_web_url env pattern h = Inl e \<longrightarrow>
            generate_doc_from_endpoints env (rs1 @ RouteTuple pattern h # rs2) opts v = Inl e) \<and>
         (\<forall>rs1 st1 pattern h e rs2.
            b = PydanticBuilder \<and> extract_paths_pydantic env rs1 = Inr st1 \<and>
            pattern_ok env pattern \<and>
            build_doc_from_pydantic_handler (proc_schemas st1) h = Inl e \<longrightarrow>
            generate_doc_from_endpoints env (rs1 @ RouteTuple pattern h # rs2) opts v = Inl e)"
proof -
  have eq: "generate_doc_from_endpoints env rs opts v =
              generate_doc b env rs opts (export_swagger_models env)
                (export_swagger_parameters env)" for rs
    using assms by (simp add: generate_doc_from_endpoints_def dict_contains_def dict_get_def)
  have ret: "\<exists>doc ws. generate_doc_from_endpoints env routes opts v = Inr (doc, ws)"
    if "list_all (route_ok env b) routes"
    unfolding eq by (rule generate_doc_total [OF that])
  have loader: "generate_doc_from_endpoints env (rs1 @ URLSpec r # rs2) opts v = Inl e"
    if "b \<noteq> PydanticBuilder" "extract_paths env rs1 = Inr st1"
       "build_doc_from_func_doc env (target r) = Inl e"
    for rs1 st1 r e rs2
    unfolding eq using that(1) extract_paths_abort [OF that(2,3)] by (cases b) simp_all
  have refused: "generate_doc_from_endpoints env (rs1 @ RouteTuple pattern h # rs2) opts v = Inl e"
    if "b = PydanticBuilder" "extract_paths_pydantic env rs1 = Inr st1"
       "tornado_web_url env pattern h = Inl e"
    for rs1 st1 pattern h e rs2
    unfolding eq using that(1) extract_paths_pydantic_abort_pattern [OF that(2,3)] by simp
  have abort: "generate_doc_from_endpoints env (rs1 @ RouteTuple pattern h # rs2) opts v = Inl e"
    if "b = PydanticBuilder" "extract_paths_pydantic env rs1 = Inr st1"
       "pattern_ok env pattern"
       "build_doc_from_pydantic_handler (proc_schemas st1) h = Inl e"
    for rs1 st1 pattern h e rs2
    unfolding eq using that(1) extract_paths_pydantic_abort [OF that(2,3,4)] by simp
  show ?thesis
    using ret loader refused abort by blast
qed

theorem generation_returns_witness:
  "dict_get (doc_builders sample_env) ''v2'' = Some Swagger2DocBuilder \<and>
   list_all (route_ok sample_env Swagger2DocBuilder) docstring_routes \<and>
   (\<exists>doc ws. generate_doc_from_endpoints sample_env docstring_routes sample_options ''v2''
              = Inr (doc, ws)) \<and>
   extract_paths sample_env docstring_routes
     = Inr ([(''/docs'', [(''get'', invalid_swagger)]),
             (''/items/{item_id}'', [(''get'', PDict [(KStr ''summary'', PStr ''hello'')])])],
            [illegal_route nested_route]) \<and>
   build_doc_from_func_doc sample_env date_handler
     = Inl (ValueError ''day is out of range for month'') \<and>
   generate_doc_from_endpoints sample_env
       (docstring_routes
          @ URLSpec \<lparr>regex_pattern = ''/dated$'', regex_groups = 0, target = date_handler\<rparr>
          # docstring_routes)
       sample_options ''v2''
     = Inl (ValueError ''day is out of range for month'') \<and>
   dict_get (doc_builders sample_env) ''v3_pydantic'' = Some PydanticBuilder \<and>
   list_all (route_ok sample_env PydanticBuilder) model_routes \<and>
   (\<exists>doc ws. generate_doc_from_endpoints sample_env model_routes sample_options ''v3_pydantic''
              = Inr (doc, ws)) \<and>
   extract_paths_pydantic sample_env model_routes
     = Inr \<lparr>proc_paths =
              [(''/items'',
                [(''post'',
                  PDict [(KStr ''responses'',
                          PDict [(KInt 200,
                                  response_object (PStr ''Successful Response'') ''Item'')])])])],
            proc_schemas = [(KStr ''Item'', PDict (model_schema item_model))],
            proc_warnings =
              [illegal_route \<lparr>regex_pattern = ''/x/((a)|b)$'', regex_groups = 2,
                              target = model_handler item_model\<rparr>]\<rparr> \<and>
   tornado_web_url sample_env ''/items/('' (model_handler item_model)
     = Inl (ReError ''missing ), unterminated subpattern at position 7'') \<and>
   generate_doc_from_endpoints sample_env
       (model_routes @ RouteTuple ''/items/('' (model_handler item_model) # model_routes)
       sample_options ''v3_pydantic''
     = Inl (ReError ''missing ), unterminated subpattern at position 7'') \<and>
   tornado_web_url sample_env ''/pairs/(?P<left>[0-9]+)/([0-9]+)'' (model_handler item_model)
     = Inl (AssertionError ''/pairs/(?P<left>[0-9]+)/([0-9]+)$'') \<and>
   generate_doc_from_endpoints sample_env
       (model_routes
          @ RouteTuple ''/pairs/(?P<left>[0-9]+)/([0-9]+)'' (model_handler item_model)
          # model_routes)
       sample_options ''v3_pydantic''
     = Inl (AssertionError ''/pairs/(?P<left>[0-9]+)/([0-9]+)$'') \<and>
   pattern_ok sample_env ''/u/(?P<item_id>[0-9a-f-]+)'' \<and>
   build_doc_from_pydantic_handler
       [(KStr ''Item'', PDict (model_schema item_model))] uuid_handler
     = Inl (KeyError ''uuid.UUID'') \<and>
   generate_doc_from_endpoints sample_env
       (model_routes @ RouteTuple ''/u/(?P<item_id>[0-9a-f-]+)'' uuid_handler # model_routes)
       sample_options ''v3_pydantic''
     = Inl (KeyError ''uuid.UUID'')"
proof -
  let ?st = "\<lparr>proc_paths =
              [(''/items'',
                [(''post'',
                  PDict [(KStr ''responses'',
                          PDict [(KInt 200,
                                  response_object (PStr ''Successful Response'') ''Item'')])])])],
            proc_schemas = [(KStr ''Item'', PDict (model_schema item_model))],
            proc_warnings =
              [illegal_route \<lparr>regex_pattern = ''/x/((a)|b)$'', regex_groups = 2,
                              target = model_handler item_model\<rparr>]\<rparr>"
  let ?st2 = "([(''/docs'', [(''get'', invalid_swagger)]),
               (''/items/{item_id}'', [(''get'', PDict [(KStr ''summary'', PStr ''hello'')])])],
              [illegal_route nested_route])"
  let ?dated = "\<lparr>regex_pattern = ''/dated$'', regex_groups = 0, target = date_handler\<rparr>"
  have b2: "dict_get (doc_builders sample_env) ''v2'' = Some Swagger2DocBuilder"
    by code_simp
  have r2: "list_all (route_ok sample_env Swagger2DocBuilder) docstring_routes"
    by code_simp
  have e2: "extract_paths sample_env docstring_routes = Inr ?st2"
    by code_simp
  have d2: "build_doc_from_func_doc sample_env date_handler
              = Inl (ValueError ''day is out of range for month'')"
    by code_simp
  have d2': "build_doc_from_func_doc sample_env (target ?dated)
              = Inl (ValueError ''day is out of range for month'')"
    using d2 by simp
  have n2: "Swagger2DocBuilder \<noteq> PydanticBuilder"
    by simp
  have b3: "dict_get (doc_builders sample_env) ''v3_pydantic'' = Some PydanticBuilder"
    by code_simp
  have r3: "list_all (route_ok sample_env PydanticBuilder) model_routes"
    by code_simp
  have e3: "extract_paths_pydantic sample_env model_routes = Inr ?st"
    by code_simp
  have u1: "tornado_web_url sample_env ''/items/('' (model_handler item_model)
              = Inl (ReError ''missing ), unterminated subpattern at position 7'')"
    by code_simp
  have u2: "tornado_web_url sample_env ''/pairs/(?P<left>[0-9]+)/([0-9]+)''
                (model_handler item_model)
              = Inl (AssertionError ''/pairs/(?P<left>[0-9]+)/([0-9]+)$'')"
    by code_simp
  have p: "pattern_ok sample_env ''/u/(?P<item_id>[0-9a-f-]+)''"
    by code_simp
  have k: "build_doc_from_pydantic_handler (proc_schemas ?st) uuid_handler
             = Inl (KeyError ''uuid.UUID'')"
    by code_simp
  have t2: "\<exists>doc ws. generate_doc_from_endpoints sample_env docstring_routes sample_options ''v2''
              = Inr (doc, ws)"
    by (rule generation_returns [OF b2, THEN conjunct1, rule_format, OF r2])
  have t2': "generate_doc_from_endpoints sample_env
               (docstring_routes @ URLSpec ?dated # docstring_routes) sample_options ''v2''
             = Inl (ValueError ''day is out of range for month'')"
    by (rule generation_returns [OF b2, THEN conjunct2, THEN conjunct1, rule_format,
               OF conjI [OF n2 conjI [OF e2 d2']]])
  have t3: "\<exists>doc ws. generate_doc_from_endpoints sample_env model_routes sample_options
              ''v3_pydantic'' = Inr (doc, ws)"
    by (rule generation_returns [OF b3, THEN conjunct1, rule_format, OF r3])
  have t4: "generate_doc_from_endpoints sample_env
       (model_routes @ RouteTuple ''/items/('' (model_handler item_model) # model_routes)
       sample_options ''v3_pydantic''
     = Inl (ReError ''missing ), unterminated subpattern at position 7'')"
    by (rule generation_returns [OF b3, THEN conjunct2, THEN conjunct2, THEN conjunct1,
               rule_format, OF conjI [OF refl conjI [OF e3 u1]]])
  have t5: "generate_doc_from_endpoints sample_env
       (model_routes
          @ RouteTuple ''/pairs/(?P<left>[0-9]+)/([0-9]+)'' (model_handler item_model)
          # model_routes)
       sample_options ''v3_pydantic''
     = Inl (AssertionError ''/pairs/(?P<left>[0-9]+)/([0-9]+)$'')"
    by (rule generation_returns [OF b3, THEN conjunct2, THEN conjunct2, THEN conjunct1,
               rule_format, OF conjI [OF refl conjI [OF e3 u2]]])
  have t6: "generate_doc_from_endpoints sample_env
       (model_routes @ RouteTuple ''/u/(?P<item_id>[0-9a-f-]+)'' uuid_handler # model_routes)
       sample_options ''v3_pydantic''
     = Inl (KeyError ''uuid.UUID'')"
    by (rule generation_returns [OF b3, THEN conjunct2, THEN conjunct2, THEN conjunct2,
               rule_format, OF conjI [OF refl conjI [OF e3 conjI [OF p k]]]])
  have k': "build_doc_from_pydantic_handler
              [(KStr ''Item'', PDict (model_schema item_model))] uuid_handler
            = Inl (KeyError ''uuid.UUID'')"
    using k by simp
  show ?thesis
    using b2 r2 t2 e2 d2 t2' b3 r3 t3 e3 u1 t4 u2 t5 p k' t6
    by (intro conjI) assumption+
qed

text \<open>
  Claim C3 as it is worded fails under the model-declaration dialect: a decorated method
  with an argument that has no annotation raises \<^verbatim>\<open>KeyError\<close>, and the call ends
  there although the next route is in order.
\<close>

theorem generation_aborts_counterexample:
  "dict_get (doc_builders sample_env) ''v3_pydantic'' = Some PydanticBuilder \<and>
   generate_doc_from_endpoints sample_env
       [RouteTuple ''/items/(?P<item_id>[0-9]+)'' unannotated_handler,
        RouteTuple ''/items'' (model_handler item_model)]
       sample_options ''v3_pydantic''
     = Inl (KeyError ''inspect._empty'')"
  by code_simp

end
